(* ===== verification/Prelude.thy ===== *)
theory Prelude
  imports Main
begin

text \<open>
  Shared machinery of the development: the faults a C or C++ statement can end in, the state and
  fault monad every effectful routine of the model is written in, the invariant predicate
  \<open>keeps\<close> with its collection of rules, a partial-correctness triple, and the generic list
  lemmas the components share.
\<close>

section \<open>Faults\<close>

text \<open>
  A C++ exception is catchable; undefined behaviour and a call of \<open>exit\<close> or \<open>abort\<close> are not.
  Every place of the source that can end in one of these is a branch of the model.
\<close>

datatype cpp_exn = Fs_error string | Json_error string | Out_of_range

datatype ub_kind = NullDeref | OutOfBounds | BufferOverflow | UninitRead | UseAfterFree | SignedOverflow

datatype fault = Throw cpp_exn | Undef ub_kind | Exit int | Abort

section \<open>The state and fault monad\<close>

type_synonym ('w, 'a) M = "'w \<Rightarrow> (fault + 'a) \<times> 'w"

definition ret :: "'a \<Rightarrow> ('w, 'a) M" where
  "ret x = (\<lambda>w. (Inr x, w))"

definition raise :: "fault \<Rightarrow> ('w, 'a) M" where
  "raise e = (\<lambda>w. (Inl e, w))"

definition bindM :: "('w, 'a) M \<Rightarrow> ('a \<Rightarrow> ('w, 'b) M) \<Rightarrow> ('w, 'b) M" where
  "bindM m f = (\<lambda>w. case m w of (Inl e, w') \<Rightarrow> (Inl e, w') | (Inr x, w') \<Rightarrow> f x w')"

definition thenM :: "('w, 'a) M \<Rightarrow> ('w, 'b) M \<Rightarrow> ('w, 'b) M" where
  "thenM m k = bindM m (\<lambda>_. k)"

definition getM :: "('w \<Rightarrow> 'a) \<Rightarrow> ('w, 'a) M" where
  "getM f = (\<lambda>w. (Inr (f w), w))"

definition modM :: "('w \<Rightarrow> 'w) \<Rightarrow> ('w, unit) M" where
  "modM f = (\<lambda>w. (Inr (), f w))"

text \<open>A pure computation that may throw, lifted.\<close>

definition liftM :: "fault + 'a \<Rightarrow> ('w, 'a) M" where
  "liftM r = (\<lambda>w. (r, w))"

text \<open>\<open>try { m } catch ( ... ) { h }\<close>: only C++ exceptions reach the handler.\<close>

definition catchM :: "('w, 'a) M \<Rightarrow> (cpp_exn \<Rightarrow> ('w, 'a) M) \<Rightarrow> ('w, 'a) M" where
  "catchM m h = (\<lambda>w. case m w of (Inl (Throw e), w') \<Rightarrow> h e w' | r \<Rightarrow> r)"

definition whenM :: "bool \<Rightarrow> ('w, unit) M \<Rightarrow> ('w, unit) M" where
  "whenM b m = (if b then m else ret ())"

fun forM :: "('a \<Rightarrow> ('w, unit) M) \<Rightarrow> 'a list \<Rightarrow> ('w, unit) M" where
  "forM f [] = ret ()"
| "forM f (x # xs) = thenM (f x) (forM f xs)"

fun foldM :: "('s \<Rightarrow> 'a \<Rightarrow> ('w, 's) M) \<Rightarrow> 's \<Rightarrow> 'a list \<Rightarrow> ('w, 's) M" where
  "foldM f s [] = ret s"
| "foldM f s (x # xs) = bindM (f s x) (\<lambda>s'. foldM f s' xs)"

lemma ret_apply [simp]: "ret x w = (Inr x, w)"
  by (simp add: ret_def)

lemma raise_apply [simp]: "raise e w = (Inl e, w)"
  by (simp add: raise_def)

lemma getM_apply [simp]: "getM f w = (Inr (f w), w)"
  by (simp add: getM_def)

lemma modM_apply [simp]: "modM f w = (Inr (), f w)"
  by (simp add: modM_def)

lemma liftM_apply [simp]: "liftM r w = (r, w)"
  by (simp add: liftM_def)

lemma bindM_apply:
  "bindM m f w = (case m w of (Inl e, w') \<Rightarrow> (Inl e, w') | (Inr x, w') \<Rightarrow> f x w')"
  by (simp add: bindM_def)

lemma bindM_Inr [simp]: "m w = (Inr x, w') \<Longrightarrow> bindM m f w = f x w'"
  by (simp add: bindM_def)

lemma bindM_Inl [simp]: "m w = (Inl e, w') \<Longrightarrow> bindM m f w = (Inl e, w')"
  by (simp add: bindM_def)

lemma thenM_Inr [simp]: "m w = (Inr x, w') \<Longrightarrow> thenM m k w = k w'"
  by (simp add: thenM_def)

lemma thenM_Inl [simp]: "m w = (Inl e, w') \<Longrightarrow> thenM m k w = (Inl e, w')"
  by (simp add: thenM_def)

lemma catchM_Inr [simp]: "m w = (Inr x, w') \<Longrightarrow> catchM m h w = (Inr x, w')"
  by (simp add: catchM_def)

lemma catchM_Throw [simp]: "m w = (Inl (Throw e), w') \<Longrightarrow> catchM m h w = h e w'"
  by (simp add: catchM_def)

lemma bindM_ret [simp]: "bindM (ret x) f = f x"
  by (simp add: bindM_def ret_def fun_eq_iff)

lemma thenM_ret [simp]: "thenM (ret x) k = k"
  by (simp add: thenM_def)

lemma bindM_ret_right [simp]: "bindM m ret = m"
  by (auto simp: bindM_def ret_def fun_eq_iff split: prod.splits sum.splits)

lemma bindM_eq_Inr:
  "bindM m f w = (Inr y, w') \<longleftrightarrow> (\<exists>x w1. m w = (Inr x, w1) \<and> f x w1 = (Inr y, w'))"
  by (auto simp: bindM_def split: prod.splits sum.splits)

lemma thenM_eq_Inr:
  "thenM m k w = (Inr y, w') \<longleftrightarrow> (\<exists>x w1. m w = (Inr x, w1) \<and> k w1 = (Inr y, w'))"
  by (simp add: thenM_def bindM_eq_Inr)

lemma bindM_assoc: "bindM (bindM m f) g = bindM m (\<lambda>x. bindM (f x) g)"
  by (auto simp: bindM_def fun_eq_iff split: prod.splits sum.splits)

lemma bindM_raise [simp]: "bindM (raise e) f = raise e"
  by (simp add: bindM_def raise_def fun_eq_iff)

section \<open>Invariants of routines\<close>

definition keeps :: "('w \<Rightarrow> bool) \<Rightarrow> ('w, 'a) M \<Rightarrow> bool" where
  "keeps I m \<longleftrightarrow> (\<forall>w. I w \<longrightarrow> I (snd (m w)))"

named_theorems keeps_intros \<open>how routines keep an invariant\<close>

lemma keepsD: "keeps I m \<Longrightarrow> I w \<Longrightarrow> I (snd (m w))"
  by (simp add: keeps_def)

lemma keepsI: "(\<And>w. I w \<Longrightarrow> I (snd (m w))) \<Longrightarrow> keeps I m"
  by (simp add: keeps_def)

lemma keeps_ret [keeps_intros]: "keeps I (ret x)"
  by (simp add: keeps_def)

lemma keeps_raise [keeps_intros]: "keeps I (raise e)"
  by (simp add: keeps_def)

lemma keeps_getM [keeps_intros]: "keeps I (getM f)"
  by (simp add: keeps_def)

lemma keeps_liftM [keeps_intros]: "keeps I (liftM r)"
  by (simp add: keeps_def)

lemma keeps_modM: "(\<And>w. I w \<Longrightarrow> I (f w)) \<Longrightarrow> keeps I (modM f)"
  by (simp add: keeps_def)

lemma keeps_bindM [keeps_intros]:
  assumes "keeps I m" and "\<And>x. keeps I (f x)"
  shows "keeps I (bindM m f)"
proof (rule keepsI)
  fix w assume "I w"
  with assms(1) have m: "I (snd (m w))" by (rule keepsD)
  show "I (snd (bindM m f w))"
  proof (cases "fst (m w)")
    case (Inl e)
    with m show ?thesis by (cases "m w") (simp add: bindM_def)
  next
    case (Inr x)
    then have "bindM m f w = f x (snd (m w))"
      by (cases "m w") (simp add: bindM_def)
    with assms(2) [of x] m show ?thesis by (simp add: keepsD)
  qed
qed

text \<open>What holds after a first step holds at the end, if the rest keeps it.\<close>

lemma after_bindM:
  assumes "I (snd (m w))" and "\<And>x. keeps I (f x)"
  shows "I (snd (bindM m f w))"
  using assms by (auto simp: bindM_def keeps_def split: prod.splits sum.splits)

lemma keeps_thenM [keeps_intros]: "keeps I m \<Longrightarrow> keeps I k \<Longrightarrow> keeps I (thenM m k)"
  by (simp add: thenM_def keeps_bindM)

lemma keeps_catchM [keeps_intros]:
  assumes "keeps I m" and "\<And>e. keeps I (h e)"
  shows "keeps I (catchM m h)"
proof (rule keepsI)
  fix w assume "I w"
  with assms(1) have m: "I (snd (m w))" by (rule keepsD)
  then show "I (snd (catchM m h w))"
    using assms(2) by (auto simp: catchM_def keeps_def split: prod.splits sum.splits fault.splits)
qed

lemma keeps_whenM [keeps_intros]: "(b \<Longrightarrow> keeps I m) \<Longrightarrow> keeps I (whenM b m)"
  by (simp add: whenM_def keeps_ret)

lemma keeps_if [keeps_intros]:
  "(b \<Longrightarrow> keeps I m) \<Longrightarrow> (\<not> b \<Longrightarrow> keeps I k) \<Longrightarrow> keeps I (if b then m else k)"
  by simp

lemma keeps_case_option [keeps_intros]:
  "(x = None \<Longrightarrow> keeps I m) \<Longrightarrow> (\<And>y. x = Some y \<Longrightarrow> keeps I (f y)) \<Longrightarrow>
   keeps I (case x of None \<Rightarrow> m | Some y \<Rightarrow> f y)"
  by (cases x) simp_all

lemma keeps_case_list [keeps_intros]:
  "(xs = [] \<Longrightarrow> keeps I m) \<Longrightarrow> (\<And>y ys. xs = y # ys \<Longrightarrow> keeps I (f y ys)) \<Longrightarrow>
   keeps I (case xs of [] \<Rightarrow> m | y # ys \<Rightarrow> f y ys)"
  by (cases xs) simp_all

lemma keeps_case_prod [keeps_intros]:
  "(\<And>a b. p = (a, b) \<Longrightarrow> keeps I (f a b)) \<Longrightarrow> keeps I (case p of (a, b) \<Rightarrow> f a b)"
  by (cases p) simp

lemma keeps_case_sum [keeps_intros]:
  "(\<And>a. p = Inl a \<Longrightarrow> keeps I (f a)) \<Longrightarrow> (\<And>b. p = Inr b \<Longrightarrow> keeps I (g b)) \<Longrightarrow>
   keeps I (case p of Inl a \<Rightarrow> f a | Inr b \<Rightarrow> g b)"
  by (cases p) simp_all

lemma keeps_Let [keeps_intros]: "keeps I (f x) \<Longrightarrow> keeps I (let y = x in f y)"
  by simp

lemma keeps_forM [keeps_intros]: "(\<And>x. keeps I (f x)) \<Longrightarrow> keeps I (forM f xs)"
  by (induction xs) (simp_all add: keeps_ret keeps_thenM)

lemma keeps_foldM [keeps_intros]: "(\<And>s x. keeps I (f s x)) \<Longrightarrow> keeps I (foldM f s xs)"
  by (induction xs arbitrary: s) (simp_all add: keeps_ret keeps_bindM)

section \<open>Routines that cannot fail\<close>

text \<open>\<open>runs I m\<close>: from every state with \<open>I\<close> the routine returns, with no fault, and keeps \<open>I\<close>.\<close>

definition runs :: "('w \<Rightarrow> bool) \<Rightarrow> ('w, 'a) M \<Rightarrow> bool" where
  "runs I m \<longleftrightarrow> (\<forall>w. I w \<longrightarrow> (\<exists>x w'. m w = (Inr x, w') \<and> I w'))"

named_theorems runs_intros \<open>how routines are shown to return\<close>

lemma runsD: "runs I m \<Longrightarrow> I w \<Longrightarrow> \<exists>x w'. m w = (Inr x, w') \<and> I w'"
  by (simp add: runs_def)

lemma runs_keeps: "runs I m \<Longrightarrow> keeps I m"
  by (force simp: runs_def keeps_def)

lemma runs_ret [runs_intros]: "runs I (ret x)"
  by (simp add: runs_def)

lemma runs_getM [runs_intros]: "runs I (getM f)"
  by (simp add: runs_def)

lemma runs_modM: "(\<And>w. I w \<Longrightarrow> I (f w)) \<Longrightarrow> runs I (modM f)"
  by (simp add: runs_def)

lemma runs_bindM [runs_intros]: "runs I m \<Longrightarrow> (\<And>x. runs I (f x)) \<Longrightarrow> runs I (bindM m f)"
  by (fastforce simp: runs_def bindM_def)

lemma runs_thenM [runs_intros]: "runs I m \<Longrightarrow> runs I k \<Longrightarrow> runs I (thenM m k)"
  by (simp add: thenM_def runs_bindM)

lemma runs_whenM [runs_intros]: "(b \<Longrightarrow> runs I m) \<Longrightarrow> runs I (whenM b m)"
  by (simp add: whenM_def runs_ret)

lemma runs_if [runs_intros]:
  "(b \<Longrightarrow> runs I m) \<Longrightarrow> (\<not> b \<Longrightarrow> runs I k) \<Longrightarrow> runs I (if b then m else k)"
  by simp

lemma runs_case_option [runs_intros]:
  "(x = None \<Longrightarrow> runs I m) \<Longrightarrow> (\<And>y. x = Some y \<Longrightarrow> runs I (f y)) \<Longrightarrow>
   runs I (case x of None \<Rightarrow> m | Some y \<Rightarrow> f y)"
  by (cases x) simp_all

lemma runs_case_list [runs_intros]:
  "(xs = [] \<Longrightarrow> runs I m) \<Longrightarrow> (\<And>y ys. xs = y # ys \<Longrightarrow> runs I (f y ys)) \<Longrightarrow>
   runs I (case xs of [] \<Rightarrow> m | y # ys \<Rightarrow> f y ys)"
  by (cases xs) simp_all

lemma runs_forM [runs_intros]: "(\<And>x. x \<in> set xs \<Longrightarrow> runs I (f x)) \<Longrightarrow> runs I (forM f xs)"
  by (induction xs) (simp_all add: runs_ret runs_thenM)

section \<open>Results of routines\<close>

text \<open>
  \<open>spec P m Q\<close>: from a state with \<open>P\<close>, the outcome of \<open>m\<close> (its value or its fault, and the state
  it leaves) satisfies \<open>Q\<close>. Unlike an invariant it speaks of the value as well.
\<close>

definition spec :: "('w \<Rightarrow> bool) \<Rightarrow> ('w, 'a) M \<Rightarrow> (fault + 'a \<Rightarrow> 'w \<Rightarrow> bool) \<Rightarrow> bool" where
  "spec P m Q \<longleftrightarrow> (\<forall>w. P w \<longrightarrow> Q (fst (m w)) (snd (m w)))"

named_theorems spec_intros \<open>how the outcome of routines is established\<close>

lemma specD: "spec P m Q \<Longrightarrow> P w \<Longrightarrow> Q (fst (m w)) (snd (m w))"
  by (simp add: spec_def)

lemma spec_weaken:
  "spec P m Q \<Longrightarrow> (\<And>w. P' w \<Longrightarrow> P w) \<Longrightarrow> (\<And>r w. Q r w \<Longrightarrow> Q' r w) \<Longrightarrow> spec P' m Q'"
  by (auto simp: spec_def)

lemma spec_bindM:
  assumes "spec P m (\<lambda>r w. case r of Inl e \<Rightarrow> Q (Inl e) w | Inr x \<Rightarrow> R x w)"
    and "\<And>x. spec (R x) (f x) Q"
  shows "spec P (bindM m f) Q"
  using assms by (fastforce simp: spec_def bindM_def split: prod.splits sum.splits)

text \<open>\<open>gives Q m\<close>: whatever \<open>m\<close> returns satisfies \<open>Q\<close>, from every state.\<close>

definition gives :: "('a \<Rightarrow> bool) \<Rightarrow> ('w, 'a) M \<Rightarrow> bool" where
  "gives Q m \<longleftrightarrow> (\<forall>w x w'. m w = (Inr x, w') \<longrightarrow> Q x)"

named_theorems gives_intros \<open>how the values of routines are established\<close>

lemma givesD: "gives Q m \<Longrightarrow> m w = (Inr x, w') \<Longrightarrow> Q x"
  unfolding gives_def by blast

lemma gives_ret [gives_intros]: "Q x \<Longrightarrow> gives Q (ret x)"
  by (simp add: gives_def)

lemma gives_bindM_with: "gives R m \<Longrightarrow> (\<And>x. R x \<Longrightarrow> gives Q (f x)) \<Longrightarrow> gives Q (bindM m f)"
  unfolding gives_def bindM_eq_Inr by blast

lemma gives_bindM [gives_intros]: "(\<And>x. gives Q (f x)) \<Longrightarrow> gives Q (bindM m f)"
  unfolding gives_def bindM_eq_Inr by blast

lemma gives_thenM [gives_intros]: "gives Q k \<Longrightarrow> gives Q (thenM m k)"
  by (simp add: thenM_def gives_bindM)

lemma gives_if [gives_intros]: "gives Q m \<Longrightarrow> gives Q k \<Longrightarrow> gives Q (if b then m else k)"
  by simp

lemma gives_catchM [gives_intros]:
  assumes "gives Q m" and "\<And>e. gives Q (h e)"
  shows "gives Q (catchM m h)"
  unfolding gives_def
proof (intro allI impI)
  fix w x w' assume "catchM m h w = (Inr x, w')"
  then have "m w = (Inr x, w') \<or> (\<exists>e w1. h e w1 = (Inr x, w'))"
    by (auto simp: catchM_def split: prod.splits sum.splits fault.splits)
  with assms show "Q x" by (blast dest: givesD)
qed

lemma gives_case_option [gives_intros]:
  "gives Q m \<Longrightarrow> (\<And>y. gives Q (f y)) \<Longrightarrow> gives Q (case x of None \<Rightarrow> m | Some y \<Rightarrow> f y)"
  by (cases x) simp_all

section \<open>Lists\<close>

lemma takeWhile_dropWhile_neq:
  "dropWhile (\<lambda>c. c \<noteq> d) s = [] \<or> (\<exists>r. dropWhile (\<lambda>c. c \<noteq> d) s = d # r)"
proof (cases "dropWhile (\<lambda>c. c \<noteq> d) s")
  case Nil
  then show ?thesis by simp
next
  case (Cons x r)
  then have "x = d" using hd_dropWhile [of "\<lambda>c. c \<noteq> d" s] by force
  with Cons show ?thesis by simp
qed

lemma length_dropWhile_less: "dropWhile P s = x # r \<Longrightarrow> length r < length s"
  by (metis length_Cons length_dropWhile_le less_Suc_eq_le order_less_le_trans less_eq_Suc_le)

lemma list_all2_same_filter: "list_all2 (=) xs ys \<longleftrightarrow> xs = ys"
  by (simp add: list.rel_eq)

end
