(* ===== verification/Cpp_String.thy ===== *)
theory Cpp_String
  imports Prelude
begin

text \<open>
  The part of \<open>std::string\<close>, \<open>std::getline\<close> and \<open><cctype>\<close> that the sources use, and the string
  helpers of \<open>class Util\<close> (common/util.hpp): \<open>split_string\<close>, \<open>ltrim\<close>, \<open>rtrim\<close> and
  the upper-casing transform. A \<open>std::string\<close> is a list of bytes; \<open>npos\<close> is \<open>None\<close>.
\<close>

section \<open>The standard library\<close>

definition newline :: char where "newline = CHR 0x0A"

definition NUL :: char where "NUL = CHR 0x00"

text \<open>\<open>std::isspace\<close> in the C locale.\<close>

definition isspace :: "char \<Rightarrow> bool" where
  "isspace c \<longleftrightarrow> c \<in> {CHR '' '', CHR 0x09, CHR 0x0A, CHR 0x0B, CHR 0x0C, CHR 0x0D}"

definition isdigit :: "char \<Rightarrow> bool" where
  "isdigit c \<longleftrightarrow> 48 \<le> (of_char c :: nat) \<and> (of_char c :: nat) \<le> 57"

definition isalnum :: "char \<Rightarrow> bool" where
  "isalnum c \<longleftrightarrow> (let n = (of_char c :: nat) in
     48 \<le> n \<and> n \<le> 57 \<or> 65 \<le> n \<and> n \<le> 90 \<or> 97 \<le> n \<and> n \<le> 122)"

definition toupper :: "char \<Rightarrow> char" where
  "toupper c = (let n = (of_char c :: nat) in
     if 97 \<le> n \<and> n \<le> 122 then char_of (n - 32) else c)"

text \<open>\<open>s.find( p )\<close>: the first position where \<open>p\<close> occurs in \<open>s\<close>.\<close>

fun find_sub :: "string \<Rightarrow> string \<Rightarrow> nat option" where
  "find_sub p [] = (if p = [] then Some 0 else None)"
| "find_sub p (c # s) =
     (if take (length p) (c # s) = p then Some 0 else map_option Suc (find_sub p s))"

definition find_char :: "char \<Rightarrow> string \<Rightarrow> nat option" where
  "find_char c s = find_sub [c] s"

text \<open>\<open>s.substr( pos )\<close> and \<open>s.substr( pos, n )\<close> throw when \<open>pos\<close> is past the end.\<close>

definition substr :: "string \<Rightarrow> nat \<Rightarrow> fault + string" where
  "substr s pos = (if pos \<le> length s then Inr (drop pos s) else Inl (Throw Out_of_range))"

definition substr_n :: "string \<Rightarrow> nat \<Rightarrow> nat \<Rightarrow> fault + string" where
  "substr_n s pos n =
     (if pos \<le> length s then Inr (take n (drop pos s)) else Inl (Throw Out_of_range))"

text \<open>\<open>s.back()\<close> and \<open>s.pop_back()\<close> are undefined on an empty string.\<close>

definition str_back :: "string \<Rightarrow> fault + char" where
  "str_back s = (if s = [] then Inl (Undef OutOfBounds) else Inr (last s))"

definition pop_back :: "string \<Rightarrow> fault + string" where
  "pop_back s = (if s = [] then Inl (Undef OutOfBounds) else Inr (butlast s))"

text \<open>The text a C string function sees: everything before the first NUL.\<close>

definition c_str :: "string \<Rightarrow> string" where
  "c_str s = takeWhile (\<lambda>c. c \<noteq> NUL) s"

text \<open>The tokens of \<open>while ( std::getline( stream, token, d ) )\<close>.\<close>

function getlines :: "char \<Rightarrow> string \<Rightarrow> string list" where
  "getlines d s =
     (if s = [] then []
      else takeWhile (\<lambda>c. c \<noteq> d) s #
        (case dropWhile (\<lambda>c. c \<noteq> d) s of [] \<Rightarrow> [] | _ # r \<Rightarrow> getlines d r))"
  by pat_completeness auto
termination
  by (relation "measure (\<lambda>(d, s). length s)") (auto dest: length_dropWhile_less)

declare getlines.simps [simp del]

text \<open>\<open>std::to_string\<close> of an \<open>int\<close>.\<close>

fun nat_digits :: "nat \<Rightarrow> string" where
  "nat_digits n = (if n < 10 then [char_of (48 + n)]
     else nat_digits (n div 10) @ [char_of (48 + n mod 10)])"

declare nat_digits.simps [simp del]

definition to_string :: "int \<Rightarrow> string" where
  "to_string i = (if i < 0 then ''-'' @ nat_digits (nat (- i)) else nat_digits (nat i))"

section \<open>The string helpers of class Util\<close>

definition split_string :: "string \<Rightarrow> char \<Rightarrow> string list" where
  "split_string input_string delimiter =
     (if delimiter = CHR ''='' then
        (if input_string = [] then []
         else takeWhile (\<lambda>c. c \<noteq> delimiter) input_string #
           (case dropWhile (\<lambda>c. c \<noteq> delimiter) input_string of
              [] \<Rightarrow> []
            | _ # rest \<Rightarrow> getlines newline rest))
      else getlines delimiter input_string)"

definition ltrim :: "string \<Rightarrow> string" where
  "ltrim s = dropWhile isspace s"

definition rtrim :: "string \<Rightarrow> string" where
  "rtrim s = rev (dropWhile isspace (rev s))"

text \<open>\<open>std::transform( s.begin(), s.end(), s.begin(), toupper )\<close>.\<close>

definition upcase :: "string \<Rightarrow> string" where
  "upcase s = map toupper s"

lemma c_str_id: "NUL \<notin> set s \<Longrightarrow> c_str s = s"
  by (auto simp: c_str_def takeWhile_eq_all_conv)

lemma NUL_notin_c_str: "NUL \<notin> set (c_str s)"
  by (auto simp: c_str_def dest: set_takeWhileD)

lemma c_str_idem [simp]: "c_str (c_str s) = c_str s"
  by (rule c_str_id [OF NUL_notin_c_str])

section \<open>Facts about searching\<close>

lemma find_sub_Some:
  "find_sub p s = Some i \<Longrightarrow> i + length p \<le> length s \<and> take (length p) (drop i s) = p"
proof (induction p s arbitrary: i rule: find_sub.induct)
  case (1 p)
  then show ?case by (simp split: if_splits)
next
  case (2 p c s)
  show ?case
  proof (cases "take (length p) (c # s) = p")
    case True
    with "2.prems" have "i = 0" by simp
    moreover have "length p \<le> length (c # s)"
      using True by (metis length_take min.absorb_iff2 nat_le_linear)
    ultimately show ?thesis using True by simp
  next
    case False
    with "2.prems" obtain j where "find_sub p s = Some j" and "i = Suc j" by auto
    with "2.IH" [OF False] show ?thesis by simp
  qed
qed

lemma find_sub_decomp:
  assumes "find_sub p s = Some i"
  shows "s = take i s @ p @ drop (i + length p) s"
proof -
  have "take (length p) (drop i s) = p" using find_sub_Some [OF assms] by simp
  then have "drop i s = p @ drop (length p) (drop i s)"
    by (metis append_take_drop_id)
  then show ?thesis by (metis add.commute append_take_drop_id drop_drop)
qed

lemma find_sub_first: "find_sub p s = Some i \<Longrightarrow> j < i \<Longrightarrow> take (length p) (drop j s) \<noteq> p"
proof (induction p s arbitrary: i j rule: find_sub.induct)
  case (1 p)
  then show ?case by (simp split: if_splits)
next
  case (2 p c s)
  show ?case
  proof (cases "take (length p) (c # s) = p")
    case True
    with "2.prems" show ?thesis by simp
  next
    case False
    with "2.prems" obtain k where k: "find_sub p s = Some k" "i = Suc k" by auto
    show ?thesis
    proof (cases j)
      case 0
      with False show ?thesis by simp
    next
      case (Suc l)
      with k "2.prems" have "l < k" by simp
      with "2.IH" [OF False k(1)] Suc show ?thesis by simp
    qed
  qed
qed

lemma find_sub_None: "find_sub p s = None \<longleftrightarrow> (\<forall>a b. s \<noteq> a @ p @ b)"
proof
  show "find_sub p s = None \<Longrightarrow> \<forall>a b. s \<noteq> a @ p @ b"
  proof (induction p s rule: find_sub.induct)
    case (1 p)
    then show ?case by (simp split: if_splits)
  next
    case (2 p c s)
    then have nt: "take (length p) (c # s) \<noteq> p" and n: "find_sub p s = None"
      by (auto split: if_splits)
    with "2.IH" have IH: "\<forall>a b. s \<noteq> a @ p @ b" by simp
    show ?case
    proof (intro allI notI)
      fix a b assume eq: "c # s = a @ p @ b"
      show False
      proof (cases a)
        case Nil
        with eq nt show ?thesis by simp
      next
        case (Cons x a')
        with eq IH show ?thesis by simp
      qed
    qed
  qed
next
  assume "\<forall>a b. s \<noteq> a @ p @ b"
  then show "find_sub p s = None"
    using find_sub_decomp by (cases "find_sub p s") blast+
qed

lemma find_char_None [simp]: "find_char c s = None \<longleftrightarrow> c \<notin> set s"
  unfolding find_char_def find_sub_None by (auto simp: in_set_conv_decomp)

lemma find_char_Some:
  assumes "find_char c s = Some i"
  shows "i < length s" and "s ! i = c" and "c \<notin> set (take i s)"
proof -
  from find_sub_Some [OF assms [unfolded find_char_def]]
  have le: "i < length s" and t: "take 1 (drop i s) = [c]" by auto
  show "i < length s" by (rule le)
  show "s ! i = c" using le t by (simp add: Cons_nth_drop_Suc [symmetric])
  show "c \<notin> set (take i s)"
  proof
    assume "c \<in> set (take i s)"
    then obtain j where j: "j < i" "j < length s" "s ! j = c" by (auto simp: in_set_conv_nth)
    then have "take 1 (drop j s) = [c]" by (simp add: Cons_nth_drop_Suc [symmetric])
    with find_sub_first [OF assms [unfolded find_char_def] j(1)] show False by simp
  qed
qed

lemma find_char_append:
  assumes "c \<notin> set a"
  shows "find_char c (a @ c # b) = Some (length a)"
proof -
  obtain i where i: "find_char c (a @ c # b) = Some i"
    by (cases "find_char c (a @ c # b)") auto
  note f = find_char_Some [OF i]
  have "\<not> i < length a" using f(2) assms by (metis nth_append nth_mem)
  moreover have "\<not> length a < i" using f(3) by (auto simp: take_Cons' split: if_splits)
  ultimately show ?thesis using i by simp
qed

section \<open>Facts about tokens\<close>

lemma getlines_Nil [simp]: "getlines d [] = []"
  by (subst getlines.simps) simp

lemma getlines_end:
  "s \<noteq> [] \<Longrightarrow> dropWhile (\<lambda>c. c \<noteq> d) s = [] \<Longrightarrow> getlines d s = [takeWhile (\<lambda>c. c \<noteq> d) s]"
  by (subst getlines.simps) (simp only: if_False list.case simp_thms)

lemma getlines_step:
  "dropWhile (\<lambda>c. c \<noteq> d) s = x # r \<Longrightarrow>
   getlines d s = takeWhile (\<lambda>c. c \<noteq> d) s # getlines d r"
  by (subst getlines.simps) (cases s, simp_all)

lemma getlines_last: "d \<notin> set s \<Longrightarrow> s \<noteq> [] \<Longrightarrow> getlines d s = [s]"
proof -
  assume d: "d \<notin> set s" and s: "s \<noteq> []"
  have "takeWhile (\<lambda>c. c \<noteq> d) s = s" using d by (auto simp: takeWhile_eq_all_conv)
  moreover have "dropWhile (\<lambda>c. c \<noteq> d) s = []" using d by (auto simp: dropWhile_eq_Nil_conv)
  ultimately show ?thesis using getlines_end [OF s, of d] by (simp only:)
qed

lemma getlines_Cons: "d \<notin> set a \<Longrightarrow> getlines d (a @ d # b) = a # getlines d b"
proof -
  assume d: "d \<notin> set a"
  have "takeWhile (\<lambda>c. c \<noteq> d) (a @ d # b) = a" and "dropWhile (\<lambda>c. c \<noteq> d) (a @ d # b) = d # b"
    using d by (auto simp: takeWhile_append dropWhile_append)
  then show ?thesis by (subst getlines.simps) simp
qed

lemma getlines_no_delim: "t \<in> set (getlines d s) \<Longrightarrow> d \<notin> set t"
proof (induction d s rule: getlines.induct)
  case (1 d s)
  show ?case
  proof (cases "s = []")
    case True
    with "1.prems" show ?thesis by simp
  next
    case False
    have tw: "d \<notin> set (takeWhile (\<lambda>c. c \<noteq> d) s)" by (auto dest: set_takeWhileD)
    show ?thesis
    proof (cases "dropWhile (\<lambda>c. c \<noteq> d) s")
      case Nil
      with "1.prems" False tw show ?thesis by (subst (asm) getlines.simps) simp
    next
      case (Cons x r)
      then have "t = takeWhile (\<lambda>c. c \<noteq> d) s \<or> t \<in> set (getlines d r)"
        using "1.prems" False by (subst (asm) getlines.simps) simp
      with "1.IH" [OF False Cons] tw show ?thesis by blast
    qed
  qed
qed

lemma getlines_nonempty: "s \<noteq> [] \<Longrightarrow> getlines d s \<noteq> []"
  by (subst getlines.simps) simp

text \<open>Joining the tokens with the delimiter gives the text back, up to one trailing delimiter.\<close>

fun join :: "char \<Rightarrow> string list \<Rightarrow> string" where
  "join d [] = []"
| "join d [t] = t"
| "join d (t # ts) = t @ d # join d ts"

lemma join_Cons: "ts \<noteq> [] \<Longrightarrow> join d (t # ts) = t @ d # join d ts"
  by (cases ts) auto

lemma getlines_join: "join d (getlines d s) = s \<or> join d (getlines d s) @ [d] = s"
proof (induction d s rule: getlines.induct)
  case (1 d s)
  show ?case
  proof (cases "s = []")
    case True
    then show ?thesis by simp
  next
    case False
    let ?t = "takeWhile (\<lambda>c. c \<noteq> d) s"
    from takeWhile_dropWhile_neq [of d s] show ?thesis
    proof
      assume n: "dropWhile (\<lambda>c. c \<noteq> d) s = []"
      then have "?t = s" by (metis append_Nil2 takeWhile_dropWhile_id)
      with getlines_end [OF False n] show ?thesis by (simp only: join.simps simp_thms)
    next
      assume "\<exists>r. dropWhile (\<lambda>c. c \<noteq> d) s = d # r"
      then obtain r where r: "dropWhile (\<lambda>c. c \<noteq> d) s = d # r" by blast
      then have s: "s = ?t @ d # r" by (metis takeWhile_dropWhile_id)
      have g: "getlines d s = ?t # getlines d r" using False r by (subst getlines.simps) simp
      show ?thesis
      proof (cases "r = []")
        case True
        with g s show ?thesis by simp
      next
        case rne: False
        then have ne: "getlines d r \<noteq> []" by (rule getlines_nonempty)
        from "1.IH" [OF False r] g s ne show ?thesis
          by (auto simp: join_Cons)
      qed
    qed
  qed
qed

lemma getlines_of_join:
  "ts \<noteq> [] \<Longrightarrow> \<forall>t \<in> set ts. d \<notin> set t \<Longrightarrow> last ts \<noteq> [] \<Longrightarrow> getlines d (join d ts) = ts"
proof (induction d ts rule: join.induct)
  case (1 d)
  then show ?case by simp
next
  case (2 d t)
  then show ?case by (simp add: getlines_last)
next
  case (3 d t u ts)
  then show ?case by (simp add: getlines_Cons)
qed

section \<open>Facts about trimming and case\<close>

lemma rtrim_append: "rtrim (s @ t) = (if \<forall>c \<in> set t. isspace c then rtrim s else s @ rtrim t)"
  by (auto simp: rtrim_def dropWhile_append dropWhile_eq_Nil_conv)

lemma rtrim_idem [simp]: "rtrim (rtrim s) = rtrim s"
  by (simp add: rtrim_def dropWhile_idem)

lemma ltrim_idem [simp]: "ltrim (ltrim s) = ltrim s"
  by (simp add: ltrim_def dropWhile_idem)

lemma ltrim_suffix: "\<exists>a. s = a @ ltrim s \<and> (\<forall>c \<in> set a. isspace c)"
  by (metis ltrim_def set_takeWhileD takeWhile_dropWhile_id)

lemma rtrim_prefix: "\<exists>b. s = rtrim s @ b \<and> (\<forall>c \<in> set b. isspace c)"
proof -
  from ltrim_suffix [of "rev s"] obtain a where
    a: "rev s = a @ ltrim (rev s)" "\<forall>c \<in> set a. isspace c" by blast
  then have "s = rev (ltrim (rev s)) @ rev a" by (metis rev_append rev_rev_ident)
  with a(2) show ?thesis by (auto simp: rtrim_def ltrim_def)
qed

lemma rtrim_last: "rtrim s \<noteq> [] \<Longrightarrow> \<not> isspace (last (rtrim s))"
  by (simp add: rtrim_def last_rev hd_dropWhile)

lemma ltrim_hd: "ltrim s \<noteq> [] \<Longrightarrow> \<not> isspace (hd (ltrim s))"
  by (simp add: ltrim_def hd_dropWhile)

lemma toupper_idem [simp]: "toupper (toupper c) = toupper c"
  by (auto simp: toupper_def Let_def of_char_of)

lemma upcase_idem [simp]: "upcase (upcase s) = upcase s"
  by (simp add: upcase_def)

lemma length_upcase [simp]: "length (upcase s) = length s"
  by (simp add: upcase_def)

lemma upcase_append [simp]: "upcase (s @ t) = upcase s @ upcase t"
  by (simp add: upcase_def)

lemma toupper_NUL [simp]: "toupper c = NUL \<longleftrightarrow> c = NUL"
proof (cases "97 \<le> (of_char c :: nat) \<and> (of_char c :: nat) \<le> 122")
  case True
  let ?n = "of_char c :: nat"
  have "?n - 32 < 256" using True by linarith
  then have m: "of_char (char_of (?n - 32) :: char) = ?n - 32" by simp
  have z: "of_char NUL = (0 :: nat)" by (simp add: NUL_def)
  have "char_of (?n - 32) \<noteq> NUL"
  proof
    assume "char_of (?n - 32) = NUL"
    with m z have "?n - 32 = 0" by metis
    with True show False by linarith
  qed
  moreover have "c \<noteq> NUL" using True z by auto
  ultimately show ?thesis using True by (simp add: toupper_def Let_def)
next
  case False
  then show ?thesis by (auto simp: toupper_def Let_def)
qed

lemma NUL_upcase: "NUL \<notin> set s \<Longrightarrow> NUL \<notin> set (upcase s)"
  by (metis (no_types, lifting) imageE list.set_map toupper_NUL upcase_def)

end
