(* ===== verification/Filesystem.thy ===== *)
theory Filesystem
  imports Cpp_String "HOL-Library.AList" "HOL-Library.Sublist"
begin

text \<open>
  The file system as the sources use it through \<open>std::filesystem\<close>, \<open>lstat\<close>, \<open>opendir\<close>, \<open>ifstream\<close>
  and \<open>ofstream\<close>: a finite table from locations (the names on the way from the root) to inodes,
  and path strings that are walked component by component, so that \<open>..\<close> goes up. Symbolic links
  and the permissions of the daemon itself are not modelled. Directory order is the table's order.
\<close>

section \<open>Inodes and locations\<close>

datatype node = Dir | Reg string

record inode =
  ikind :: node
  st_uid :: nat
  st_gid :: nat
  st_mode :: nat

type_synonym loc = "string list"

type_synonym fs = "(loc \<times> inode) list"

definition new_dir :: inode where
  "new_dir = \<lparr>ikind = Dir, st_uid = 0, st_gid = 0, st_mode = 493\<rparr>"

definition new_file :: "string \<Rightarrow> inode" where
  "new_file c = \<lparr>ikind = Reg c, st_uid = 0, st_gid = 0, st_mode = 420\<rparr>"

definition fs_lookup :: "fs \<Rightarrow> loc \<Rightarrow> inode option" where
  "fs_lookup F l = (if l = [] then Some new_dir else map_of F l)"

definition is_dir_at :: "fs \<Rightarrow> loc \<Rightarrow> bool" where
  "is_dir_at F l = (case fs_lookup F l of Some i \<Rightarrow> ikind i = Dir | None \<Rightarrow> False)"

definition is_reg_at :: "fs \<Rightarrow> loc \<Rightarrow> bool" where
  "is_reg_at F l = (case fs_lookup F l of Some i \<Rightarrow> ikind i \<noteq> Dir | None \<Rightarrow> False)"

section \<open>Paths\<close>

definition components :: "string \<Rightarrow> string list" where
  "components p = filter (\<lambda>c. c \<noteq> [] \<and> c \<noteq> ''.'') (getlines CHR ''/'' (c_str p))"

fun walk :: "fs \<Rightarrow> loc \<Rightarrow> string list \<Rightarrow> loc option" where
  "walk F cur [] = Some cur"
| "walk F cur (c # cs) =
     (if \<not> is_dir_at F cur then None
      else if c = ''..'' then walk F (butlast cur) cs
      else walk F (cur @ [c]) cs)"

definition resolve :: "fs \<Rightarrow> string \<Rightarrow> loc option" where
  "resolve F p = (if c_str p = [] then None else walk F [] (components p))"

text \<open>\<open>std::filesystem::exists\<close> and the inode \<open>lstat\<close> reads.\<close>

definition fs_stat :: "fs \<Rightarrow> string \<Rightarrow> inode option" where
  "fs_stat F p = (case resolve F p of None \<Rightarrow> None | Some l \<Rightarrow> fs_lookup F l)"

definition fs_exists :: "fs \<Rightarrow> string \<Rightarrow> bool" where
  "fs_exists F p = (fs_stat F p \<noteq> None)"

section \<open>Operations\<close>

definition fs_put :: "loc \<Rightarrow> inode \<Rightarrow> fs \<Rightarrow> fs" where
  "fs_put l i F = AList.update l i F"

text \<open>\<open>std::filesystem::create_directories\<close>: every missing component becomes a directory; a
  component that is a file is an error.\<close>

fun mkdirs :: "fs \<Rightarrow> loc \<Rightarrow> string list \<Rightarrow> fs option" where
  "mkdirs F cur [] = Some F"
| "mkdirs F cur (c # cs) =
     (if c = ''..'' then mkdirs F (butlast cur) cs
      else case fs_lookup F (cur @ [c]) of
        None \<Rightarrow> mkdirs (fs_put (cur @ [c]) new_dir F) (cur @ [c]) cs
      | Some i \<Rightarrow> if ikind i = Dir then mkdirs F (cur @ [c]) cs else None)"

definition create_directories :: "string \<Rightarrow> fs \<Rightarrow> fault + fs" where
  "create_directories p F =
     (if c_str p = [] then Inl (Throw (Fs_error p))
      else case mkdirs F [] (components p) of
        None \<Rightarrow> Inl (Throw (Fs_error p))
      | Some F' \<Rightarrow> Inr F')"

text \<open>\<open>std::filesystem::remove_all\<close>: the node and everything below it; nothing when there is none.\<close>

definition remove_below :: "loc \<Rightarrow> fs \<Rightarrow> fs" where
  "remove_below l F = filter (\<lambda>(k, _). \<not> prefix l k) F"

definition remove_all :: "string \<Rightarrow> fs \<Rightarrow> fs" where
  "remove_all p F = (case resolve F p of None \<Rightarrow> F | Some l \<Rightarrow> remove_below l F)"

text \<open>Opening an \<open>ofstream\<close> truncates or creates the file; \<open>None\<close> when the stream does not open.\<close>

definition write_file :: "string \<Rightarrow> string \<Rightarrow> fs \<Rightarrow> fs option" where
  "write_file p c F =
     (case resolve F p of
        None \<Rightarrow> None
      | Some l \<Rightarrow>
          if l = [] \<or> \<not> is_dir_at F (butlast l) then None
          else case fs_lookup F l of
            None \<Rightarrow> Some (fs_put l (new_file c) F)
          | Some i \<Rightarrow> if ikind i = Dir then None else Some (fs_put l (i\<lparr>ikind := Reg c\<rparr>) F))"

definition read_file :: "string \<Rightarrow> fs \<Rightarrow> string option" where
  "read_file p F =
     (case fs_stat F p of
        Some i \<Rightarrow> (case ikind i of Reg c \<Rightarrow> Some c | Dir \<Rightarrow> None)
      | None \<Rightarrow> None)"

definition chmod :: "string \<Rightarrow> nat \<Rightarrow> fs \<Rightarrow> fs" where
  "chmod p m F =
     (case resolve F p of
        None \<Rightarrow> F
      | Some l \<Rightarrow> (case map_of F l of None \<Rightarrow> F | Some i \<Rightarrow> fs_put l (i\<lparr>st_mode := m\<rparr>) F))"

text \<open>\<open>opendir\<close> and \<open>readdir\<close>: the names in a directory, \<open>None\<close> when it cannot be opened.\<close>

definition children :: "loc \<Rightarrow> fs \<Rightarrow> string list" where
  "children l F = map (\<lambda>(k, _). last k) (filter (\<lambda>(k, _). k \<noteq> [] \<and> butlast k = l) F)"

definition read_dir :: "string \<Rightarrow> fs \<Rightarrow> string list option" where
  "read_dir p F =
     (case resolve F p of
        None \<Rightarrow> None
      | Some l \<Rightarrow> if is_dir_at F l then Some (''.'' # ''..'' # children l F) else None)"

text \<open>
  \<open>recursive_directory_iterator( p )\<close> filtered by \<open>is_regular_file\<close>: for every file below \<open>p\<close> its
  \<open>path.parent_path().string()\<close> and \<open>path.filename().string()\<close>. The constructor throws when \<open>p\<close>
  is not a directory.
\<close>

fun path_append :: "string \<Rightarrow> string list \<Rightarrow> string" where
  "path_append p [] = p"
| "path_append p (c # cs) = path_append (p @ ''/'' @ c) cs"

definition files_below :: "string \<Rightarrow> fs \<Rightarrow> fault + (string \<times> string) list" where
  "files_below p F =
     (case resolve F p of
        None \<Rightarrow> Inl (Throw (Fs_error p))
      | Some l \<Rightarrow>
          if is_dir_at F l then
            Inr (map (\<lambda>(k, _). (path_append p (drop (length l) (butlast k)), last k))
                   (filter (\<lambda>(k, i). strict_prefix l k \<and> ikind i \<noteq> Dir) F))
          else Inl (Throw (Fs_error p)))"

section \<open>Well-formed file systems\<close>

text \<open>Every inode but the root's sits in a directory, and no location is listed twice.\<close>

definition wf_fs :: "fs \<Rightarrow> bool" where
  "wf_fs F \<longleftrightarrow> distinct (map fst F) \<and>
     (\<forall>l \<in> fst ` set F. l \<noteq> [] \<and> is_dir_at F (butlast l))"

lemma wf_fs_Nil [simp]: "wf_fs []"
  by (simp add: wf_fs_def)

lemma fs_lookup_put: "l \<noteq> [] \<Longrightarrow> fs_lookup (fs_put l i F) k = (if k = l then Some i else fs_lookup F k)"
  by (simp add: fs_lookup_def fs_put_def update_conv')

lemma dom_fs_put: "fst ` set (fs_put l i F) = insert l (fst ` set F)"
  by (simp add: fs_put_def dom_update)

lemma is_dir_root [simp]: "is_dir_at F []"
  by (simp add: is_dir_at_def fs_lookup_def new_dir_def)

lemma is_dir_at_put:
  "l \<noteq> [] \<Longrightarrow> is_dir_at (fs_put l i F) k = (if k = l then ikind i = Dir else is_dir_at F k)"
  by (simp add: is_dir_at_def fs_lookup_put)

lemma fs_lookup_in: "fs_lookup F l = Some i \<Longrightarrow> l \<noteq> [] \<Longrightarrow> l \<in> fst ` set F"
  by (auto simp: fs_lookup_def dest!: map_of_SomeD intro: rev_image_eqI)

lemma in_fs_lookup: "l \<in> fst ` set F \<Longrightarrow> \<exists>i. fs_lookup F l = Some i"
  by (cases "l = []") (auto simp: fs_lookup_def weak_map_of_SomeI)

lemma wf_fs_put:
  assumes "wf_fs F" and "l \<noteq> []" and "is_dir_at F (butlast l)"
    and "is_dir_at F l \<Longrightarrow> ikind i = Dir"
  shows "wf_fs (fs_put l i F)"
proof -
  have mono: "is_dir_at (fs_put l i F) k" if "is_dir_at F k" for k
    using that assms(2,4) by (auto simp: is_dir_at_put)
  have d: "distinct (map fst (fs_put l i F))"
    using assms(1) by (simp add: wf_fs_def fs_put_def distinct_update)
  show ?thesis
    using assms(1-3) mono d by (auto simp: wf_fs_def dom_fs_put)
qed

lemma walk_app: "walk F cur (cs @ ds) = (case walk F cur cs of None \<Rightarrow> None | Some l \<Rightarrow> walk F l ds)"
  by (induction F cur cs rule: walk.induct) auto

lemma walk_plain:
  "\<forall>c \<in> set cs. c \<noteq> ''..'' \<Longrightarrow> walk F cur cs = Some l \<Longrightarrow> l = cur @ cs"
  by (induction F cur cs rule: walk.induct) (auto split: if_splits)

lemma mkdirs_wf:
  "mkdirs F cur cs = Some F' \<Longrightarrow> wf_fs F \<Longrightarrow> is_dir_at F cur \<Longrightarrow> wf_fs F'"
proof (induction F cur cs arbitrary: F' rule: mkdirs.induct)
  case (1 F cur)
  then show ?case by simp
next
  case (2 F cur c cs)
  have up: "is_dir_at F (butlast cur)"
  proof (cases "cur = []")
    case True
    then show ?thesis by simp
  next
    case False
    with "2.prems"(3) have "cur \<in> fst ` set F"
      by (auto simp: is_dir_at_def split: option.splits dest: fs_lookup_in)
    with "2.prems"(2) show ?thesis unfolding wf_fs_def by blast
  qed
  show ?case
  proof (cases "c = ''..''")
    case True
    with "2.prems" up "2.IH"(1) show ?thesis by simp
  next
    case False
    show ?thesis
    proof (cases "fs_lookup F (cur @ [c])")
      case None
      let ?F = "fs_put (cur @ [c]) new_dir F"
      have "wf_fs ?F" using "2.prems"(2,3) by (intro wf_fs_put) (auto simp: new_dir_def)
      moreover have "is_dir_at ?F (cur @ [c])" by (simp add: is_dir_at_put new_dir_def)
      ultimately show ?thesis using "2.IH"(2) [OF False None] "2.prems"(1) False None by simp
    next
      case (Some i)
      with "2.prems"(1) False have "ikind i = Dir" by (simp split: if_splits)
      moreover from this Some have "is_dir_at F (cur @ [c])" by (simp add: is_dir_at_def)
      ultimately show ?thesis using "2.IH"(3) [OF False Some] "2.prems" False Some by simp
    qed
  qed
qed

lemma mkdirs_mono: "mkdirs F cur cs = Some F' \<Longrightarrow> fs_lookup F l = Some i \<Longrightarrow> fs_lookup F' l = Some i"
proof (induction F cur cs arbitrary: F' rule: mkdirs.induct)
  case (2 F cur c cs)
  show ?case
  proof (cases "fs_lookup F (cur @ [c])")
    case None
    with "2.prems"(2) have "fs_lookup (fs_put (cur @ [c]) new_dir F) l = Some i"
      by (auto simp: fs_lookup_put)
    with "2" None show ?thesis by (auto split: if_splits)
  next
    case Some
    with "2" show ?thesis by (auto split: if_splits)
  qed
qed simp

lemma mkdirs_walk:
  "mkdirs F cur cs = Some F' \<Longrightarrow> is_dir_at F cur \<Longrightarrow> \<forall>c \<in> set cs. c \<noteq> ''..'' \<Longrightarrow>
   walk F' cur cs = Some (cur @ cs) \<and> is_dir_at F' (cur @ cs)"
proof (induction F cur cs arbitrary: F' rule: mkdirs.induct)
  case (2 F cur c cs)
  from "2.prems" have c: "c \<noteq> ''..''" by simp
  have cur: "is_dir_at F' cur"
    using "2.prems"(2) mkdirs_mono [OF "2.prems"(1)] by (auto simp: is_dir_at_def split: option.splits)
  have "walk F' (cur @ [c]) cs = Some ((cur @ [c]) @ cs) \<and> is_dir_at F' ((cur @ [c]) @ cs)"
  proof (cases "fs_lookup F (cur @ [c])")
    case None
    have "is_dir_at (fs_put (cur @ [c]) new_dir F) (cur @ [c])"
      by (simp add: is_dir_at_put new_dir_def)
    with "2.IH"(2) [OF c None] "2.prems" c None show ?thesis by simp
  next
    case (Some i)
    with "2.prems"(1) c have "ikind i = Dir" by (simp split: if_splits)
    moreover from this Some have "is_dir_at F (cur @ [c])" by (simp add: is_dir_at_def)
    ultimately show ?thesis using "2.IH"(3) [OF c Some] "2.prems" c Some by simp
  qed
  with cur c show ?case by simp
qed simp

section \<open>What the operations keep and change\<close>

lemma create_directories_wf:
  "create_directories p F = Inr F' \<Longrightarrow> wf_fs F \<Longrightarrow> wf_fs F'"
  by (auto simp: create_directories_def split: if_splits option.splits intro: mkdirs_wf)

lemma create_directories_mono:
  "create_directories p F = Inr F' \<Longrightarrow> fs_lookup F l = Some i \<Longrightarrow> fs_lookup F' l = Some i"
  by (auto simp: create_directories_def split: if_splits option.splits intro: mkdirs_mono)

lemma create_directories_exists:
  assumes "create_directories p F = Inr F'" and "''..'' \<notin> set (components p)"
  shows "resolve F' p = Some (components p)" and "is_dir_at F' (components p)"
    and "fs_exists F' p"
proof -
  from assms(1) have m: "mkdirs F [] (components p) = Some F'" and c: "c_str p \<noteq> []"
    by (auto simp: create_directories_def split: if_splits option.splits)
  from mkdirs_walk [OF m] assms(2)
  have w: "walk F' [] (components p) = Some (components p)" and d: "is_dir_at F' (components p)"
    by auto
  from w c show r: "resolve F' p = Some (components p)" by (simp add: resolve_def)
  show "is_dir_at F' (components p)" by (rule d)
  with r show "fs_exists F' p"
    by (auto simp: fs_exists_def fs_stat_def is_dir_at_def split: option.splits)
qed

lemma fs_lookup_remove_below:
  "l \<noteq> [] \<Longrightarrow> fs_lookup (remove_below l F) k = (if prefix l k then None else fs_lookup F k)"
proof -
  assume l: "l \<noteq> []"
  have "map_of (filter (\<lambda>(k, _). \<not> prefix l k) F) k = (if prefix l k then None else map_of F k)"
    by (induction F) auto
  with l show ?thesis by (auto simp: fs_lookup_def remove_below_def)
qed

lemma remove_below_wf: "wf_fs F \<Longrightarrow> l \<noteq> [] \<Longrightarrow> wf_fs (remove_below l F)"
proof -
  assume wf: "wf_fs F" and l: "l \<noteq> []"
  have "distinct (map fst (remove_below l F))"
    using wf by (simp add: wf_fs_def remove_below_def distinct_map_filter)
  moreover have "k \<noteq> [] \<and> is_dir_at (remove_below l F) (butlast k)"
    if "k \<in> fst ` set (remove_below l F)" for k
  proof -
    from that have k: "k \<in> fst ` set F" and np: "\<not> prefix l k"
      by (auto simp: remove_below_def)
    from wf k have "k \<noteq> []" and d: "is_dir_at F (butlast k)" by (auto simp: wf_fs_def)
    moreover have "\<not> prefix l (butlast k)"
      using np by (metis prefixeq_butlast prefix_order.trans)
    ultimately show ?thesis using l by (simp add: is_dir_at_def fs_lookup_remove_below)
  qed
  ultimately show ?thesis by (simp add: wf_fs_def)
qed

lemma remove_all_gone: "resolve F p = Some l \<Longrightarrow> l \<noteq> [] \<Longrightarrow> prefix l k \<Longrightarrow> fs_lookup (remove_all p F) k = None"
  by (simp add: remove_all_def fs_lookup_remove_below)

lemma remove_all_frame:
  "resolve F p = Some l \<Longrightarrow> l \<noteq> [] \<Longrightarrow> \<not> prefix l k \<Longrightarrow> fs_lookup (remove_all p F) k = fs_lookup F k"
  by (simp add: remove_all_def fs_lookup_remove_below)

lemma write_file_frame:
  assumes "write_file p c F = Some F'" and "resolve F p = Some l" and "k \<noteq> l"
  shows "fs_lookup F' k = fs_lookup F k"
  using assms by (auto simp: write_file_def fs_lookup_put split: if_splits option.splits)

lemma write_file_read:
  assumes "write_file p c F = Some F'" and "resolve F' p = resolve F p"
  shows "read_file p F' = Some c"
  using assms
  by (auto simp: write_file_def read_file_def fs_stat_def fs_lookup_put new_file_def
      split: if_splits option.splits)

lemma write_file_wf: "write_file p c F = Some F' \<Longrightarrow> wf_fs F \<Longrightarrow> wf_fs F'"
  by (auto simp: write_file_def is_dir_at_def split: if_splits option.splits intro!: wf_fs_put)

end
