(* ===== verification/Kinit.thy ===== *)
theory Kinit
  imports Cpp_String
begin

text \<open>
  The in-process Kerberos client, auth/kinit_client/kinit.c and kinit_kdb.c: \<open>k5_begin\<close>,
  \<open>k5_kinit\<close>, \<open>kinit_prompter\<close>, \<open>k5_end\<close>, \<open>kinit_kdb_init\<close> and \<open>my_kinit_main\<close>, over a Kerberos
  library that is a parameter: a function from the calls made so far and the next call to its
  answer. A pointer is an optional handle, \<open>None\<close> for NULL; the routines' local variables that a
  \<open>goto cleanup\<close> can see are fields of the state.
\<close>

section \<open>The library interface\<close>

datatype kcall =
    Init_context | Free_context
  | Cc_resolve string | Cc_default | Cc_get_type nat | Cc_get_principal nat | Cc_get_name nat
  | Cc_support_switch string | Cc_cache_match nat | Cc_new_unique string | Cc_close nat
  | Cc_initialize nat nat | Cc_store_primary nat | Cc_move nat nat | Cc_switch nat | Cc_destroy nat
  | Parse_name string bool | Unparse_name nat | Free_unparsed nat | Free_principal nat
  | Get_default_realm | Build_anonymous string | Free_realm string | Sname_to_principal
  | Kt_client_default | Kt_resolve string | Kt_get_principal nat | Kt_close nat
  | Get_name_from_os
  | Opt_alloc | Opt_free | Opt_int string int | Opt_addresses bool | Os_localaddr
  | Opt_armor string | Opt_set_pa string string | Opt_in_ccache nat | Opt_out_ccache nat
  | Init_creds_password nat "string option" int | Init_creds_keytab nat "nat option" int
  | Validated_creds nat nat | Renewed_creds nat nat | Free_cred_contents
  | Kadm5_init_context | Kadm5_init string | Db_register_keytab | Kadm5_destroy
  | Com_err int string

text \<open>
  An answer: the error code (0 for success), the handle or the string produced, and, for the call
  that may call \<open>kinit_prompter\<close> back, the prompts it passes: for each, whether it asks for the
  password and the capacity of its reply buffer.
\<close>

record kresp =
  kcode :: int
  khandle :: nat
  kstr :: string
  kprompts :: "(bool \<times> nat) list"

type_synonym krb5 = "kcall list \<Rightarrow> kcall \<Rightarrow> kresp"

definition KRB5_CC_NOTFOUND :: int where "KRB5_CC_NOTFOUND = -1765328243"
definition KRB5KRB_AP_ERR_BAD_INTEGRITY :: int where "KRB5KRB_AP_ERR_BAD_INTEGRITY = -1765328353"
definition KRB5KDC_ERR_PREAUTH_FAILED :: int where "KRB5KDC_ERR_PREAUTH_FAILED = -1765328360"

section \<open>State\<close>

datatype action_type = INIT_PW | INIT_KT | RENEW | VALIDATE

record k_opts =
  starttime :: int
  lifetime :: int
  rlife :: int
  forwardable :: bool
  proxiable :: bool
  request_pac :: bool
  anonymous :: bool
  addresses :: bool
  not_forwardable :: bool
  not_proxiable :: bool
  not_request_pac :: bool
  no_addresses :: bool
  verbose :: bool
  principal_name :: "string option"
  service_name :: "string option"
  keytab_name :: "string option"
  k5_in_cache_name :: "string option"
  k5_out_cache_name :: "string option"
  armor_ccache :: "string option"
  action :: action_type
  use_client_keytab :: bool
  pa_opts :: "(string \<times> string) list"
  canonicalize :: bool
  enterprise :: bool

record k5_data =
  ctx :: bool
  in_cc :: "nat option"
  out_cc :: "nat option"
  me :: "nat option"
  k5name :: "(nat \<times> string) option"
  switch_to_cache :: bool

text \<open>The two 256-byte buffers of \<open>struct userdata\<close>.\<close>

record userdata =
  udname :: string
  udpass :: string

text \<open>The whole state: the library's call history (newest first), \<open>opts\<close>, \<open>k5\<close>, the globals
  \<open>udata\<close> and \<open>errctx\<close>, and the locals of \<open>k5_begin\<close> and \<open>k5_kinit\<close>.\<close>

record kst =
  calls :: "kcall list"
  opts :: k_opts
  k5 :: k5_data
  udata :: userdata
  errctx :: bool
  defcache :: "nat option"
  defcache_princ :: "nat option"
  deftype :: string
  notix :: bool
  keytab :: "nat option"
  cred_client :: "nat option"
  have_options :: bool
  pwprompt :: bool
  mcc :: "nat option"

type_synonym 'a KM = "(kst, 'a) M"

definition kcallM :: "krb5 \<Rightarrow> kcall \<Rightarrow> kresp KM" where
  "kcallM K c = (\<lambda>s. (Inr (K (calls s) c), s\<lparr>calls := c # calls s\<rparr>))"

definition com_err :: "krb5 \<Rightarrow> int \<Rightarrow> string \<Rightarrow> unit KM" where
  "com_err K code msg = bindM (kcallM K (Com_err code msg)) (\<lambda>_. ret ())"

abbreviation set_k5 :: "(k5_data \<Rightarrow> k5_data) \<Rightarrow> unit KM" where
  "set_k5 f \<equiv> modM (\<lambda>s. s\<lparr>k5 := f (k5 s)\<rparr>)"

text \<open>Stages of a routine: each says whether to go on or to jump to \<open>cleanup\<close>.\<close>

definition stage :: "bool KM \<Rightarrow> bool KM \<Rightarrow> bool KM" where
  "stage m k = bindM m (\<lambda>go. if go then k else ret False)"

text \<open>One library call whose failure is reported and leads to \<open>cleanup\<close>.\<close>

definition try_call :: "krb5 \<Rightarrow> kcall \<Rightarrow> string \<Rightarrow> (kresp \<Rightarrow> unit KM) \<Rightarrow> bool KM" where
  "try_call K c msg f =
     bindM (kcallM K c) (\<lambda>r.
       if kcode r \<noteq> 0 then thenM (com_err K (kcode r) msg) (ret False)
       else thenM (f r) (ret True))"

section \<open>k5_begin\<close>

definition begin_out_cache :: "krb5 \<Rightarrow> bool KM" where
  "begin_out_cache K =
     bindM (getM (k5_out_cache_name \<circ> opts)) (\<lambda>oc. case oc of
       Some n \<Rightarrow> try_call K (Cc_resolve n) ''resolving ccache''
                  (\<lambda>r. set_k5 (out_cc_update (\<lambda>_. Some (khandle r))))
     | None \<Rightarrow>
         stage (try_call K Cc_default ''while getting default ccache''
                  (\<lambda>r. modM (defcache_update (\<lambda>_. Some (khandle r)))))
           (bindM (getM defcache) (\<lambda>d. case d of None \<Rightarrow> ret True | Some h \<Rightarrow>
             bindM (kcallM K (Cc_get_type h)) (\<lambda>t.
             thenM (modM (deftype_update (\<lambda>_. kstr t)))
             (bindM (kcallM K (Cc_get_principal h)) (\<lambda>p.
             thenM (modM (defcache_princ_update
                      (\<lambda>_. if kcode p \<noteq> 0 then None else Some (khandle p))))
             (ret True)))))))"

definition begin_principal :: "krb5 \<Rightarrow> bool KM" where
  "begin_principal K =
     bindM (getM (\<lambda>s. s)) (\<lambda>s. let o1 = opts s in
       case principal_name o1 of
         Some n \<Rightarrow> try_call K (Parse_name n (enterprise o1)) ''when parsing name''
                    (\<lambda>r. set_k5 (me_update (\<lambda>_. Some (khandle r))))
       | None \<Rightarrow>
         if anonymous o1 then
           bindM (kcallM K Get_default_realm) (\<lambda>r.
             if kcode r \<noteq> 0 then
               thenM (com_err K (kcode r) ''while getting default realm'') (ret False)
             else bindM (kcallM K (Build_anonymous (kstr r))) (\<lambda>b.
               bindM (kcallM K (Free_realm (kstr r))) (\<lambda>_.
                 if kcode b \<noteq> 0 then
                   thenM (com_err K (kcode b) ''while building principal'') (ret False)
                 else thenM (set_k5 (me_update (\<lambda>_. Some (khandle b)))) (ret True))))
         else if action o1 = INIT_KT \<and> use_client_keytab o1 then
           bindM (kcallM K Kt_client_default) (\<lambda>r.
             if kcode r \<noteq> 0 then
               thenM (com_err K (kcode r) ''When resolving the default client keytab'') (ret False)
             else bindM (kcallM K (Kt_get_principal (khandle r))) (\<lambda>p.
               bindM (kcallM K (Kt_close (khandle r))) (\<lambda>_.
                 if kcode p \<noteq> 0 then
                   thenM (com_err K (kcode p)
                     ''When determining client principal name from keytab'') (ret False)
                 else thenM (set_k5 (me_update (\<lambda>_. Some (khandle p)))) (ret True))))
         else if action o1 = INIT_KT then
           try_call K Sname_to_principal ''when creating default server principal name''
             (\<lambda>r. set_k5 (me_update (\<lambda>_. Some (khandle r))))
         else case out_cc (k5 s) of
           Some h \<Rightarrow> bindM (kcallM K (Cc_get_principal h)) (\<lambda>p.
             thenM (whenM (kcode p = 0) (set_k5 (me_update (\<lambda>_. Some (khandle p))))) (ret True))
         | None \<Rightarrow>
             (case defcache_princ s of
                None \<Rightarrow> ret True
              | Some p \<Rightarrow>
                  thenM (set_k5 (out_cc_update (\<lambda>_. defcache s)))
                 (thenM (modM (defcache_update (\<lambda>_. None)))
                 (thenM (set_k5 (me_update (\<lambda>_. Some p)))
                 (thenM (modM (defcache_princ_update (\<lambda>_. None))) (ret True))))))"

definition begin_os_name :: "krb5 \<Rightarrow> bool KM" where
  "begin_os_name K =
     bindM (getM (\<lambda>s. s)) (\<lambda>s.
       if me (k5 s) \<noteq> None then ret True
       else bindM (kcallM K Get_name_from_os) (\<lambda>n.
         if kcode n \<noteq> 0 then ret False
         else try_call K (Parse_name (kstr n) (enterprise (opts s))) ''when parsing name''
                (\<lambda>r. set_k5 (me_update (\<lambda>_. Some (khandle r))))))"

definition begin_match_cache :: "krb5 \<Rightarrow> bool KM" where
  "begin_match_cache K =
     bindM (getM (\<lambda>s. s)) (\<lambda>s.
       if out_cc (k5 s) \<noteq> None then ret True
       else bindM (kcallM K (Cc_support_switch (deftype s))) (\<lambda>sw.
         if kcode sw = 0 then ret True
         else bindM (kcallM K (Cc_cache_match (case me (k5 s) of Some p \<Rightarrow> p | None \<Rightarrow> 0))) (\<lambda>m.
           if kcode m \<noteq> 0 \<and> kcode m \<noteq> KRB5_CC_NOTFOUND then
             thenM (com_err K (kcode m) ''while searching for ccache'') (ret False)
           else if kcode m = 0 then
             thenM (set_k5 (out_cc_update (\<lambda>_. Some (khandle m))))
            (thenM (whenM (verbose (opts s)) (thenM (bindM (kcallM K (Cc_get_name (khandle m))) (\<lambda>_. ret ())) (ret ())))
            (thenM (set_k5 (switch_to_cache_update (\<lambda>_. True))) (ret True)))
           else if defcache_princ s \<noteq> None then
             stage (try_call K (Cc_new_unique (deftype s)) ''while generating new ccache''
                      (\<lambda>r. set_k5 (out_cc_update (\<lambda>_. Some (khandle r)))))
               (thenM (set_k5 (switch_to_cache_update (\<lambda>_. True))) (ret True))
           else ret True)))"

definition begin_default_cache :: "bool KM" where
  "begin_default_cache =
     bindM (getM (\<lambda>s. s)) (\<lambda>s.
       if out_cc (k5 s) \<noteq> None then ret True
       else thenM (set_k5 (out_cc_update (\<lambda>_. defcache s)))
           (thenM (modM (defcache_update (\<lambda>_. None))) (ret True)))"

definition begin_in_cache :: "krb5 \<Rightarrow> bool KM" where
  "begin_in_cache K =
     bindM (getM (k5_in_cache_name \<circ> opts)) (\<lambda>ic. case ic of
       None \<Rightarrow> ret True
     | Some n \<Rightarrow> try_call K (Cc_resolve n) ''resolving ccache''
                  (\<lambda>r. set_k5 (in_cc_update (\<lambda>_. Some (khandle r)))))"

definition begin_unparse :: "krb5 \<Rightarrow> bool KM" where
  "begin_unparse K =
     bindM (getM (\<lambda>s. s)) (\<lambda>s.
       try_call K (Unparse_name (case me (k5 s) of Some p \<Rightarrow> p | None \<Rightarrow> 0)) ''when unparsing name''
         (\<lambda>r. thenM (set_k5 (k5name_update (\<lambda>_. Some (khandle r, kstr r))))
             (modM (opts_update (principal_name_update (\<lambda>_. Some (kstr r)))))))"

definition begin_cleanup :: "krb5 \<Rightarrow> unit KM" where
  "begin_cleanup K =
     bindM (getM (\<lambda>s. s)) (\<lambda>s.
       thenM (case defcache s of None \<Rightarrow> ret ()
              | Some h \<Rightarrow> bindM (kcallM K (Cc_close h)) (\<lambda>_. ret ()))
             (case defcache_princ s of None \<Rightarrow> ret ()
              | Some p \<Rightarrow> bindM (kcallM K (Free_principal p)) (\<lambda>_. ret ())))"

definition k5_begin :: "krb5 \<Rightarrow> int KM" where
  "k5_begin K =
     bindM (kcallM K Init_context) (\<lambda>r.
       if kcode r \<noteq> 0 then
         thenM (com_err K (kcode r) ''while initializing Kerberos 5 library'') (ret 0)
       else
         thenM (set_k5 (ctx_update (\<lambda>_. True)))
        (thenM (modM (errctx_update (\<lambda>_. True)))
        (bindM (stage (begin_out_cache K)
               (stage (begin_principal K)
               (stage (begin_os_name K)
               (stage (begin_match_cache K)
               (stage begin_default_cache
               (stage (begin_in_cache K)
                      (begin_unparse K))))))) (\<lambda>success.
         thenM (begin_cleanup K) (ret (if success then 1 else 0))))))"

section \<open>k5_end and the prompter\<close>

definition k5_end :: "krb5 \<Rightarrow> unit KM" where
  "k5_end K =
     bindM (getM k5) (\<lambda>d.
       thenM (case k5name d of None \<Rightarrow> ret () | Some (h, _) \<Rightarrow> bindM (kcallM K (Free_unparsed h)) (\<lambda>_. ret ()))
      (thenM (case me d of None \<Rightarrow> ret () | Some p \<Rightarrow> bindM (kcallM K (Free_principal p)) (\<lambda>_. ret ()))
      (thenM (case in_cc d of None \<Rightarrow> ret () | Some h \<Rightarrow> bindM (kcallM K (Cc_close h)) (\<lambda>_. ret ()))
      (thenM (case out_cc d of None \<Rightarrow> ret () | Some h \<Rightarrow> bindM (kcallM K (Cc_close h)) (\<lambda>_. ret ()))
      (thenM (bindM (kcallM K Free_context) (\<lambda>_. ret ()))
      (thenM (modM (errctx_update (\<lambda>_. False)))
             (modM (k5_update (\<lambda>_. \<lparr>ctx = False, in_cc = None, out_cc = None, me = None,
                                     k5name = None, switch_to_cache = False\<rparr>)))))))))"

text \<open>
  The library's password callback. It notes whether a password was asked for and copies the
  buffered password to the first prompt's reply with \<open>memcpy\<close>, setting the reply's length; the
  copy is undefined when the reply buffer is shorter than the password.
\<close>

definition kinit_prompter :: "(bool \<times> nat) list \<Rightarrow> (int \<times> string) KM" where
  "kinit_prompter prompts =
     thenM (whenM (\<exists>p \<in> set prompts. fst p) (modM (pwprompt_update (\<lambda>_. True))))
     (bindM (getM (udpass \<circ> udata)) (\<lambda>buf.
        case prompts of
          [] \<Rightarrow> raise (Undef NullDeref)
        | (_, cap) # _ \<Rightarrow>
            let pass = c_str buf in
            if cap < length pass then raise (Undef BufferOverflow) else ret (0, pass)))"

end
