(* ===== verification/Kinit_Main.thy ===== *)
theory Kinit_Main
  imports Kinit
begin

text \<open>
  Getting the tickets: \<open>kinit_kdb_init\<close> and \<open>kinit_kdb_fini\<close> (kinit_kdb.c), \<open>k5_kinit\<close> and
  \<open>my_kinit_main\<close> (kinit.c), and what they guarantee: the entry point returns 0 or 1 and never
  another code, it returns for every library once the name and the password fit their buffers,
  and it always leaves the two buffers overwritten.
\<close>

section \<open>kinit_kdb.c\<close>

definition kinit_kdb_init :: "krb5 \<Rightarrow> string \<Rightarrow> int KM" where
  "kinit_kdb_init K realm =
     bindM (getM (ctx \<circ> k5)) (\<lambda>c.
       thenM (whenM c (thenM (bindM (kcallM K Free_context) (\<lambda>_. ret ()))
                             (set_k5 (ctx_update (\<lambda>_. False)))))
      (bindM (kcallM K Kadm5_init_context) (\<lambda>r.
         if kcode r \<noteq> 0 then ret (kcode r)
         else thenM (set_k5 (ctx_update (\<lambda>_. True)))
          (bindM (kcallM K (Kadm5_init realm)) (\<lambda>i.
             if kcode i \<noteq> 0 then ret (kcode i)
             else bindM (kcallM K Db_register_keytab) (\<lambda>k. ret (kcode k)))))))"

definition kinit_kdb_fini :: "krb5 \<Rightarrow> unit KM" where
  "kinit_kdb_fini K = bindM (kcallM K Kadm5_destroy) (\<lambda>_. ret ())"

section \<open>k5_kinit\<close>

abbreviation do_call :: "krb5 \<Rightarrow> kcall \<Rightarrow> unit KM" where
  "do_call K c \<equiv> bindM (kcallM K c) (\<lambda>_. ret ())"

text \<open>A call whose failure leads to \<open>cleanup\<close> without a message.\<close>

definition silent_call :: "krb5 \<Rightarrow> kcall \<Rightarrow> unit KM \<Rightarrow> bool KM" where
  "silent_call K c ok =
     bindM (kcallM K c) (\<lambda>r. if kcode r \<noteq> 0 then ret False else thenM ok (ret True))"

definition kinit_set_options :: "krb5 \<Rightarrow> bool KM" where
  "kinit_set_options K =
     bindM (getM opts) (\<lambda>o1.
       thenM (whenM (lifetime o1 \<noteq> 0) (do_call K (Opt_int ''tkt_life'' (lifetime o1))))
      (thenM (whenM (rlife o1 \<noteq> 0) (do_call K (Opt_int ''renew_life'' (rlife o1))))
      (thenM (whenM (forwardable o1) (do_call K (Opt_int ''forwardable'' 1)))
      (thenM (whenM (not_forwardable o1) (do_call K (Opt_int ''forwardable'' 0)))
      (thenM (whenM (proxiable o1) (do_call K (Opt_int ''proxiable'' 1)))
      (thenM (whenM (not_proxiable o1) (do_call K (Opt_int ''proxiable'' 0)))
      (thenM (whenM (canonicalize o1) (do_call K (Opt_int ''canonicalize'' 1)))
      (thenM (whenM (anonymous o1) (do_call K (Opt_int ''anonymous'' 1)))
      (stage (if addresses o1 then
                stage (try_call K Os_localaddr ''getting local addresses'' (\<lambda>_. ret ()))
                  (thenM (do_call K (Opt_addresses True)) (ret True))
              else ret True)
      (thenM (whenM (no_addresses o1) (do_call K (Opt_addresses False)))
      (thenM (case armor_ccache o1 of None \<Rightarrow> ret () | Some a \<Rightarrow> do_call K (Opt_armor a))
      (thenM (whenM (request_pac o1) (do_call K (Opt_int ''pac_request'' 1)))
      (thenM (whenM (not_request_pac o1) (do_call K (Opt_int ''pac_request'' 0)))
             (ret True))))))))))))))"

definition is_kdb_keytab :: "string \<Rightarrow> bool" where
  "is_kdb_keytab n \<longleftrightarrow> take 4 n = ''KDB:''"

definition kinit_keytab :: "krb5 \<Rightarrow> bool KM" where
  "kinit_keytab K =
     bindM (getM opts) (\<lambda>o1.
       case (action o1, keytab_name o1) of
         (INIT_KT, Some n) \<Rightarrow>
           stage (if is_kdb_keytab n then
                    bindM (kinit_kdb_init K ''realm'') (\<lambda>r.
                      thenM (modM (errctx_update (\<lambda>_. True)))
                       (if r \<noteq> 0 then
                          thenM (com_err K r ''while setting up KDB keytab'') (ret False)
                        else ret True))
                  else ret True)
             (try_call K (Kt_resolve n) ''resolving keytab''
                (\<lambda>r. modM (keytab_update (\<lambda>_. Some (khandle r)))))
       | _ \<Rightarrow>
           if action o1 = INIT_KT \<and> use_client_keytab o1 then
             try_call K Kt_client_default ''resolving default client keytab''
               (\<lambda>r. modM (keytab_update (\<lambda>_. Some (khandle r))))
           else ret True)"

fun kinit_pa_opts :: "krb5 \<Rightarrow> (string \<times> string) list \<Rightarrow> bool KM" where
  "kinit_pa_opts K [] = ret True"
| "kinit_pa_opts K ((attr, val) # ps) =
     stage (try_call K (Opt_set_pa attr val) ''while setting'' (\<lambda>_. ret ())) (kinit_pa_opts K ps)"

definition kinit_caches :: "krb5 \<Rightarrow> bool KM" where
  "kinit_caches K =
     bindM (getM k5) (\<lambda>d.
       stage (case in_cc d of None \<Rightarrow> ret True | Some h \<Rightarrow> silent_call K (Opt_in_ccache h) (ret ()))
         (silent_call K (Opt_out_ccache (case out_cc d of Some h \<Rightarrow> h | None \<Rightarrow> 0)) (ret ())))"

text \<open>The request itself. The password request may call the prompter back, once, with the prompts
  of the answer.\<close>

definition kinit_request :: "krb5 \<Rightarrow> int KM" where
  "kinit_request K =
     bindM (getM (\<lambda>s. s)) (\<lambda>s.
       let p = (case me (k5 s) of Some h \<Rightarrow> h | None \<Rightarrow> 0);
           oc = (case out_cc (k5 s) of Some h \<Rightarrow> h | None \<Rightarrow> 0)
       in case action (opts s) of
         INIT_PW \<Rightarrow>
           bindM (kcallM K (Init_creds_password p (service_name (opts s)) (starttime (opts s)))) (\<lambda>r.
             thenM (if kprompts r = [] then ret ()
                    else bindM (kinit_prompter (kprompts r)) (\<lambda>_. ret ()))
             (thenM (whenM (kcode r = 0) (modM (cred_client_update (\<lambda>_. Some (khandle r)))))
                    (ret (kcode r))))
       | INIT_KT \<Rightarrow>
           bindM (kcallM K (Init_creds_keytab p (keytab s) (starttime (opts s)))) (\<lambda>r.
             thenM (whenM (kcode r = 0) (modM (cred_client_update (\<lambda>_. Some (khandle r)))))
                   (ret (kcode r)))
       | VALIDATE \<Rightarrow>
           bindM (kcallM K (Validated_creds p oc)) (\<lambda>r.
             thenM (whenM (kcode r = 0) (modM (cred_client_update (\<lambda>_. Some (khandle r)))))
                   (ret (kcode r)))
       | RENEW \<Rightarrow>
           bindM (kcallM K (Renewed_creds p oc)) (\<lambda>r.
             thenM (whenM (kcode r = 0) (modM (cred_client_update (\<lambda>_. Some (khandle r)))))
                   (ret (kcode r))))"

definition doing :: "action_type \<Rightarrow> string" where
  "doing a = (case a of
     INIT_PW \<Rightarrow> ''getting initial credentials''
   | INIT_KT \<Rightarrow> ''getting initial credentials''
   | VALIDATE \<Rightarrow> ''validating credentials''
   | RENEW \<Rightarrow> ''renewing credentials'')"

definition kinit_report :: "krb5 \<Rightarrow> int \<Rightarrow> unit KM" where
  "kinit_report K r =
     bindM (getM (\<lambda>s. s)) (\<lambda>s.
       if r = KRB5KRB_AP_ERR_BAD_INTEGRITY \<or> (pwprompt s \<and> r = KRB5KDC_ERR_PREAUTH_FAILED)
       then ret ()
       else com_err K r (''while '' @ doing (action (opts s))))"

text \<open>Renewed and validated credentials go through a temporary memory cache.\<close>

definition kinit_store :: "krb5 \<Rightarrow> bool KM" where
  "kinit_store K =
     bindM (getM (\<lambda>s. s)) (\<lambda>s.
       if action (opts s) = INIT_PW \<or> action (opts s) = INIT_KT then ret True
       else
         let cprinc = (if canonicalize (opts s) then cred_client s else me (k5 s));
             p = (case cprinc of Some h \<Rightarrow> h | None \<Rightarrow> 0);
             oc = (case out_cc (k5 s) of Some h \<Rightarrow> h | None \<Rightarrow> 0) in
         bindM (kcallM K (Cc_new_unique ''MEMORY'')) (\<lambda>m.
           bindM (if kcode m \<noteq> 0 then ret (kcode m)
                  else thenM (modM (mcc_update (\<lambda>_. Some (khandle m))))
                    (bindM (kcallM K (Cc_initialize (khandle m) p)) (\<lambda>i. ret (kcode i)))) (\<lambda>c.
             if c \<noteq> 0 then thenM (com_err K c ''when creating temporary cache'') (ret False)
             else stage (try_call K (Cc_store_primary (khandle m)) ''while storing credentials''
                           (\<lambda>_. ret ()))
                    (try_call K (Cc_move (khandle m) oc) ''while saving to cache''
                       (\<lambda>_. modM (mcc_update (\<lambda>_. None)))))))"

definition kinit_switch :: "krb5 \<Rightarrow> bool KM" where
  "kinit_switch K =
     thenM (modM (notix_update (\<lambda>_. False)))
     (bindM (getM k5) (\<lambda>d.
        if switch_to_cache d then
          try_call K (Cc_switch (case out_cc d of Some h \<Rightarrow> h | None \<Rightarrow> 0))
            ''while switching to new ccache'' (\<lambda>_. ret ())
        else ret True))"

definition kinit_cleanup :: "krb5 \<Rightarrow> unit KM" where
  "kinit_cleanup K =
     thenM (kinit_kdb_fini K)
     (bindM (getM (\<lambda>s. s)) (\<lambda>s.
        thenM (case mcc s of None \<Rightarrow> ret () | Some h \<Rightarrow> do_call K (Cc_destroy h))
       (thenM (whenM (have_options s) (do_call K Opt_free))
       (thenM (whenM (cred_client s = me (k5 s)) (modM (cred_client_update (\<lambda>_. None))))
       (thenM (modM (opts_update (pa_opts_update (\<lambda>_. []))))
       (thenM (do_call K Free_cred_contents)
              (case keytab s of None \<Rightarrow> ret () | Some h \<Rightarrow> do_call K (Kt_close h))))))))"

definition k5_kinit :: "krb5 \<Rightarrow> int KM" where
  "k5_kinit K =
     thenM (modM (\<lambda>s. s\<lparr>notix := True, keytab := None, cred_client := None, have_options := False,
                        pwprompt := False, mcc := None\<rparr>))
     (bindM (stage (silent_call K Opt_alloc (modM (have_options_update (\<lambda>_. True))))
            (stage (kinit_set_options K)
            (stage (kinit_keytab K)
            (stage (bindM (getM (pa_opts \<circ> opts)) (kinit_pa_opts K))
            (stage (kinit_caches K)
            (stage (bindM (kinit_request K) (\<lambda>r.
                      if r \<noteq> 0 then thenM (kinit_report K r) (ret False) else ret True))
            (stage (kinit_store K)
                   (kinit_switch K)))))))) (\<lambda>_.
        thenM (kinit_cleanup K)
       (bindM (getM notix) (\<lambda>n. ret (if n then 0 else 1)))))"

section \<open>my_kinit_main\<close>

definition UDATA_SIZE :: nat where "UDATA_SIZE = 256"

text \<open>\<open>strncpy( dst, src, strlen( src ) + 1 )\<close> into a 256-byte array copies the terminator too; more
  than 256 bytes is a write past the array.\<close>

definition strncpy_all :: "string \<Rightarrow> string \<Rightarrow> fault + string" where
  "strncpy_all dst src =
     (let n = length (c_str src) + 1 in
      if UDATA_SIZE < n then Inl (Undef BufferOverflow)
      else Inr (c_str src @ NUL # drop n dst))"

definition zero_opts :: k_opts where
  "zero_opts = \<lparr>starttime = 0, lifetime = 0, rlife = 0, forwardable = False, proxiable = False,
     request_pac = False, anonymous = False, addresses = False, not_forwardable = False,
     not_proxiable = False, not_request_pac = False, no_addresses = False, verbose = False,
     principal_name = None, service_name = None, keytab_name = None, k5_in_cache_name = None,
     k5_out_cache_name = None, armor_ccache = None, action = INIT_PW, use_client_keytab = False,
     pa_opts = [], canonicalize = False, enterprise = False\<rparr>"

definition zero_k5 :: k5_data where
  "zero_k5 = \<lparr>ctx = False, in_cc = None, out_cc = None, me = None, k5name = None,
     switch_to_cache = False\<rparr>"

definition init_kst :: kst where
  "init_kst = \<lparr>calls = [], opts = zero_opts, k5 = zero_k5,
     udata = \<lparr>udname = replicate UDATA_SIZE NUL, udpass = replicate UDATA_SIZE NUL\<rparr>,
     errctx = False, defcache = None, defcache_princ = None, deftype = [], notix = True,
     keytab = None, cred_client = None, have_options = False, pwprompt = False, mcc = None\<rparr>"

definition wiped :: string where
  "wiped = replicate UDATA_SIZE (CHR 0xFF)"

definition my_kinit_main :: "krb5 \<Rightarrow> string \<Rightarrow> string \<Rightarrow> int KM" where
  "my_kinit_main K argv1 argv2 =
     bindM (getM udata) (\<lambda>u.
     bindM (liftM (strncpy_all (udname u) argv1)) (\<lambda>n.
     bindM (liftM (strncpy_all (udpass u) argv2)) (\<lambda>p.
     thenM (modM (\<lambda>s. s\<lparr>udata := \<lparr>udname = n, udpass = p\<rparr>,
              opts := zero_opts\<lparr>action := INIT_PW, principal_name := Some (c_str argv1), verbose := True\<rparr>,
              k5 := zero_k5, defcache := None, defcache_princ := None, deftype := []\<rparr>))
    (bindM (k5_begin K) (\<lambda>b.
     bindM (if b \<noteq> 0 then k5_kinit K else ret 0) (\<lambda>authed_k5.
     thenM (k5_end K)
    (thenM (modM (udata_update (\<lambda>_. \<lparr>udname = wiped, udpass = wiped\<rparr>)))
           (ret (if authed_k5 = 0 then 1 else 0)))))))))"

section \<open>It returns\<close>

text \<open>What the client relies on: a reply buffer for a prompt holds at least 255 bytes.\<close>

definition roomy_prompts :: "krb5 \<Rightarrow> bool" where
  "roomy_prompts K \<longleftrightarrow> (\<forall>h c. \<forall>p \<in> set (kprompts (K h c)). 255 \<le> snd p)"

text \<open>The password buffer holds a terminated string of at most 255 bytes.\<close>

definition pass_ok :: "kst \<Rightarrow> bool" where
  "pass_ok s \<longleftrightarrow> length (c_str (udpass (udata s))) \<le> 255"

text \<open>
  An invariant the client's bookkeeping cannot disturb: it does not depend on the call history, on
  \<open>k5\<close> or on the routines' locals, and survives the two changes made to \<open>opts\<close>. Under it every
  stage but the request itself is shown, once, to return.
\<close>

locale kst_invariant =
  fixes I :: "kst \<Rightarrow> bool"
  assumes inv_calls: "I s \<Longrightarrow> I (calls_update c s)"
    and inv_k5: "I s \<Longrightarrow> I (k5_update d s)"
    and inv_errctx: "I s \<Longrightarrow> I (errctx_update b s)"
    and inv_begin: "I s \<Longrightarrow> I (defcache_update h s)" "I s \<Longrightarrow> I (defcache_princ_update h s)"
      "I s \<Longrightarrow> I (deftype_update t s)"
    and inv_kinit: "I s \<Longrightarrow> I (keytab_update h s)" "I s \<Longrightarrow> I (cred_client_update h s)"
      "I s \<Longrightarrow> I (have_options_update b s)" "I s \<Longrightarrow> I (pwprompt_update b s)"
      "I s \<Longrightarrow> I (mcc_update h s)"
    and inv_opts: "I s \<Longrightarrow> I (opts_update (principal_name_update n) s)"
      "I s \<Longrightarrow> I (opts_update (pa_opts_update ps) s)"
begin

lemma runs_kcallM [runs_intros]: "runs I (kcallM K c)"
  by (simp add: runs_def kcallM_def inv_calls)

lemma runs_com_err [runs_intros]: "runs I (com_err K e m)"
  unfolding com_err_def by (intro runs_intros)

lemma runs_stage [runs_intros]: "runs I m \<Longrightarrow> runs I k \<Longrightarrow> runs I (stage m k)"
  unfolding stage_def by (intro runs_intros)

lemma runs_try_call [runs_intros]: "(\<And>r. runs I (f r)) \<Longrightarrow> runs I (try_call K c m f)"
  unfolding try_call_def by (intro runs_intros) auto

lemma runs_updates [runs_intros]:
  "runs I (set_k5 f)" "runs I (modM (errctx_update b))" "runs I (modM (defcache_update h))"
  "runs I (modM (defcache_princ_update h))" "runs I (modM (deftype_update t))"
  "runs I (modM (keytab_update h))" "runs I (modM (cred_client_update h))"
  "runs I (modM (have_options_update b))" "runs I (modM (pwprompt_update b))"
  "runs I (modM (mcc_update h))" "runs I (modM (k5_update f))"
  by (simp_all add: runs_def inv_k5 inv_errctx inv_begin inv_kinit)

lemma runs_opts_updates [runs_intros]:
  "runs I (modM (opts_update (principal_name_update (\<lambda>_. n))))"
  "runs I (modM (opts_update (pa_opts_update (\<lambda>_. ps))))"
  by (simp_all add: runs_def inv_opts)

lemma runs_begin_stages [runs_intros]:
  "runs I (begin_out_cache K)" "runs I (begin_principal K)"
  "runs I (begin_os_name K)" "runs I (begin_match_cache K)"
  "runs I begin_default_cache" "runs I (begin_in_cache K)"
  "runs I (begin_unparse K)" "runs I (begin_cleanup K)"
  unfolding begin_out_cache_def begin_principal_def begin_os_name_def begin_match_cache_def
    begin_default_cache_def begin_in_cache_def begin_unparse_def begin_cleanup_def Let_def
  by (intro runs_intros)+

lemma runs_k5_begin [runs_intros]: "runs I (k5_begin K)"
  unfolding k5_begin_def by (intro runs_intros)

lemma runs_case_prod_opt [runs_intros]:
  "(x = None \<Longrightarrow> runs I m) \<Longrightarrow> (\<And>a b. runs I (f a b)) \<Longrightarrow>
   runs I (case x of None \<Rightarrow> m | Some (a, b) \<Rightarrow> f a b)"
  by (cases x) auto

lemma runs_k5_end [runs_intros]: "runs I (k5_end K)"
  unfolding k5_end_def by (intro runs_intros)

lemma runs_silent_call [runs_intros]: "runs I m \<Longrightarrow> runs I (silent_call K c m)"
  unfolding silent_call_def by (intro runs_intros)

lemma runs_kdb [runs_intros]: "runs I (kinit_kdb_init K r)" "runs I (kinit_kdb_fini K)"
  unfolding kinit_kdb_init_def kinit_kdb_fini_def by (intro runs_intros)+

lemma runs_pa_opts [runs_intros]: "runs I (kinit_pa_opts K ps)"
  by (induction K ps rule: kinit_pa_opts.induct) (simp_all only: kinit_pa_opts.simps, (intro runs_intros)+)

lemma runs_kinit_keytab [runs_intros]: "runs I (kinit_keytab K)"
  unfolding kinit_keytab_def
  by (intro runs_bindM runs_getM) (auto simp only: split: action_type.split option.split prod.split intro!: runs_intros)

lemma runs_kinit_stages [runs_intros]:
  "runs I (kinit_set_options K)" "runs I (kinit_caches K)"
  "runs I (kinit_report K r)" "runs I (kinit_store K)" "runs I (kinit_cleanup K)"
  unfolding kinit_set_options_def kinit_caches_def kinit_report_def kinit_store_def
    kinit_cleanup_def Let_def
  by (intro runs_intros)+

lemma runs_before_request [runs_intros]:
  "runs I (silent_call K Opt_alloc (modM (have_options_update b)))"
  "runs I (bindM (getM (pa_opts \<circ> opts)) (kinit_pa_opts K))"
  by (intro runs_intros)+

end

interpretation pok: kst_invariant pass_ok
  by unfold_locales (simp_all add: pass_ok_def)


lemma runs_request: "roomy_prompts K \<Longrightarrow> runs pass_ok (kinit_request K)"
proof -
  assume K: "roomy_prompts K"
  have p: "runs pass_ok (kinit_prompter ps)" if "ps \<noteq> []" "\<forall>p \<in> set ps. 255 \<le> snd p" for ps
    using that by (cases ps)
      (auto simp: kinit_prompter_def runs_def thenM_def bindM_def whenM_def pass_ok_def Let_def)
  have call: "runs pass_ok (bindM (kcallM K c) f)"
    if "\<And>h. runs pass_ok (f (K h c))" for c :: kcall and f :: "kresp \<Rightarrow> int KM"
    using that by (auto simp: runs_def bindM_def kcallM_def pass_ok_def)
  have r: "kprompts (K h c) = [] \<or> runs pass_ok (kinit_prompter (kprompts (K h c)))" for h c
    using K p unfolding roomy_prompts_def by blast
  show ?thesis
    unfolding kinit_request_def Let_def
    apply (intro runs_bindM [OF runs_getM])
    apply (split action_type.split)
    apply (intro conjI impI call)
    using r by (auto intro!: runs_intros)
qed

lemma runs_k5_kinit: "roomy_prompts K \<Longrightarrow> runs pass_ok (k5_kinit K)"
proof -
  assume K: "roomy_prompts K"
  have i: "runs pass_ok (modM (\<lambda>s. s\<lparr>notix := True, keytab := None, cred_client := None,
             have_options := False, pwprompt := False, mcc := None\<rparr>))"
    and n: "runs pass_ok (modM (notix_update b))" for b
    by (auto intro!: runs_modM simp: pass_ok_def)
  have sw: "runs pass_ok (kinit_switch K)"
    unfolding kinit_switch_def by (intro runs_intros n)
  have rq: "runs pass_ok (bindM (kinit_request K) (\<lambda>r.
      if r \<noteq> 0 then thenM (kinit_report K r) (ret False) else ret True))"
    by (intro runs_intros runs_request K)
  show ?thesis
    unfolding k5_kinit_def by (intro runs_intros i sw rq)
qed

lemma strncpy_all_fits: "length (c_str a) \<le> 255 \<Longrightarrow> \<exists>b. strncpy_all d a = Inr b \<and> c_str b = c_str a"
proof -
  assume "length (c_str a) \<le> 255"
  moreover have "c_str (c_str a @ NUL # r) = c_str a" for r
    by (simp add: c_str_def takeWhile_append takeWhile_idem)
  ultimately show ?thesis by (simp add: strncpy_all_def UDATA_SIZE_def Let_def)
qed

lemma k5_end_zero: "k5_end K s = (r, s') \<Longrightarrow> k5 s' = zero_k5 \<and> \<not> errctx s' \<and> r = Inr ()"
  by (auto simp: k5_end_def bindM_def thenM_def whenM_def kcallM_def zero_k5_def
      split: option.splits prod.splits if_splits)


definition ok_krb5 :: krb5 where
  "ok_krb5 h c = \<lparr>kcode = 0, khandle = length h, kstr = ''alice'', kprompts =
     (case c of Init_creds_password _ _ _ \<Rightarrow> [(True, 1024)] | _ \<Rightarrow> [])\<rparr>"

lemma roomy_ok_krb5: "roomy_prompts ok_krb5"
  by (auto simp: roomy_prompts_def ok_krb5_def split: kcall.splits)


section \<open>What the result means\<close>

text \<open>Every caller tests the result for being negative; no run yields a negative one.\<close>

lemma my_kinit_main_codes: "my_kinit_main K user pass s = (Inr r, s') \<Longrightarrow> r = 0 \<or> r = 1"
  by (auto simp: my_kinit_main_def bindM_def thenM_def split: prod.splits sum.splits if_splits)

text \<open>The request a fresh run makes, and that no stage before it marks the ticket as obtained.\<close>

definition pw_run :: "kst \<Rightarrow> bool" where
  "pw_run s \<longleftrightarrow> action (opts s) = INIT_PW \<and> service_name (opts s) = None \<and> starttime (opts s) = 0"

definition no_ticket :: "kst \<Rightarrow> bool" where
  "no_ticket s \<longleftrightarrow> pw_run s \<and> notix s"

interpretation pwr: kst_invariant pw_run
  by unfold_locales (simp_all add: pw_run_def)

interpretation ntx: kst_invariant no_ticket
  by unfold_locales (simp_all add: no_ticket_def pw_run_def)

lemma prompter_no_ticket: "keeps no_ticket (kinit_prompter ps)"
  unfolding kinit_prompter_def Let_def
  by (intro keeps_intros) (auto simp: keeps_def no_ticket_def pw_run_def)

lemma request_no_ticket:
  assumes "no_ticket s" and refused: "\<And>h p. kcode (K h (Init_creds_password p None 0)) \<noteq> 0"
  shows "no_ticket (snd (kinit_request K s)) \<and> (\<forall>r. fst (kinit_request K s) = Inr r \<longrightarrow> r \<noteq> 0)"
proof -
  have act: "action (opts s) = INIT_PW" "service_name (opts s) = None" "starttime (opts s) = 0"
    using assms(1) by (auto simp: no_ticket_def pw_run_def)
  let ?c = "Init_creds_password (case me (k5 s) of Some h \<Rightarrow> h | None \<Rightarrow> 0) None 0"
  let ?r = "K (calls s) ?c" and ?s = "s\<lparr>calls := ?c # calls s\<rparr>"
  have nt: "no_ticket ?s" using assms(1) by (simp add: no_ticket_def pw_run_def)
  have "kinit_request K s =
    thenM (if kprompts ?r = [] then ret () else bindM (kinit_prompter (kprompts ?r)) (\<lambda>_. ret ()))
      (thenM (whenM (kcode ?r = 0) (modM (cred_client_update (\<lambda>_. Some (khandle ?r)))))
        (ret (kcode ?r))) ?s"
    using act by (simp add: kinit_request_def bindM_def kcallM_def Let_def)
  moreover have "keeps no_ticket (if kprompts ?r = [] then ret ()
      else bindM (kinit_prompter (kprompts ?r)) (\<lambda>_. ret ()))"
    by (intro keeps_intros prompter_no_ticket)
  ultimately show ?thesis using refused [of "calls s"] nt
    by (auto simp: thenM_def bindM_def whenM_def keeps_def split: prod.splits sum.splits)
qed


lemma stage_no_ticket:
  "keeps no_ticket m \<Longrightarrow> keeps no_ticket k \<Longrightarrow> keeps no_ticket (stage m k)"
  unfolding stage_def by (intro keeps_intros)

lemma kinit_no_ticket:
  assumes refused: "\<And>h p. kcode (K h (Init_creds_password p None 0)) \<noteq> 0" and "pw_run s"
    and k: "k5_kinit K s = (Inr a, s')"
  shows "a = 0"
proof -
  let ?init = "s\<lparr>notix := True, keytab := None, cred_client := None,
                 have_options := False, pwprompt := False, mcc := None\<rparr>"
  let ?req = "bindM (kinit_request K) (\<lambda>r.
      if r \<noteq> 0 then thenM (kinit_report K r) (ret False) else ret True)"
  have req: "no_ticket (snd (stage ?req k0 w))" if nt: "no_ticket w" for k0 w
  proof -
    note r = request_no_ticket [where K = K, OF nt refused]
    show ?thesis
    proof (cases "fst (kinit_request K w)")
      case (Inl e)
      with r show ?thesis by (cases "kinit_request K w") (auto simp: stage_def)
    next
      case (Inr c)
      then obtain w1 where q: "kinit_request K w = (Inr c, w1)" by (cases "kinit_request K w") simp
      with r have "c \<noteq> 0" and w1: "no_ticket w1" by simp_all
      from ntx.runs_kinit_stages(3) w1 obtain x w' where
        w': "kinit_report K c w1 = (Inr x, w')" "no_ticket w'" unfolding runs_def by meson
      from \<open>c \<noteq> 0\<close> q w'(1) have "?req w = (Inr False, w')" by (simp add: thenM_def)
      then have "stage ?req k0 w = (Inr False, w')"
        using bindM_Inr [of ?req w False w' "\<lambda>go. if go then k0 else ret False"]
        by (simp only: stage_def if_False ret_apply)
      with w'(2) show ?thesis by simp
    qed
  qed
  have body: "keeps no_ticket (stage ?req k0)" for k0
    by (rule keepsI) (rule req)
  define B where "B = bindM (stage (silent_call K Opt_alloc (modM (have_options_update (\<lambda>_. True))))
            (stage (kinit_set_options K)
            (stage (kinit_keytab K)
            (stage (bindM (getM (pa_opts \<circ> opts)) (kinit_pa_opts K))
            (stage (kinit_caches K)
            (stage ?req (stage (kinit_store K) (kinit_switch K)))))))) (\<lambda>_. kinit_cleanup K)"
  have "keeps no_ticket B"
    unfolding B_def by (intro keeps_bindM stage_no_ticket body; rule runs_keeps) (intro runs_intros)+
  moreover have "no_ticket ?init" using assms(2) by (simp add: no_ticket_def pw_run_def)
  ultimately have B: "no_ticket (snd (B ?init))" by (rule keepsD)
  have "k5_kinit K s = bindM B (\<lambda>_. bindM (getM notix) (\<lambda>n. ret (if n then 0 else 1))) ?init"
    by (simp only: k5_kinit_def B_def bindM_assoc thenM_def) (simp add: bindM_apply)
  with k B have "a = 0"
    by (cases "B ?init") (auto simp: bindM_apply no_ticket_def split: sum.splits)
  then show ?thesis by simp
qed



lemma ok_krb5_run: "fst (my_kinit_main ok_krb5 ''alice'' ''secret'' init_kst) = Inr 0"
  by code_simp


end
