(* ===== verification/World.thy ===== *)
theory World
  imports Filesystem Kinit_Main
begin

text \<open>
  The daemon's surroundings and its log: the parameters that stand for programs and services
  outside the sources (shell commands, environment variables, the clock, base64, the Kerberos
  library), the state all routines thread through, and \<open>CF_logger\<close> (common/daemon.h).
\<close>

section \<open>Events and surroundings\<close>

text \<open>What the daemon does to the outside, newest first in the state: commands run with
  \<open>popen( .., "r" )\<close>, commands fed through \<open>popen( .., "w" )\<close> with the bytes written to them,
  calls of the Kerberos client, lines sent to the journal, sleeps, calls of the AWS client library.\<close>

datatype event = Ran string | Piped string string | Kinit_as string string | Journal int string
  | Slept nat | Aws_call string string | Wiped string

text \<open>
  The answers of the outside are functions of the events so far, so that two runs of the same
  command may differ. \<open>strtime\<close> is the local time in a \<open>strftime\<close> format, \<open>openssl_malloc\<close> whether an
  allocation succeeds. \<open>shell_run\<close> gives the status \<open>pclose\<close> returns, the output, and the file
  system the command leaves; \<open>shell_start\<close> and \<open>pipe_start\<close> whether \<open>popen\<close> succeeds at all.
\<close>

record env =
  shell_start :: "event list \<Rightarrow> string \<Rightarrow> bool"
  shell_run :: "event list \<Rightarrow> fs \<Rightarrow> string \<Rightarrow> int \<times> string \<times> fs"
  pipe_start :: "event list \<Rightarrow> string \<Rightarrow> bool"
  pipe_run :: "event list \<Rightarrow> fs \<Rightarrow> string \<Rightarrow> string \<Rightarrow> int \<times> fs"
  getenv :: "string \<Rightarrow> string option"
  gethostname :: "int \<times> string"
  time_now :: "event list \<Rightarrow> int"
  tz_offset :: int
  strtime :: "event list \<Rightarrow> string \<Rightarrow> string"
  openssl_malloc :: "event list \<Rightarrow> nat \<Rightarrow> bool"
  g_base64_decode :: "string \<Rightarrow> string option"
  random_byte :: "event list \<Rightarrow> nat \<Rightarrow> nat"
  krb5lib :: "event list \<Rightarrow> krb5"
  log_writable :: bool

section \<open>The logger\<close>

record cf_logger =
  log_level :: int
  log_ring_buffer :: "nat \<Rightarrow> string"
  log_buffer_count :: nat

record world =
  wfs :: fs
  evs :: "event list"
  wlog :: cf_logger
  logfile :: "string option"

type_synonym 'a WM = "(world, 'a) M"

definition LOG_EMERG :: int where "LOG_EMERG = 0"
definition LOG_ERR :: int where "LOG_ERR = 3"
definition LOG_WARNING :: int where "LOG_WARNING = 4"
definition LOG_NOTICE :: int where "LOG_NOTICE = 5"
definition LOG_INFO :: int where "LOG_INFO = 6"

text \<open>The size of the array: the macro \<open>80 * 1024\<close> inside brackets.\<close>

definition log_ring_size :: nat where "log_ring_size = 80 * 1024"

text \<open>\<open>get_max_log_buffer_len\<close>.\<close>

definition get_max_log_buffer_len :: nat where
  "get_max_log_buffer_len = 80 * 1024"

definition max_log_len :: nat where "max_log_len = 10 * 1024 * 1024"

text \<open>
  \<open>( log_buffer_count + 1 ) % MAX_LOG_BUFFER_COUNT\<close> with the macro's text in place: \<open>%\<close> and \<open>*\<close>
  group to the left.
\<close>

definition next_log_index :: "nat \<Rightarrow> nat" where
  "next_log_index n = (n + 1) mod 80 * 1024"

definition set_log_level :: "int \<Rightarrow> cf_logger \<Rightarrow> cf_logger" where
  "set_log_level l lg = lg\<lparr>log_level := l\<rparr>"

text \<open>
  \<open>write_log\<close>: the log file is created when it is missing and emptied when it has outgrown its
  limit, the line is appended with a time stamp, and the message goes into the ring buffer.
  \<open>fclose\<close> of the null pointer a failed \<open>fopen\<close> returns is undefined.
\<close>

definition write_log :: "env \<Rightarrow> string \<Rightarrow> unit WM" where
  "write_log E message = (\<lambda>w.
     let open_log = (case logfile w of
           None \<Rightarrow> if log_writable E then Inr [] else Inl (Undef NullDeref)
         | Some c \<Rightarrow> if max_log_len < length c then
                      (if log_writable E then Inr [] else Inl (Undef NullDeref))
                    else Inr c)
     in case open_log of
       Inl e \<Rightarrow> (Inl e, w)
     | Inr c \<Rightarrow>
         let line = strtime E (evs w) ''%Y-%m-%d %H:%M:%S'' @ '': '' @ message @ '' '' @ [newline];
             lg = wlog w in
         if log_ring_size \<le> log_buffer_count lg then (Inl (Undef OutOfBounds), w)
         else (Inr (), w\<lparr>logfile := Some (c @ line),
                wlog := lg\<lparr>log_ring_buffer := (log_ring_buffer lg)(log_buffer_count lg := message),
                           log_buffer_count := next_log_index (log_buffer_count lg)\<rparr>\<rparr>))"

definition logger :: "env \<Rightarrow> int \<Rightarrow> string \<Rightarrow> unit WM" where
  "logger E level logs =
     bindM (getM (log_level \<circ> wlog)) (\<lambda>l.
       if l \<le> level then
         thenM (modM (\<lambda>w. w\<lparr>evs := Journal level (c_str logs) # evs w\<rparr>)) (write_log E (c_str logs))
       else ret ())"

definition init_logger :: cf_logger where
  "init_logger = \<lparr>log_level = LOG_EMERG, log_ring_buffer = (\<lambda>_. []), log_buffer_count = 0\<rparr>"

section \<open>Secrets in memory\<close>

text \<open>
  \<open>OPENSSL_cleanse\<close> of the bytes of a local string that holds a secret, nothing when it is empty, and
  \<open>clear\<close>; the string is not read again. The history keeps what was overwritten.
\<close>

definition clearString :: "string \<Rightarrow> unit WM" where
  "clearString str = whenM (str \<noteq> []) (modM (\<lambda>w. w\<lparr>evs := Wiped str # evs w\<rparr>))"

lemma clearString_apply: "clearString s w = (Inr (), if s = [] then w else w\<lparr>evs := Wiped s # evs w\<rparr>)"
  by (simp add: clearString_def whenM_def)

lemma clearString_then: "thenM (clearString s) k w = k (if s = [] then w else w\<lparr>evs := Wiped s # evs w\<rparr>)"
  by (simp add: thenM_def bindM_def clearString_apply)

text \<open>The strings of a list wiped in its order, the latest first in the history.\<close>

definition secrets_wiped :: "string list \<Rightarrow> world \<Rightarrow> world" where
  "secrets_wiped ss w = w\<lparr>evs := map Wiped (rev (filter (\<lambda>s. s \<noteq> []) ss)) @ evs w\<rparr>"

lemma secrets_wiped_sel [simp]: "wfs (secrets_wiped ss w) = wfs w" "wlog (secrets_wiped ss w) = wlog w" "logfile (secrets_wiped ss w) = logfile w"
  by (simp_all add: secrets_wiped_def)

lemma secrets_wiped_Nil [simp]: "secrets_wiped [] w = w"
  by (simp add: secrets_wiped_def)

lemma clear_strings: "forM clearString ss w = (Inr (), secrets_wiped ss w)"
  by (induction ss arbitrary: w) (simp_all add: clearString_then secrets_wiped_def)

section \<open>The ring buffer\<close>

text \<open>The logger's data invariant: the next slot lies inside the array.\<close>

definition log_ok :: "world \<Rightarrow> bool" where
  "log_ok w \<longleftrightarrow> log_buffer_count (wlog w) < log_ring_size"

lemma next_log_index_bound: "next_log_index n < log_ring_size"
proof -
  have "(n + 1) mod 80 < 80" by simp
  then have "(n + 1) mod 80 * 1024 < 80 * 1024" by (rule mult_strict_right_mono) simp
  then show ?thesis by (simp add: next_log_index_def log_ring_size_def)
qed

lemma write_log_ok:
  "log_writable E \<Longrightarrow> log_ok w \<Longrightarrow> \<exists>w'. write_log E m w = (Inr (), w') \<and> log_ok w' \<and>
     wfs w' = wfs w \<and> evs w' = evs w"
  using next_log_index_bound
  by (auto simp: write_log_def log_ok_def Let_def split: option.splits)

lemma runs_logger:
  assumes "log_writable E" and "\<And>w lg f l m. I w \<Longrightarrow> I (w\<lparr>evs := Journal l m # evs w, wlog := lg, logfile := f\<rparr>)"
  shows "runs (\<lambda>w. log_ok w \<and> I w) (logger E l m)"
proof -
  have "\<exists>w'. logger E l m w = (Inr (), w') \<and> log_ok w' \<and> I w'" if "log_ok w" and "I w" for w
  proof (cases "log_level (wlog w) \<le> l")
    case True
    let ?w = "w\<lparr>evs := Journal l (c_str m) # evs w\<rparr>"
    have "log_ok ?w" using that(1) by (simp add: log_ok_def)
    with write_log_ok [OF assms(1)] obtain w' where
      w': "write_log E (c_str m) ?w = (Inr (), w')" "log_ok w'" by blast
    then have "w' = w\<lparr>evs := Journal l (c_str m) # evs w, wlog := wlog w', logfile := logfile w'\<rparr>"
      by (auto simp: write_log_def Let_def split: option.splits if_splits)
    with assms(2) [OF that(2)] have "I w'" by metis
    with True w' show ?thesis by (auto simp: logger_def bindM_apply)
  next
    case False
    with that show ?thesis by (simp add: logger_def bindM_apply)
  qed
  then show ?thesis by (auto simp: runs_def)
qed

text \<open>The slots a logger visits from its initial state.\<close>

fun log_slot :: "nat \<Rightarrow> nat" where
  "log_slot 0 = log_buffer_count init_logger"
| "log_slot (Suc k) = next_log_index (log_slot k)"

text \<open>
  The ring buffer never leaves its array, but of its 81920 slots it uses three: the index
  expression groups as \<open>((n + 1) mod 80) * 1024\<close>, so slot 0 is written once and every later
  message goes alternately to slots 1024 and 66560.
\<close>
theorem log_ring_slots:
  "log_slot k < log_ring_size \<and>
   log_slot k = (if k = 0 then 0 else if odd k then 1024 else 66560)"
proof (induction k)
  case 0
  show ?case by (simp add: init_logger_def log_ring_size_def)
next
  case (Suc k)
  then have "log_slot (Suc k) = (if odd (Suc k) then 1024 else 66560)"
    by (auto simp: next_log_index_def)
  then show ?case by (simp add: log_ring_size_def)
qed

text \<open>
  The logger drops what is more severe than its level and keeps what is less severe: once the
  daemon has called \<open>set_log_level( LOG_NOTICE )\<close>, an error or a warning leaves no trace in the
  journal, the file or the ring buffer, while a message at level info reaches the journal.
\<close>
theorem logger_after_notice:
  assumes "log_level (wlog w) = LOG_NOTICE"
  shows "logger E LOG_ERR m w = (Inr (), w) \<and> logger E LOG_WARNING m w = (Inr (), w) \<and>
    Journal LOG_INFO (c_str m) \<in> set (evs (snd (logger E LOG_INFO m w)))"
  using assms
  by (auto simp: logger_def bindM_apply thenM_def LOG_NOTICE_def LOG_ERR_def LOG_WARNING_def
      LOG_INFO_def write_log_def Let_def split: option.splits)

section \<open>A concrete surrounding\<close>

text \<open>A host on which every command succeeds and prints nothing, for evaluating the model.\<close>

definition quiet_env :: env where
  "quiet_env = \<lparr>shell_start = (\<lambda>_ _. True), shell_run = (\<lambda>_ F _. (0, [], F)),
     pipe_start = (\<lambda>_ _. True), pipe_run = (\<lambda>_ F _ _. (0, F)), getenv = (\<lambda>_. None),
     gethostname = (0, ''host''), time_now = (\<lambda>_. 0), tz_offset = 0, strtime = (\<lambda>_ _. ''now''),
     openssl_malloc = (\<lambda>_ _. True),
     g_base64_decode = (\<lambda>_. None), random_byte = (\<lambda>_ n. n), krb5lib = (\<lambda>_. ok_krb5),
     log_writable = True\<rparr>"

definition start_world :: world where
  "start_world = \<lparr>wfs = [], evs = [], wlog = init_logger, logfile = None\<rparr>"

theorem logger_after_notice_witness:
  "logger quiet_env LOG_ERR ''no ticket''
     (start_world\<lparr>wlog := set_log_level LOG_NOTICE init_logger\<rparr>) =
   (Inr (), start_world\<lparr>wlog := set_log_level LOG_NOTICE init_logger\<rparr>)"
proof -
  have "log_level (wlog (start_world\<lparr>wlog := set_log_level LOG_NOTICE init_logger\<rparr>)) = LOG_NOTICE"
    by (simp add: set_log_level_def)
  from logger_after_notice [OF this] show ?thesis by blast
qed

section \<open>Properties no routine can disturb\<close>

text \<open>
  What an event, a log entry and the commands of an environment keep, every routine of the daemon keeps
  that changes files through commands only. The routines are shown to do so once, in the theory of each, for any
  such property.
\<close>

locale host_inv =
  fixes I :: "world \<Rightarrow> bool" and E :: env
  assumes host_event: "I w \<Longrightarrow> I (w\<lparr>evs := e # evs w\<rparr>)"
    and host_log: "I w \<Longrightarrow> I (snd (write_log E' m w))"
    and host_shell: "I w \<Longrightarrow> shell_run E (evs w) (wfs w) c = (code, out, F) \<Longrightarrow>
      I (w\<lparr>wfs := F, evs := Ran c # evs w\<rparr>)"
    and host_pipe: "I w \<Longrightarrow> pipe_run E (evs w) (wfs w) c b = (code, F) \<Longrightarrow>
      I (w\<lparr>wfs := F, evs := Piped c b # evs w\<rparr>)"
begin

lemma keeps_event: "keeps I (modM (\<lambda>w. w\<lparr>evs := e w # evs w\<rparr>))"
  by (simp add: keeps_def host_event)

lemma keeps_clear: "keeps I (clearString s)"
  unfolding clearString_def by (intro keeps_intros keeps_event)

lemma keeps_write_log: "keeps I (write_log E' m)"
  by (simp add: keeps_def host_log)

lemma keeps_logger: "keeps I (logger E' l m)"
  unfolding logger_def by (intro keeps_intros keeps_event keeps_write_log)

end

text \<open>A property that no change of the file system disturbs at all is kept by every routine, under any environment.\<close>

locale world_inv =
  fixes I :: "world \<Rightarrow> bool"
  assumes inv_event: "I w \<Longrightarrow> I (w\<lparr>evs := e # evs w\<rparr>)"
    and inv_fs: "I w \<Longrightarrow> I (w\<lparr>wfs := F\<rparr>)"
    and inv_log: "I w \<Longrightarrow> I (snd (write_log E m w))"
begin

lemma keeps_fs: "keeps I (modM (\<lambda>w. w\<lparr>wfs := f w\<rparr>))"
  by (simp add: keeps_def inv_fs)

lemma inv_fs_event: "I w \<Longrightarrow> I (w\<lparr>wfs := F, evs := e # evs w\<rparr>)"
  using inv_event [OF inv_fs [of w F], of e] by simp

end

sublocale world_inv \<subseteq> host_inv I E for E
  by unfold_locales (rule inv_event inv_log inv_fs_event; assumption)+

text \<open>Events are only ever added, so what happened stays recorded.\<close>

definition happened :: "event \<Rightarrow> world \<Rightarrow> bool" where
  "happened e w \<longleftrightarrow> e \<in> set (evs w)"

lemma happened_wiped: "s \<in> set ss \<Longrightarrow> s \<noteq> [] \<Longrightarrow> happened (Wiped s) (secrets_wiped ss w)"
  by (auto simp: happened_def secrets_wiped_def)

interpretation hist: world_inv "happened e" for e
  by unfold_locales
     (auto simp: happened_def write_log_def Let_def split: option.splits sum.splits)

text \<open>The index of the ring buffer stays inside the array.\<close>

interpretation ring: world_inv log_ok
  by unfold_locales
     (auto simp: log_ok_def write_log_def Let_def next_log_index_bound split: option.splits sum.splits)

end
