(* ===== verification/Util_Shell.thy ===== *)
theory Util_Shell
  imports World
begin

text \<open>
  The first half of \<open>class Util\<close> (common/util.hpp): running shell commands, the ownership checks on
  the binaries the daemon runs, the realm and domain of a domain-joined host, and the variables of
  /etc/ecs/ecs.config. Output on the standard error stream is left out.
\<close>

section \<open>Running commands\<close>

definition squote :: string where "squote = [CHR 0x27]"

definition quoted :: "string \<Rightarrow> string" where "quoted s = squote @ s @ squote"

text \<open>\<open>fgets( line, n + 1, f )\<close>: at most \<open>n\<close> bytes, up to and with the first newline.\<close>

fun fgets_line :: "nat \<Rightarrow> string \<Rightarrow> string" where
  "fgets_line 0 s = []"
| "fgets_line (Suc n) [] = []"
| "fgets_line (Suc n) (c # s) = (if c = newline then [c] else c # fgets_line n s)"

lemma fgets_line_prefix: "fgets_line n s = take (length (fgets_line n s)) s"
  by (induction n s rule: fgets_line.induct) auto

lemma fgets_line_nonempty: "fgets_line (Suc n) (c # s) \<noteq> []"
  by simp

text \<open>The reading loop of \<open>exec_shell_cmd\<close>: each 80-byte line buffer is appended as a C string.\<close>

function read_output :: "string \<Rightarrow> string" where
  "read_output [] = []"
| "read_output (c # s) =
     (let line = fgets_line 79 (c # s)
      in c_str line @ read_output (drop (length line) (c # s)))"
  by pat_completeness auto
termination
  by (relation "measure length") (auto simp: numeral_eq_Suc)

declare read_output.simps [simp del]

definition exec_shell_cmd :: "env \<Rightarrow> string \<Rightarrow> (int \<times> string) WM" where
  "exec_shell_cmd E cmd = (\<lambda>w.
     let cmd_str = c_str cmd in
     if \<not> shell_start E (evs w) cmd_str then (Inr (-1, []), w\<lparr>evs := Ran cmd_str # evs w\<rparr>)
     else
       let (error_code, out, F) = shell_run E (evs w) (wfs w) cmd_str
       in (Inr (error_code, read_output out), w\<lparr>wfs := F, evs := Ran cmd_str # evs w\<rparr>))"

lemma read_output_text:
  assumes "NUL \<notin> set out"
  shows "read_output out = out"
  using assms
proof (induction out rule: read_output.induct)
  case 1
  then show ?case by (simp add: read_output.simps)
next
  case (2 c s)
  let ?l = "fgets_line 79 (c # s)"
  have pre: "?l = take (length ?l) (c # s)" by (rule fgets_line_prefix)
  have "NUL \<notin> set ?l" using "2.prems" by (subst pre) (auto dest: in_set_takeD)
  then have cl: "c_str ?l = ?l" by (auto simp: c_str_def takeWhile_eq_all_conv)
  have "NUL \<notin> set (drop (length ?l) (c # s))" using "2.prems" by (auto dest: in_set_dropD)
  from "2.IH" [OF refl this] cl have "read_output (c # s) = ?l @ drop (length ?l) (c # s)"
    by (subst read_output.simps) (simp add: Let_def del: fgets_line.simps)
  then show ?case by (subst (asm) pre) (simp del: fgets_line.simps)
qed

text \<open>
  The line-by-line loop loses nothing of text output: for output without NUL bytes of any
  length and any line lengths, \<open>exec_shell_cmd\<close> returns exactly what the command wrote.
\<close>
theorem read_output_id:
  assumes "NUL \<notin> set out"
  shows "read_output out = out"
  using assms by (rule read_output_text)

theorem read_output_id_witness: "read_output (''a'' @ [newline] @ ''b'') = ''a'' @ [newline] @ ''b''"
  by (rule read_output_id) (simp add: NUL_def newline_def)

section \<open>Ownership of the binaries\<close>

definition S_IWOTH :: nat where "S_IWOTH = 2"

text \<open>\<open>st.st_mode & S_IWOTH\<close>.\<close>

definition other_writable :: "nat \<Rightarrow> bool" where
  "other_writable m \<longleftrightarrow> (m div S_IWOTH) mod 2 = 1"

definition check_file_permissions :: "string \<Rightarrow> bool WM" where
  "check_file_permissions filename =
     getM (\<lambda>w. case fs_stat (wfs w) filename of
         None \<Rightarrow> False
       | Some st \<Rightarrow> \<not> (st_uid st \<noteq> 0 \<or> st_gid st \<noteq> 0 \<or> other_writable (st_mode st)))"

definition install_path_for_decode_exe :: string where
  "install_path_for_decode_exe = ''/usr/sbin/credentials_fetcher_utf16_private.exe''"

definition install_path_for_aws_cli :: string where
  "install_path_for_aws_cli = ''/usr/bin/aws''"

text \<open>The shared body of the presence checks: \<open>which\<close>, trim, check.\<close>

definition is_hostname_cmd_present :: "env \<Rightarrow> (int \<times> string) WM" where
  "is_hostname_cmd_present E =
     bindM (exec_shell_cmd E ''which hostname'') (\<lambda>cmd.
     bindM (check_file_permissions (rtrim (snd cmd))) (\<lambda>ok.
       if \<not> ok then ret (-1, ''ERROR: hostname not found'') else ret (fst cmd, rtrim (snd cmd))))"

definition is_realm_cmd_present :: "env \<Rightarrow> (int \<times> string) WM" where
  "is_realm_cmd_present E =
     bindM (exec_shell_cmd E ''which realm'') (\<lambda>cmd.
     bindM (check_file_permissions (rtrim (snd cmd))) (\<lambda>ok.
       if \<not> ok then ret (-1, ''ERROR: realm not found'') else ret (fst cmd, rtrim (snd cmd))))"

definition is_kinit_cmd_present :: "env \<Rightarrow> (int \<times> string) WM" where
  "is_kinit_cmd_present E =
     bindM (exec_shell_cmd E ''which kinit'') (\<lambda>cmd.
     bindM (check_file_permissions (rtrim (snd cmd))) (\<lambda>ok.
       if \<not> ok then ret (-1, ''ERROR: kinit not found'') else ret (fst cmd, rtrim (snd cmd))))"

definition is_ldapsearch_cmd_present :: "env \<Rightarrow> (int \<times> string) WM" where
  "is_ldapsearch_cmd_present E =
     bindM (exec_shell_cmd E ''which ldapsearch'') (\<lambda>cmd.
     bindM (check_file_permissions (rtrim (snd cmd))) (\<lambda>ok.
       if \<not> ok then ret (-1, ''ERROR: ldapsearch not found'') else ret (fst cmd, rtrim (snd cmd))))"

definition is_decode_exe_present :: "(int \<times> string) WM" where
  "is_decode_exe_present =
     bindM (check_file_permissions install_path_for_decode_exe) (\<lambda>ok.
       if \<not> ok then ret (-1, ''ERROR: decode.exe not found'') else ret (0, []))"

definition check_util_binaries_permissions :: "env \<Rightarrow> (int \<times> string) WM" where
  "check_util_binaries_permissions E =
     bindM (exec_shell_cmd E ''which kinit'') (\<lambda>k.
     bindM (check_file_permissions (rtrim (snd k))) (\<lambda>kok.
     if \<not> kok then ret (-1, ''ERROR:: kinit not found'') else
     bindM (exec_shell_cmd E ''which ldapsearch'') (\<lambda>l.
     bindM (check_file_permissions (rtrim (snd l))) (\<lambda>lok.
     if \<not> lok then ret (-1, ''ERROR:: ldapsearch not found'') else
     bindM (check_file_permissions install_path_for_decode_exe) (\<lambda>dok.
     if \<not> dok then ret (-1, ''ERROR:: decode.exe not found'') else
     bindM (check_file_permissions install_path_for_aws_cli) (\<lambda>aok.
     if \<not> aok then ret (-1, ''ERROR:: AWS CLI not found'') else ret (0, [])))))))"

text \<open>A file only root can have written: owned by root's user and group, not writable by others.\<close>

definition root_owned :: "fs \<Rightarrow> string \<Rightarrow> bool" where
  "root_owned F p \<longleftrightarrow> (\<exists>st. fs_stat F p = Some st \<and> st_uid st = 0 \<and> st_gid st = 0 \<and>
     \<not> other_writable (st_mode st))"

lemma check_file_permissions_apply [simp]:
  "check_file_permissions p w = (Inr (root_owned (wfs w) p), w)"
  by (auto simp: check_file_permissions_def root_owned_def split: option.splits)

lemma exec_shell_cmd_returns: "\<exists>r w'. exec_shell_cmd E cmd w = (Inr r, w')"
  by (simp add: exec_shell_cmd_def Let_def split_beta)

text \<open>
  C0: The presence check accepts a binary only if it is safe to run: when \<open>check_util_binaries_permissions\<close>
  reports 0, the decoder and the AWS client exist, belong to user and group 0 and are not writable
  by others; any other report is -1 with one of four messages.
\<close>
theorem check_util_binaries_sound:
  "case check_util_binaries_permissions E w of
     (Inr (code, msg), w') \<Rightarrow>
       (if code = 0 then msg = [] \<and> root_owned (wfs w') install_path_for_decode_exe \<and>
                         root_owned (wfs w') install_path_for_aws_cli
        else code = -1 \<and> msg \<in> {''ERROR:: kinit not found'', ''ERROR:: ldapsearch not found'',
                                 ''ERROR:: decode.exe not found'', ''ERROR:: AWS CLI not found''})
   | (Inl _, _) \<Rightarrow> False"
proof -
  obtain k w1 where 1: "exec_shell_cmd E ''which kinit'' w = (Inr k, w1)"
    using exec_shell_cmd_returns by blast
  obtain l w2 where 2: "exec_shell_cmd E ''which ldapsearch'' w1 = (Inr l, w2)"
    using exec_shell_cmd_returns by blast
  show ?thesis
    by (simp add: check_util_binaries_permissions_def 1 2)
qed

section \<open>Realm and domain\<close>

definition realm_list_cmd :: string where
  "realm_list_cmd = ''realm list | grep  '' @ quoted ''realm-name'' @ '' | cut -f2 -d: | tr -d '' @
     quoted '' '' @ '' | tr -d '' @ quoted [newline]"

definition net_ads_cmd :: string where
  "net_ads_cmd = ''net ads info | grep  '' @ quoted ''Realm'' @ '' | cut -f2 -d: | tr -d '' @
     quoted '' '' @ '' | tr -d '' @ quoted [newline]"

definition domain_list_cmd :: string where
  "domain_list_cmd = ''realm list | grep  '' @ quoted ''domain-name'' @ '' | cut -f2 -d: | tr -d '' @
     quoted '' '' @ '' | tr -d '' @ quoted [newline]"

definition get_realm_name :: "env \<Rightarrow> (int \<times> string) WM" where
  "get_realm_name E =
     bindM (exec_shell_cmd E realm_list_cmd) (\<lambda>r.
       if fst r \<noteq> 0 then
         bindM (exec_shell_cmd E net_ads_cmd) (\<lambda>r2.
           if fst r2 \<noteq> 0 then ret (fst r2, []) else ret r2)
       else ret r)"

text \<open>
  \<open>std::equal( a.begin(), a.end(), b.begin() )\<close> compares as many elements as \<open>a\<close> has; reading past
  the terminator of \<open>b\<close> is undefined. The comparison stops at the first difference.
\<close>

fun equal_range :: "string \<Rightarrow> string \<Rightarrow> fault + bool" where
  "equal_range [] bs = Inr True"
| "equal_range (a # as) [] = Inl (Undef OutOfBounds)"
| "equal_range (a # as) (b # bs) = (if a = b then equal_range as bs else Inr False)"

definition check_domain_name :: "env \<Rightarrow> string \<Rightarrow> (int \<times> string) WM" where
  "check_domain_name E domain_name =
     bindM (exec_shell_cmd E domain_list_cmd) (\<lambda>r.
       if fst r \<noteq> 0 then ret (-1, snd r)
       else bindM (liftM (equal_range (snd r) domain_name)) (\<lambda>eq.
         if \<not> eq then ret (-1, snd r) else ret r))"

lemma equal_range_True: "equal_range as bs = Inr True \<longleftrightarrow> take (length as) bs = as"
  by (induction as bs rule: equal_range.induct) auto

lemma equal_range_fault: "equal_range as bs = Inl f \<longleftrightarrow> f = Undef OutOfBounds \<and>
  (\<exists>x xs. as = bs @ x # xs)"
  by (induction as bs rule: equal_range.induct) auto

text \<open>
  What \<open>check_domain_name\<close> accepts when the command succeeds is a prefix of the expected domain,
  not the domain: the host's domain may be a proper prefix or empty, and when the expected domain
  is a proper prefix of the host's the comparison reads past the end of the string.
\<close>
theorem check_domain_name_prefix:
  assumes "shell_start E (evs w) (c_str domain_list_cmd)"
    and "shell_run E (evs w) (wfs w) (c_str domain_list_cmd) = (0, joined, F)"
    and "NUL \<notin> set joined"
  shows "fst (check_domain_name E domain_name w) =
    (if take (length joined) domain_name = joined then Inr (0, joined)
     else if \<exists>x xs. joined = domain_name @ x # xs then Inl (Undef OutOfBounds)
     else Inr (-1, joined))"
proof (cases "equal_range joined domain_name")
  case (Inl f)
  then have "f = Undef OutOfBounds" and "\<exists>x xs. joined = domain_name @ x # xs"
    by (simp_all add: equal_range_fault)
  moreover from this have "take (length joined) domain_name \<noteq> joined" by auto
  ultimately show ?thesis using assms Inl
    by (auto simp: check_domain_name_def exec_shell_cmd_def bindM_apply Let_def read_output_text)
next
  case (Inr b)
  then have "b = (take (length joined) domain_name = joined)"
    using equal_range_True [of joined domain_name] by (cases b) auto
  moreover have "\<not> (\<exists>x xs. joined = domain_name @ x # xs)"
    using Inr equal_range_fault [of joined domain_name] by auto
  ultimately show ?thesis using assms Inr
    by (auto simp: check_domain_name_def exec_shell_cmd_def bindM_apply Let_def read_output_text)
qed

definition joined_env :: env where
  "joined_env = quiet_env\<lparr>shell_run := (\<lambda>_ F _. (0, ''contoso'', F))\<rparr>"

theorem check_domain_name_prefix_witness:
  "fst (check_domain_name joined_env ''contoso.com'' start_world) = Inr (0, ''contoso'')"
proof -
  have "shell_start joined_env (evs start_world) (c_str domain_list_cmd)"
    and "shell_run joined_env (evs start_world) (wfs start_world) (c_str domain_list_cmd) =
      (0, ''contoso'', wfs start_world)"
    and "NUL \<notin> set ''contoso''"
    by (simp_all add: joined_env_def quiet_env_def NUL_def)
  from check_domain_name_prefix [OF this] show ?thesis by simp
qed

section \<open>Variables of the ECS configuration\<close>

definition ENV_CF_GMSA_OU :: string where "ENV_CF_GMSA_OU = ''CF_GMSA_OU''"
definition ENV_CF_GMSA_SECRET_NAME :: string where
  "ENV_CF_GMSA_SECRET_NAME = ''CREDENTIALS_FETCHER_SECRET_NAME_FOR_DOMAINLESS_GMSA''"
definition ENV_CF_DOMAIN_CONTROLLER :: string where
  "ENV_CF_DOMAIN_CONTROLLER = ''DOMAIN_CONTROLLER_GMSA''"
definition ENV_CF_DISTINGUISHED_NAME :: string where
  "ENV_CF_DISTINGUISHED_NAME = ''CF_GMSA_DISTINGUISHED_NAME''"

definition ecs_config_file_name :: string where
  "ecs_config_file_name = ''/etc/ecs/ecs.config''"

fun ecs_lookup :: "string \<Rightarrow> string list \<Rightarrow> string" where
  "ecs_lookup ecs_variable_name [] = []"
| "ecs_lookup ecs_variable_name (line # lines) =
     (case split_string line CHR ''='' of
        [k, v] \<Rightarrow>
          (let key = rtrim k; value = ltrim v in
           if key = ENV_CF_GMSA_OU \<and> ecs_variable_name = key then value
           else if key = ENV_CF_GMSA_SECRET_NAME \<and> ecs_variable_name = key then value
           else if key = ENV_CF_DOMAIN_CONTROLLER \<and> ecs_variable_name = key then value
           else if key = ENV_CF_DISTINGUISHED_NAME \<and> ecs_variable_name = key then value
           else ecs_lookup ecs_variable_name lines)
      | _ \<Rightarrow> [])"

definition retrieve_variable_from_ecs_config :: "string \<Rightarrow> string WM" where
  "retrieve_variable_from_ecs_config ecs_variable_name =
     getM (\<lambda>w. case read_file ecs_config_file_name (wfs w) of
         None \<Rightarrow> []
       | Some c \<Rightarrow> ecs_lookup ecs_variable_name (getlines newline c))"

definition ecs_variables :: "string set" where
  "ecs_variables = {ENV_CF_GMSA_OU, ENV_CF_GMSA_SECRET_NAME, ENV_CF_DOMAIN_CONTROLLER,
     ENV_CF_DISTINGUISHED_NAME}"

text \<open>A line of the form \<open>key=value\<close> with a value.\<close>

definition config_line :: "string \<Rightarrow> string \<Rightarrow> string" where
  "config_line k v = k @ ''='' @ v"

lemma split_config_line:
  assumes "CHR ''='' \<notin> set k" and "v \<noteq> []" and "newline \<notin> set v"
  shows "split_string (config_line k v) CHR ''='' = [k, v]"
proof -
  have t: "takeWhile (\<lambda>c. c \<noteq> CHR ''='') (k @ CHR ''='' # v) = k"
    and d: "dropWhile (\<lambda>c. c \<noteq> CHR ''='') (k @ CHR ''='' # v) = CHR ''='' # v"
    using assms(1) by (auto simp: takeWhile_append dropWhile_append)
  from assms have "getlines newline v = [v]" by (simp add: getlines_last)
  with t d show ?thesis by (simp add: split_string_def config_line_def)
qed

lemma split_malformed: "CHR ''='' \<notin> set l \<Longrightarrow> length (split_string l CHR ''='') \<noteq> 2"
proof -
  assume "CHR ''='' \<notin> set l"
  then have d: "dropWhile (\<lambda>c. c \<noteq> CHR ''='') l = []" by (auto simp: dropWhile_eq_Nil_conv)
  show ?thesis unfolding split_string_def d by simp
qed

lemma ecs_lookup_malformed:
  "CHR ''='' \<notin> set l \<Longrightarrow> ecs_lookup n (l # ls) = []"
  using split_malformed [of l] by (auto split: list.splits)

lemma ecs_lookup_other:
  assumes "CHR ''='' \<notin> set k" and "v \<noteq> []" and "newline \<notin> set v" and "rtrim k \<noteq> n"
  shows "ecs_lookup n (config_line k v # ls) = ecs_lookup n ls"
  using assms by (auto simp: split_config_line Let_def)

lemma ecs_lookup_hit:
  assumes "CHR ''='' \<notin> set k" and "v \<noteq> []" and "newline \<notin> set v" and "rtrim k = n"
    and "n \<in> ecs_variables"
  shows "ecs_lookup n (config_line k v # ls) = ltrim v"
  using assms by (auto simp: split_config_line Let_def ecs_variables_def)

text \<open>
  Reading a variable of ecs.config: over well-formed lines for other keys the search goes on to
  the first line of the variable and returns its value without leading blanks, but a line
  with no \<open>=\<close> (a blank or a comment line) ends the search with the empty string, whatever follows.
\<close>
theorem ecs_lookup_behaviour:
  assumes pre: "\<forall>(k, v) \<in> set kvs. CHR ''='' \<notin> set k \<and> v \<noteq> [] \<and> newline \<notin> set v \<and> rtrim k \<noteq> n"
    and n: "n \<in> ecs_variables"
    and hit: "CHR ''='' \<notin> set k" "rtrim k = n" "v \<noteq> []" "newline \<notin> set v"
    and bad: "CHR ''='' \<notin> set l"
  shows "ecs_lookup n (map (\<lambda>(k, v). config_line k v) kvs @ config_line k v # ls) = ltrim v \<and>
    ecs_lookup n (map (\<lambda>(k, v). config_line k v) kvs @ l # config_line k v # ls) = []"
  using pre
proof (induction kvs)
  case Nil
  show ?case
    using ecs_lookup_hit [OF hit(1,3,4,2) n] ecs_lookup_malformed [OF bad] by simp
next
  case (Cons p kvs)
  obtain k' v' where p: "p = (k', v')" by (cases p)
  with Cons.prems have "CHR ''='' \<notin> set k'" "v' \<noteq> []" "newline \<notin> set v'" "rtrim k' \<noteq> n" by auto
  note o = ecs_lookup_other [OF this]
  from Cons show ?case by (simp add: p o del: ecs_lookup.simps)
qed

theorem ecs_lookup_behaviour_witness:
  "ecs_lookup ''CF_GMSA_OU'' [''ECS_CLUSTER=c'', ''CF_GMSA_OU= OU'', ''x=y''] = ''OU'' \<and>
   ecs_lookup ''CF_GMSA_OU'' [''ECS_CLUSTER=c'', ''# ou'', ''CF_GMSA_OU= OU'', ''x=y''] = []"
proof -
  have "\<forall>(k, v) \<in> set [(''ECS_CLUSTER'', ''c'')]. CHR ''='' \<notin> set k \<and> v \<noteq> [] \<and> newline \<notin> set v \<and>
      rtrim k \<noteq> ''CF_GMSA_OU''"
    and "''CF_GMSA_OU'' \<in> ecs_variables"
    and "CHR ''='' \<notin> set ''CF_GMSA_OU''" "rtrim ''CF_GMSA_OU'' = ''CF_GMSA_OU''" "'' OU'' \<noteq> []"
      "newline \<notin> set '' OU''" "CHR ''='' \<notin> set ''# ou''"
    by (simp_all add: newline_def rtrim_def isspace_def ecs_variables_def ENV_CF_GMSA_OU_def)
  from ecs_lookup_behaviour [OF this] show ?thesis
    by (simp add: config_line_def ltrim_def isspace_def del: ecs_lookup.simps)
qed

section \<open>What the commands keep\<close>

context host_inv begin

lemma keeps_exec_shell_cmd: "keeps I (exec_shell_cmd E c)"
  by (auto simp: keeps_def exec_shell_cmd_def Let_def intro: host_event host_shell split: prod.splits)

lemma keeps_check_file: "keeps I (check_file_permissions p)"
  by (simp add: keeps_def)

lemmas keeps_shell = keeps_exec_shell_cmd keeps_check_file keeps_logger

lemma keeps_tools:
  "keeps I (is_hostname_cmd_present E)" "keeps I (is_realm_cmd_present E)" "keeps I (is_kinit_cmd_present E)"
  "keeps I (is_ldapsearch_cmd_present E)" "keeps I is_decode_exe_present"
  "keeps I (check_util_binaries_permissions E)"
  unfolding is_hostname_cmd_present_def is_realm_cmd_present_def is_kinit_cmd_present_def
    is_ldapsearch_cmd_present_def is_decode_exe_present_def check_util_binaries_permissions_def
  by (intro keeps_intros keeps_shell)+

lemma keeps_realm: "keeps I (get_realm_name E)" "keeps I (check_domain_name E d)"
  unfolding get_realm_name_def check_domain_name_def by (intro keeps_intros keeps_shell)+

lemma keeps_ecs: "keeps I (retrieve_variable_from_ecs_config v)"
  unfolding retrieve_variable_from_ecs_config_def by (rule keeps_getM)

end

end
