(* ===== verification/Json_Lib.thy ===== *)
theory Json_Lib
  imports Prelude "HOL-Library.AList"
begin

text \<open>
  The JSON library (jsoncpp) is not part of the repository: its values and operations are a
  parameter of the model, a record of functions over a type of values. \<open>json_laws\<close> states the
  documented behaviour the code relies on, and a small concrete instance shows it can hold.
\<close>

section \<open>The interface\<close>

text \<open>
  \<open>parse_stream\<close> is \<open>Json::parseFromStream\<close>: its verdict and the root it leaves; \<open>read_stream\<close> is
  \<open>operator>>\<close>, which throws on malformed input. \<open>member\<close> is \<open>operator[]\<close> by key, \<open>elements\<close> the
  iteration over a value.
\<close>

record 'j jsonlib =
  parse_stream :: "string \<Rightarrow> cpp_exn + (bool \<times> 'j)"
  read_stream :: "string \<Rightarrow> cpp_exn + 'j"
  member :: "'j \<Rightarrow> string \<Rightarrow> cpp_exn + 'j"
  is_member :: "'j \<Rightarrow> string \<Rightarrow> cpp_exn + bool"
  as_string :: "'j \<Rightarrow> cpp_exn + string"
  elements :: "'j \<Rightarrow> 'j list"
  is_null :: "'j \<Rightarrow> bool"
  null_value :: 'j
  string_value :: "string \<Rightarrow> 'j"
  set_member :: "'j \<Rightarrow> string \<Rightarrow> 'j \<Rightarrow> 'j"
  append_value :: "'j \<Rightarrow> 'j \<Rightarrow> 'j"
  write_string :: "'j \<Rightarrow> string"

text \<open>Computations that may throw.\<close>

definition bindE :: "cpp_exn + 'a \<Rightarrow> ('a \<Rightarrow> cpp_exn + 'b) \<Rightarrow> cpp_exn + 'b" where
  "bindE r f = (case r of Inl e \<Rightarrow> Inl e | Inr x \<Rightarrow> f x)"

lemma bindE_simps [simp]: "bindE (Inl e) f = Inl e" "bindE (Inr x) f = f x"
  by (simp_all add: bindE_def)

lemma bindE_Inr: "bindE r f = Inr y \<longleftrightarrow> (\<exists>x. r = Inr x \<and> f x = Inr y)"
  by (cases r) auto

text \<open>The same as a routine of the daemon: a \<open>std::exception\<close> of its kind is thrown.\<close>

definition liftE :: "cpp_exn + 'a \<Rightarrow> ('w, 'a) M" where
  "liftE r = liftM (map_sum Throw id r)"

lemma liftE_apply [simp]: "liftE r w = (map_sum Throw id r, w)"
  by (simp add: liftE_def)

lemma keeps_liftE [keeps_intros]: "keeps I (liftE r)"
  by (simp add: liftE_def keeps_liftM)

fun json_path :: "'j jsonlib \<Rightarrow> string list \<Rightarrow> 'j \<Rightarrow> cpp_exn + 'j" where
  "json_path J [] v = Inr v"
| "json_path J (k # ks) v = bindE (member J v k) (json_path J ks)"

text \<open>\<open>v[k].asString()\<close>.\<close>

definition string_member :: "'j jsonlib \<Rightarrow> 'j \<Rightarrow> string \<Rightarrow> cpp_exn + string" where
  "string_member J v k = bindE (member J v k) (as_string J)"

text \<open>A value built from pairs of keys and strings, in the order they are assigned.\<close>

definition string_object :: "'j jsonlib \<Rightarrow> (string \<times> string) list \<Rightarrow> 'j" where
  "string_object J kvs = foldl (\<lambda>v (k, s). set_member J v k (string_value J s)) (null_value J) kvs"

section \<open>Documented behaviour\<close>

definition ascii :: "string \<Rightarrow> bool" where
  "ascii s \<longleftrightarrow> (\<forall>c \<in> set s. of_char c < (128 :: nat) \<and> of_char c \<noteq> (0 :: nat))"

text \<open>The values the daemon writes: objects of strings, in an array, under one key.\<close>

definition record_array :: "'j jsonlib \<Rightarrow> string \<Rightarrow> (string \<times> string) list list \<Rightarrow> 'j" where
  "record_array J key objs =
     set_member J (null_value J) key (foldl (append_value J) (null_value J) (map (string_object J) objs))"

definition json_laws :: "'j jsonlib \<Rightarrow> bool" where
  "json_laws J \<longleftrightarrow>
     (\<forall>v k x. member J (set_member J v k x) k = Inr x) \<and>
     (\<forall>kvs k s k'. k \<noteq> k' \<longrightarrow> member J (set_member J (string_object J kvs) k' (string_value J s)) k =
        member J (string_object J kvs) k) \<and>
     (\<forall>v k x. is_member J (set_member J v k x) k = Inr True) \<and>
     (\<forall>kvs k s k'. k \<noteq> k' \<longrightarrow> is_member J (set_member J (string_object J kvs) k' (string_value J s)) k =
        is_member J (string_object J kvs) k) \<and>
     (\<forall>s. as_string J (string_value J s) = Inr s) \<and>
     (\<forall>vs. elements J (foldl (append_value J) (null_value J) vs) = vs) \<and>
     (\<forall>key objs. ascii key \<longrightarrow> (\<forall>kvs \<in> set objs. \<forall>(k, s) \<in> set kvs. ascii k \<and> ascii s) \<longrightarrow>
        read_stream J (write_string J (record_array J key objs)) = Inr (record_array J key objs))"

lemma string_object_snoc:
  "string_object J (kvs @ [(k, s)]) = set_member J (string_object J kvs) k (string_value J s)"
  by (simp add: string_object_def)

lemma string_object_get:
  assumes "json_laws J" and "distinct (map fst kvs)" and "(k, s) \<in> set kvs"
  shows "string_member J (string_object J kvs) k = Inr s \<and> is_member J (string_object J kvs) k = Inr True"
  using assms(2,3)
proof (induction kvs rule: rev_induct)
  case (snoc p kvs)
  obtain k' s' where p: "p = (k', s')" by (cases p)
  show ?case
  proof (cases "k = k'")
    case True
    with snoc.prems p have "s = s'" by (auto simp: rev_image_eqI)
    with True assms(1) p show ?thesis by (simp add: string_object_snoc string_member_def json_laws_def)
  next
    case False
    with snoc p assms(1) show ?thesis
      by (simp add: string_object_snoc string_member_def json_laws_def)
  qed
qed simp

lemma record_array_read:
  assumes "json_laws J"
  shows "member J (record_array J key objs) key = Inr (foldl (append_value J) (null_value J)
      (map (string_object J) objs)) \<and>
    elements J (foldl (append_value J) (null_value J) (map (string_object J) objs)) =
      map (string_object J) objs"
  using assms by (simp add: record_array_def json_laws_def)

lemma record_array_stream:
  assumes "json_laws J" and "ascii key" and "\<forall>kvs \<in> set objs. \<forall>(k, s) \<in> set kvs. ascii k \<and> ascii s"
  shows "read_stream J (write_string J (record_array J key objs)) = Inr (record_array J key objs)"
proof -
  from assms(1) have "\<forall>key objs. ascii key \<longrightarrow>
      (\<forall>kvs \<in> set objs. \<forall>(k, s) \<in> set kvs. ascii k \<and> ascii s) \<longrightarrow>
      read_stream J (write_string J (record_array J key objs)) = Inr (record_array J key objs)"
    unfolding json_laws_def by blast
  with assms(2,3) show ?thesis by blast
qed

section \<open>A concrete instance\<close>

text \<open>Trees of strings, written in a prefix form that reads back; enough to evaluate the model.\<close>

datatype tree = TNull | TStr string | TArr "tree list" | TObj "(string \<times> tree) list"

definition esc :: "string \<Rightarrow> string" where
  "esc s = concat (map (\<lambda>c. [CHR ''x'', c]) s) @ ''q''"

fun unesc :: "string \<Rightarrow> (string \<times> string) option" where
  "unesc (a # r) = (if a = CHR ''q'' then Some ([], r) else
     (case r of [] \<Rightarrow> None | c # r' \<Rightarrow> map_option (\<lambda>(s, t). (c # s, t)) (unesc r')))"
| "unesc [] = None"

lemma unesc_esc [simp]: "unesc (esc s @ t) = Some (s, t)"
  by (induction s) (simp_all add: esc_def)

lemma length_esc: "length (esc s) = 2 * length s + 1"
  by (induction s) (simp_all add: esc_def)

fun tree_write :: "tree \<Rightarrow> string" and trees_write :: "tree list \<Rightarrow> string"
  and fields_write :: "(string \<times> tree) list \<Rightarrow> string" where
  "tree_write TNull = ''n''"
| "tree_write (TStr s) = CHR ''s'' # esc s"
| "tree_write (TArr ts) = CHR ''a'' # trees_write ts"
| "tree_write (TObj fs) = CHR ''o'' # fields_write fs"
| "trees_write [] = ''e''"
| "trees_write (t # ts) = CHR ''c'' # tree_write t @ trees_write ts"
| "fields_write [] = ''e''"
| "fields_write ((k, t) # fs) = CHR ''c'' # esc k @ tree_write t @ fields_write fs"

fun tree_read :: "nat \<Rightarrow> string \<Rightarrow> (tree \<times> string) option"
  and trees_read :: "nat \<Rightarrow> string \<Rightarrow> (tree list \<times> string) option"
  and fields_read :: "nat \<Rightarrow> string \<Rightarrow> ((string \<times> tree) list \<times> string) option" where
  "tree_read 0 s = None"
| "tree_read (Suc n) [] = None"
| "tree_read (Suc n) (c # r) =
     (if c = CHR ''n'' then Some (TNull, r)
      else if c = CHR ''s'' then map_option (\<lambda>(s, t). (TStr s, t)) (unesc r)
      else if c = CHR ''a'' then map_option (\<lambda>(ts, t). (TArr ts, t)) (trees_read n r)
      else if c = CHR ''o'' then map_option (\<lambda>(fs, t). (TObj fs, t)) (fields_read n r)
      else None)"
| "trees_read 0 s = None"
| "trees_read (Suc n) [] = None"
| "trees_read (Suc n) (c # r) =
     (if c = CHR ''e'' then Some ([], r)
      else case tree_read n r of None \<Rightarrow> None
        | Some (t, r') \<Rightarrow> map_option (\<lambda>(ts, r''). (t # ts, r'')) (trees_read n r'))"
| "fields_read 0 s = None"
| "fields_read (Suc n) [] = None"
| "fields_read (Suc n) (c # r) =
     (if c = CHR ''e'' then Some ([], r)
      else case unesc r of None \<Rightarrow> None
        | Some (k, r1) \<Rightarrow> (case tree_read n r1 of None \<Rightarrow> None
            | Some (t, r2) \<Rightarrow> map_option (\<lambda>(fs, r3). ((k, t) # fs, r3)) (fields_read n r2)))"

lemma tree_read_write:
  "length (tree_write t) \<le> n \<Longrightarrow> tree_read n (tree_write t @ r) = Some (t, r)"
  "length (trees_write ts) \<le> n \<Longrightarrow> trees_read n (trees_write ts @ r) = Some (ts, r)"
  "length (fields_write fs) \<le> n \<Longrightarrow> fields_read n (fields_write fs @ r) = Some (fs, r)"
proof (induction t and ts and fs arbitrary: n r and n r and n r
    rule: tree_write_trees_write_fields_write.induct)
  case 1 then show ?case by (cases n) auto
next
  case 2 then show ?case by (cases n) auto
next
  case 3 then show ?case by (cases n) auto
next
  case 4 then show ?case by (cases n) auto
next
  case 5 then show ?case by (cases n) auto
next
  case 6 then show ?case by (cases n) auto
next
  case 7 then show ?case by (cases n) auto
next
  case (8 k t fs) then show ?case by (cases n) auto
qed

definition bad :: cpp_exn where "bad = Json_error ''not an object''"

fun tree_member :: "tree \<Rightarrow> string \<Rightarrow> cpp_exn + tree" where
  "tree_member (TObj fs) k = Inr (case map_of fs k of None \<Rightarrow> TNull | Some t \<Rightarrow> t)"
| "tree_member TNull k = Inr TNull"
| "tree_member _ k = Inl bad"

fun tree_is_member :: "tree \<Rightarrow> string \<Rightarrow> cpp_exn + bool" where
  "tree_is_member (TObj fs) k = Inr (map_of fs k \<noteq> None)"
| "tree_is_member TNull k = Inr False"
| "tree_is_member _ k = Inl bad"

fun tree_string :: "tree \<Rightarrow> cpp_exn + string" where
  "tree_string (TStr s) = Inr s"
| "tree_string TNull = Inr []"
| "tree_string _ = Inl bad"

fun tree_elements :: "tree \<Rightarrow> tree list" where
  "tree_elements (TArr ts) = ts"
| "tree_elements (TObj fs) = map snd fs"
| "tree_elements _ = []"

fun tree_set :: "tree \<Rightarrow> string \<Rightarrow> tree \<Rightarrow> tree" where
  "tree_set (TObj fs) k t = TObj (AList.update k t fs)"
| "tree_set _ k t = TObj [(k, t)]"

fun tree_append :: "tree \<Rightarrow> tree \<Rightarrow> tree" where
  "tree_append (TArr ts) t = TArr (ts @ [t])"
| "tree_append _ t = TArr [t]"

definition tree_json :: "tree jsonlib" where
  "tree_json = \<lparr>parse_stream = (\<lambda>s. case tree_read (length s) s of
       Some (t, []) \<Rightarrow> Inr (True, t) | _ \<Rightarrow> Inr (False, TNull)),
     read_stream = (\<lambda>s. case tree_read (length s) s of
       Some (t, []) \<Rightarrow> Inr t | _ \<Rightarrow> Inl (Json_error ''syntax'')),
     member = tree_member, is_member = tree_is_member, as_string = tree_string,
     elements = tree_elements, is_null = (\<lambda>t. t = TNull), null_value = TNull, string_value = TStr,
     set_member = tree_set, append_value = tree_append, write_string = tree_write\<rparr>"

lemma tree_member_set: "tree_member (tree_set v k x) k = Inr x"
  by (cases v) (simp_all add: update_conv')

lemma tree_object: "\<exists>fs. string_object tree_json kvs = TObj fs \<or> kvs = [] \<and> string_object tree_json kvs = TNull"
proof (cases kvs rule: rev_cases)
  case Nil
  then show ?thesis by (simp add: string_object_def tree_json_def)
next
  case (snoc kvs' p)
  then show ?thesis
    by (cases p; cases "string_object tree_json kvs'") (simp_all add: string_object_snoc, simp_all add: tree_json_def)
qed

lemma tree_foldl_append: "foldl tree_append (TArr us) vs = TArr (us @ vs)"
  by (induction vs arbitrary: us) auto

lemma tree_json_laws: "json_laws tree_json"
proof -
  have other: "tree_member (tree_set (string_object tree_json kvs) k' (TStr s)) k =
      tree_member (string_object tree_json kvs) k \<and>
      tree_is_member (tree_set (string_object tree_json kvs) k' (TStr s)) k =
      tree_is_member (string_object tree_json kvs) k" if "k \<noteq> k'" for kvs k s k'
    using tree_object [of kvs] that by (auto simp: update_conv')
  have ism: "tree_is_member (tree_set v k x) k = Inr True" for v k x
    by (cases v) (simp_all add: update_conv')
  have el: "tree_elements (foldl tree_append TNull vs) = vs" for vs
    by (cases vs) (simp_all add: tree_foldl_append)
  have rd: "(case tree_read (length (tree_write t)) (tree_write t) of
      Some (t, []) \<Rightarrow> Inr t | _ \<Rightarrow> Inl (Json_error ''syntax'')) = Inr t" for t
    using tree_read_write(1) [of t "length (tree_write t)" "[]"] by simp
  show ?thesis
    unfolding json_laws_def
  proof (intro conjI allI impI)
  qed (simp_all add: tree_json_def tree_member_set ism el rd other [unfolded tree_json_def])
qed

end
