(* ===== verification/Util_Ldap.thy ===== *)
theory Util_Ldap
  imports Util_Shell Json_Lib
begin

text \<open>
  The directory part of \<open>class Util\<close> (common/util.hpp): the secret store, the base DN, the search
  for an account's distinguished name and its managed password, the list of domain controllers, and
  the self test of the password decoder. Standard output and error are left out.
\<close>

definition getCurrentTime :: "env \<Rightarrow> string WM" where
  "getCurrentTime E = getM (\<lambda>w. strtime E (evs w) ''%Y-%m-%d %X'')"

section \<open>Secrets\<close>

definition aws_secret_cmd :: "string \<Rightarrow> string" where
  "aws_secret_cmd aws_sm_secret_name =
     install_path_for_aws_cli @ '' secretsmanager get-secret-value --secret-id '' @ aws_sm_secret_name @
     '' --query '' @ quoted ''SecretString'' @ '' --output text''"

definition get_secret_from_secrets_manager :: "'j jsonlib \<Rightarrow> env \<Rightarrow> string \<Rightarrow> 'j WM" where
  "get_secret_from_secrets_manager J E aws_sm_secret_name =
     bindM (exec_shell_cmd E (aws_secret_cmd aws_sm_secret_name)) (\<lambda>result.
       if fst result = 0 then
         bindM (liftE (parse_stream J (snd result))) (\<lambda>p. ret (snd p))
       else ret (null_value J))"

definition get_base_dn_from_secret :: "'j jsonlib \<Rightarrow> env \<Rightarrow> string \<Rightarrow> (int \<times> string) WM" where
  "get_base_dn_from_secret J E secret_name =
     (if secret_name \<noteq> [] then
        bindM (get_secret_from_secrets_manager J E secret_name) (\<lambda>root.
        bindM (liftE (string_member J root ''distinguishedName'')) (\<lambda>dn1.
        bindM (if dn1 = [] then liftE (string_member J root ''distinguishedNameOfgMSA'') else ret dn1) (\<lambda>dn.
          ret (if dn \<noteq> [] then 0 else -1, dn))))
      else ret (-1, []))"

section \<open>Names\<close>

definition get_base_dn :: "string \<Rightarrow> fault + int \<times> string" where
  "get_base_dn domain_name =
     (if domain_name \<noteq> [] then
        let base_dn = concat (map (\<lambda>result. ''DC='' @ result @ '','') (split_string domain_name CHR ''.''))
        in case pop_back base_dn of Inl e \<Rightarrow> Inl e | Inr s \<Rightarrow> Inr (0, s)
      else Inr (-1, []))"

definition remove_trailing_dot_and_newline :: "string \<Rightarrow> fault + string" where
  "remove_trailing_dot_and_newline arg =
     (case str_back arg of Inl e \<Rightarrow> Inl e
      | Inr c \<Rightarrow>
        let arg1 = (if c = newline \<or> c = CHR 0x0D then butlast arg else arg)
        in case str_back arg1 of Inl e \<Rightarrow> Inl e
           | Inr d \<Rightarrow> Inr (if d = CHR ''.'' then butlast arg1 else arg1))"

text \<open>\<open>if ( fqdn.back() == '.' ) fqdn.pop_back()\<close> over a list, in place.\<close>

fun strip_dots :: "string list \<Rightarrow> fault + string list" where
  "strip_dots [] = Inr []"
| "strip_dots (fqdn # fqdns) =
     (case str_back fqdn of
        Inl e \<Rightarrow> Inl e
      | Inr c \<Rightarrow> (case strip_dots fqdns of
            Inl e \<Rightarrow> Inl e
          | Inr r \<Rightarrow> Inr ((if c = CHR ''.'' then butlast fqdn else fqdn) # r)))"

definition nslookup_cmd :: "string \<Rightarrow> string" where
  "nslookup_cmd domain_name =
     ''nslookup -type=srv _ldap._tcp.dc._msdcs.'' @ domain_name @ '' | grep '' @ domain_name @
     '' | sed '' @ quoted ''s/^.* //g''"

definition dig_cmd :: "string \<Rightarrow> string" where
  "dig_cmd domain_name =
     ''dig +short _ldap._tcp.dc._msdcs.'' @ domain_name @ '' -t any | sed '' @ quoted ''s/^.* //g''"

definition get_FQDNs :: "env \<Rightarrow> string \<Rightarrow> string list WM" where
  "get_FQDNs E domain_name =
     bindM (exec_shell_cmd E (nslookup_cmd domain_name)) (\<lambda>nslookup_output.
       if fst nslookup_output = 0 then
         liftM (strip_dots (split_string (snd nslookup_output) newline))
       else
         bindM (exec_shell_cmd E (dig_cmd domain_name)) (\<lambda>dig_output.
           if fst dig_output = 0 then
             liftM (strip_dots (split_string (snd dig_output) newline))
           else ret []))"

definition get_FQDN_list :: "env \<Rightarrow> string \<Rightarrow> string list WM" where
  "get_FQDN_list E domain_name =
     bindM (retrieve_variable_from_ecs_config ENV_CF_DOMAIN_CONTROLLER) (\<lambda>fqdn_from_env_var.
       if fqdn_from_env_var = [] then get_FQDNs E domain_name else ret [fqdn_from_env_var])"

section \<open>Searching the directory\<close>

definition ldapsearch_cmd :: "string \<Rightarrow> string \<Rightarrow> string \<Rightarrow> string" where
  "ldapsearch_cmd distinguished_name fqdn search_string =
     ''ldapsearch -o ldif_wrap=no -LLL -Y GSSAPI -H ldap://'' @ fqdn @ '' -b '' @
     quoted distinguished_name @ '' '' @ search_string @ '' -N''"

text \<open>
  The loop of two tries. The output of a run is appended to the command and the next try runs the
  longer text.
\<close>

primrec ldap_tries :: "env \<Rightarrow> nat \<Rightarrow> string \<Rightarrow> int \<times> string \<Rightarrow> (int \<times> string) WM" where
  "ldap_tries E 0 cmd res = ret res"
| "ldap_tries E (Suc n) cmd res =
     bindM (exec_shell_cmd E cmd) (\<lambda>r.
       let cmd' = cmd @ snd r in
       if fst r \<noteq> 0 then
         bindM (getCurrentTime E) (\<lambda>t.
           ldap_tries E n cmd' (fst r, cmd' @ t @
             ''ERROR: ldapsearch failed to get gMSA credentials: '' @ cmd'))
       else ret (0, cmd' @ ''INFO: ldapsearch succeeded with FQDN = ''))"

definition execute_ldapsearch :: "env \<Rightarrow> string \<Rightarrow> string \<Rightarrow> string \<Rightarrow> (int \<times> string) WM" where
  "execute_ldapsearch E distinguished_name fqdn search_string =
     ldap_tries E 2 (ldapsearch_cmd distinguished_name fqdn search_string) (0, [])"

definition dn_marker :: string where "dn_marker = ''distinguishedName:''"

definition find_dn :: "env \<Rightarrow> string \<Rightarrow> string \<Rightarrow> string \<Rightarrow> (int \<times> string) WM" where
  "find_dn E gmsa_account_name base_dn fqdn =
     bindM (execute_ldapsearch E base_dn fqdn
       ('' -s sub '' @ quoted (''(CN='' @ gmsa_account_name @ '')'') @ '' distinguishedName'')) (\<lambda>res.
     if fst res = 0 \<and> snd res \<noteq> [] then
       (case find_sub dn_marker (snd res) of
          None \<Rightarrow> ret (0, [])
        | Some start_pos \<Rightarrow>
            bindM (liftM (substr (snd res) (start_pos + length (dn_marker @ '' '')))) (\<lambda>dn.
            case find_char newline dn of
              Some end_pos \<Rightarrow> ret (0, take end_pos dn)
            | None \<Rightarrow> ret (-1, [])))
     else ret (-1, []))"

section \<open>The managed password\<close>

text \<open>
  \<open>base64_decode\<close>: no buffer for an empty input, an undecodable one, an empty result, or when the
  secure allocation fails.
\<close>

definition base64_decode :: "env \<Rightarrow> string \<Rightarrow> string option WM" where
  "base64_decode E password = getM (\<lambda>w.
     if password = [] then None
     else case g_base64_decode E (c_str password) of
       None \<Rightarrow> None
     | Some result \<Rightarrow> if result = [] then None
         else if \<not> openssl_malloc E (evs w) (length result) then None else Some result)"

definition password_marker :: string where "password_marker = ''msDS-ManagedPassword::''"

fun find_password_text :: "string list \<Rightarrow> fault + string option" where
  "find_password_text [] = Inr None"
| "find_password_text (result # results) =
     (case find_sub password_marker result of
        Some found \<Rightarrow> (case substr_n result (found + length password_marker + 1) (length result) of
            Inl e \<Rightarrow> Inl e
          | Inr p \<Rightarrow> Inr (Some p))
      | None \<Rightarrow> find_password_text results)"

text \<open>The pair of the length and the buffer.\<close>

definition find_password :: "env \<Rightarrow> string \<Rightarrow> (nat \<times> string option) WM" where
  "find_password E ldap_search_result =
     bindM (liftM (find_password_text (split_string ldap_search_result CHR ''#''))) (\<lambda>found.
       case found of
         None \<Rightarrow> ret (0, None)
       | Some password \<Rightarrow>
           bindM (base64_decode E password) (\<lambda>buf.
             ret (case buf of None \<Rightarrow> (0, None) | Some b \<Rightarrow> (length b, Some b))))"

text \<open>
  The layout of \<open>blob_t\<close>: eight bytes of version, reserved and length, four 16-bit offsets, then the
  password. \<open>fwrite\<close> reads \<open>GMSA_PASSWORD_SIZE\<close> bytes of it whatever the buffer holds.
\<close>

definition GMSA_PASSWORD_SIZE :: nat where "GMSA_PASSWORD_SIZE = 256"
definition blob_header_size :: nat where "blob_header_size = 2 + 2 + 4 + 2 + 2 + 2 + 2"

definition blob_password :: "string \<Rightarrow> fault + string" where
  "blob_password buf =
     (if length buf < blob_header_size + GMSA_PASSWORD_SIZE then Inl (Undef OutOfBounds)
      else Inr (take GMSA_PASSWORD_SIZE (drop blob_header_size buf)))"

section \<open>The self test of the decoder\<close>

definition test_msds_managed_password :: string where
  "test_msds_managed_password = ''msDS-ManagedPassword:: '' @
     ''AQAAACIBAAAQAAAAEgEaAciMhCofvo1R4kkVYm79aRysUcOs7NhhHvO'' @
     ''exhNTV9KXAn1v8AYMN1lMC/V6W0dZVrQRpGZ/EvWi33Lq2xoR5ANuJf623JQRj3pMZQBqQLRjRoPn'' @
     ''UJYY8H74aVysf0t+1M0moLkm0IPSCB52Mm0CC9flTT0D9KZV2Mvf4FpgvYpYoOQvUmd0UOV72Tk/d'' @
     ''leM8zTWjRL5ccfzwt5p8akMEl6W0RPj1pDbqxtbpJFQiLQd7HRlSkYPeBKDB9r6CItrQTo8j+pgJf'' @
     ''B4+wVbOUZuMXrKkDVh8XUOUBdGhznntRWnDM2DhwBoFEisBr133Vo8aRcedYqwNj/LEsrimEJaeuY'' @
     ''AAAQCCBrPFgAABKQ3Z84WAAA= #''"

definition test_gmsa_utf8_password :: "nat list" where
  "test_gmsa_utf8_password =
     [232, 179, 136, 226, 170, 132, 235, 184, 159, 229, 134, 141, 228, 167, 162, 230,
      136, 149, 239, 181, 174, 225, 177, 169, 229, 134, 172, 234, 179, 131, 239, 191,
      189, 225, 185, 161, 233, 187, 179, 225, 143, 134, 229, 157, 147, 233, 159, 146,
      231, 180, 130, 239, 129, 175, 224, 176, 134, 229, 164, 183, 224, 173, 140, 231,
      171, 181, 228, 157, 155, 229, 153, 153, 225, 134, 180, 230, 154, 164, 225, 137,
      191, 234, 139, 181, 231, 139, 159, 239, 191, 189, 225, 132, 154, 207, 164, 226,
      149, 174, 235, 155, 190, 233, 147, 156, 232, 188, 145, 228, 177, 186, 101, 228,
      129, 170, 230, 142, 180, 232, 141, 134, 229, 131, 167, 225, 162, 150, 231, 187,
      176, 230, 167, 184, 234, 177, 156, 228, 173, 191, 237, 145, 190, 226, 155, 141,
      235, 166, 160, 237, 128, 166, 237, 138, 131, 225, 184, 136, 227, 137, 182, 201,
      173, 237, 156, 139, 228, 183, 165, 204, 189, 234, 155, 180, 240, 165, 159, 139,
      229, 171, 160, 235, 181, 160, 229, 162, 138, 238, 146, 160, 229, 136, 175, 231,
      145, 167, 238, 149, 144, 239, 191, 189, 227, 188, 185, 229, 157, 182, 239, 142,
      140, 237, 152, 180, 225, 138, 141, 231, 135, 185, 239, 143, 135, 239, 191, 189,
      239, 133, 169, 224, 178, 169, 229, 184, 146, 237, 134, 150, 238, 140, 147, 233,
      131, 150, 234, 175, 155, 229, 172, 155, 233, 134, 164, 232, 161, 144, 225, 182,
      180, 231, 147, 172, 228, 169, 165, 224, 189, 134, 225, 137, 184, 222, 131, 239,
      171, 154, 232, 172, 136, 228, 133, 171, 227, 176, 186, 238, 170, 143, 226, 149,
      160, 231, 163, 176, 215, 187, 227, 165, 155, 230, 185, 134, 231, 168, 177, 233,
      131, 138, 230, 132, 181, 231, 151, 177, 229, 128, 142, 228, 152, 151, 227, 166,
      135, 235, 151, 167, 234, 156, 149, 236, 180, 140, 232, 158, 131, 230, 160, 128,
      228, 160, 148, 218, 172, 231, 158, 189, 229, 171, 157, 230, 164, 188, 225, 184,
      151, 232, 169, 181, 227, 154, 176, 236, 172, 191, 236, 168, 146, 233, 163, 162,
      229, 169, 130, 238, 153, 186]"

definition decoded_password_file :: string where
  "decoded_password_file = ''./decoded_password_file''"

definition decode_self_test_cmd :: "fs \<Rightarrow> string" where
  "decode_self_test_cmd F =
     (if fs_stat F install_path_for_decode_exe \<noteq> None then install_path_for_decode_exe
      else ''./decode.exe'') @ ''  > '' @ decoded_password_file"

text \<open>
  The comparison of \<open>GMSA_PASSWORD_SIZE\<close> bytes of the array with the file just read: bytes \<open>fread\<close> did
  not deliver are uninitialised, and reading them after an equal prefix is undefined.
\<close>

fun memcmp_read :: "nat list \<Rightarrow> nat list \<Rightarrow> fault + bool" where
  "memcmp_read [] bs = Inr True"
| "memcmp_read (a # as) [] = Inl (Undef UninitRead)"
| "memcmp_read (a # as) (b # bs) = (if a = b then memcmp_read as bs else Inr False)"

definition EXIT_SUCCESS :: int where "EXIT_SUCCESS = 0"
definition EXIT_FAILURE :: int where "EXIT_FAILURE = 1"

definition test_utf16_decode :: "env \<Rightarrow> int WM" where
  "test_utf16_decode E =
     bindM (find_password E test_msds_managed_password) (\<lambda>blob.
     case snd blob of
       None \<Rightarrow> ret EXIT_FAILURE
     | Some buf \<Rightarrow>
       if fst blob = 0 then ret EXIT_FAILURE else
       bindM (getM (\<lambda>w. (decode_self_test_cmd (wfs w),
           pipe_start E (evs w) (decode_self_test_cmd (wfs w))))) (\<lambda>(cmd, started).
       if \<not> started then ret EXIT_FAILURE else
       bindM (liftM (blob_password buf)) (\<lambda>bytes.
       bindM (\<lambda>w. let (code, F) = pipe_run E (evs w) (wfs w) cmd bytes
                  in (Inr code, w\<lparr>wfs := F, evs := Piped cmd bytes # evs w\<rparr>)) (\<lambda>code.
       if code < 0 then ret EXIT_FAILURE else
       bindM (getM (\<lambda>w. read_file decoded_password_file (wfs w))) (\<lambda>f.
       case f of
         None \<Rightarrow> ret EXIT_FAILURE
       | Some c \<Rightarrow>
           bindM (liftM (memcmp_read (take GMSA_PASSWORD_SIZE test_gmsa_utf8_password)
               (map of_char (take GMSA_PASSWORD_SIZE c)))) (\<lambda>same.
           thenM (modM (\<lambda>w. w\<lparr>wfs := remove_all decoded_password_file (wfs w)\<rparr>))
             (ret (if same then EXIT_SUCCESS else EXIT_FAILURE))))))))"

section \<open>What the helpers compute\<close>

lemma concat_comma:
  "ts \<noteq> [] \<Longrightarrow> concat (map (\<lambda>r. f r @ [c]) ts) = join c (map f ts) @ [c]"
proof (induction ts)
  case (Cons t ts)
  then show ?case by (cases ts) (simp_all add: join_Cons)
qed simp

text \<open>
  \<open>get_base_dn\<close> turns a dotted domain name into its base distinguished name: one \<open>DC=\<close> part per
  label, in order, separated by commas with none at the end.
\<close>
theorem get_base_dn_labels:
  assumes "labels \<noteq> []" and "\<forall>l \<in> set labels. CHR ''.'' \<notin> set l" and "last labels \<noteq> []"
  shows "get_base_dn (join CHR ''.'' labels) =
    Inr (0, join CHR '','' (map (\<lambda>l. ''DC='' @ l) labels))"
proof -
  have "join CHR ''.'' labels \<noteq> []"
    using assms(1,3) by (cases labels; cases "tl labels") (auto simp: join_Cons)
  moreover have "split_string (join CHR ''.'' labels) CHR ''.'' = labels"
    using assms by (simp add: split_string_def getlines_of_join)
  moreover have "concat (map (\<lambda>r. ''DC='' @ r @ '','') labels) =
      join CHR '','' (map (\<lambda>l. ''DC='' @ l) labels) @ '',''"
    using concat_comma [OF assms(1), of "\<lambda>r. ''DC='' @ r" "CHR '',''"] by simp
  ultimately show ?thesis
    by (simp add: get_base_dn_def Let_def pop_back_def)
qed

theorem get_base_dn_labels_witness:
  "get_base_dn ''contoso.com'' = Inr (0, ''DC=contoso,DC=com'')"
  using get_base_dn_labels [of "[''contoso'', ''com'']"] by simp

lemma strip_dots_value:
  "strip_dots ls = (if [] \<in> set ls then Inl (Undef OutOfBounds)
     else Inr (map (\<lambda>l. if last l = CHR ''.'' then butlast l else l) ls))"
  by (induction ls) (auto simp: str_back_def)

text \<open>
  The controllers found by \<open>nslookup\<close>: each output line without its final dot, in order; but an
  empty line makes the routine read the last character of an empty string, which is undefined.
\<close>
theorem get_FQDNs_nslookup:
  assumes "shell_start E (evs w) (c_str (nslookup_cmd d))"
    and "shell_run E (evs w) (wfs w) (c_str (nslookup_cmd d)) = (0, join newline ls @ [newline], F)"
    and "ls \<noteq> []" and "\<forall>l \<in> set ls. newline \<notin> set l \<and> NUL \<notin> set l"
  shows "fst (get_FQDNs E d w) =
    (if [] \<in> set ls then Inl (Undef OutOfBounds)
     else Inr (map (\<lambda>l. if last l = CHR ''.'' then butlast l else l) ls))"
proof -
  have nn: "NUL \<notin> set (join newline ls)"
    using assms(3,4) by (induction newline ls rule: join.induct) (auto simp: newline_def NUL_def)
  have "getlines newline (join newline ls @ [newline]) = ls"
    using assms(3,4)
  proof (induction ls)
    case (Cons l ls)
    then show ?case by (cases ls) (simp_all add: join_Cons getlines_Cons)
  qed simp
  then have "split_string (join newline ls @ [newline]) newline = ls"
    by (simp add: split_string_def newline_def)
  moreover have "read_output (join newline ls @ [newline]) = join newline ls @ [newline]"
    using nn by (intro read_output_text) (simp add: newline_def NUL_def)
  ultimately show ?thesis using assms(1,2)
    by (simp add: get_FQDNs_def exec_shell_cmd_def Let_def strip_dots_value bindM_apply)
qed

definition dns_env :: "string \<Rightarrow> env" where
  "dns_env out = quiet_env\<lparr>shell_run := (\<lambda>_ F _. (0, out, F))\<rparr>"

theorem get_FQDNs_nslookup_witness:
  "fst (get_FQDNs (dns_env (''dc1.contoso.com.'' @ [newline])) ''contoso.com'' start_world) =
     Inr [''dc1.contoso.com'']"
proof -
  let ?E = "dns_env (''dc1.contoso.com.'' @ [newline])"
  have "shell_start ?E (evs start_world) (c_str (nslookup_cmd ''contoso.com''))"
    and "shell_run ?E (evs start_world) (wfs start_world) (c_str (nslookup_cmd ''contoso.com'')) =
      (0, join newline [''dc1.contoso.com.''] @ [newline], wfs start_world)"
    and "[''dc1.contoso.com.''] \<noteq> []"
    and "\<forall>l \<in> set [''dc1.contoso.com.'']. newline \<notin> set l \<and> NUL \<notin> set l"
    by (simp_all add: dns_env_def quiet_env_def newline_def NUL_def)
  from get_FQDNs_nslookup [OF this] show ?thesis by simp
qed

text \<open>
  The retry of \<open>execute_ldapsearch\<close> does not repeat the search: when the first run fails, what
  is run next is the command with the failed run's output appended to it.
\<close>
theorem ldapsearch_retry_command:
  assumes "shell_start E (evs w) (c_str (ldapsearch_cmd dn fqdn ss))"
    and "shell_run E (evs w) (wfs w) (c_str (ldapsearch_cmd dn fqdn ss)) = (code, out, F)"
    and "code \<noteq> 0"
  shows "\<exists>r w'. execute_ldapsearch E dn fqdn ss w = (Inr r, w') \<and>
    evs w' = Ran (c_str (ldapsearch_cmd dn fqdn ss @ read_output out)) #
             Ran (c_str (ldapsearch_cmd dn fqdn ss)) # evs w"
proof -
  let ?c = "ldapsearch_cmd dn fqdn ss"
  let ?w = "w\<lparr>wfs := F, evs := Ran (c_str ?c) # evs w\<rparr>"
  have 1: "exec_shell_cmd E ?c w = (Inr (code, read_output out), ?w)"
    using assms by (simp add: exec_shell_cmd_def Let_def)
  obtain r2 w2 where 2: "exec_shell_cmd E (?c @ read_output out) ?w = (Inr r2, w2)"
    using exec_shell_cmd_returns by blast
  then have "evs w2 = Ran (c_str (?c @ read_output out)) # evs ?w"
    by (auto simp: exec_shell_cmd_def Let_def split: if_splits prod.splits)
  with 1 2 assms(3) show ?thesis
    by (auto simp: execute_ldapsearch_def numeral_2_eq_2 Let_def getCurrentTime_def bindM_apply)
qed

definition failing_env :: "string \<Rightarrow> env" where
  "failing_env out = quiet_env\<lparr>shell_run := (\<lambda>_ F _. (256, out, F))\<rparr>"

theorem ldapsearch_retry_command_witness:
  "\<exists>r w'. execute_ldapsearch (failing_env ''; x'') ''DC=c'' ''dc1'' [] start_world = (Inr r, w') \<and>
    evs w' = [Ran (c_str (ldapsearch_cmd ''DC=c'' ''dc1'' [] @ read_output ''; x'')),
              Ran (c_str (ldapsearch_cmd ''DC=c'' ''dc1'' []))]"
proof -
  have "shell_start (failing_env ''; x'') (evs start_world) (c_str (ldapsearch_cmd ''DC=c'' ''dc1'' []))"
    and "shell_run (failing_env ''; x'') (evs start_world) (wfs start_world)
        (c_str (ldapsearch_cmd ''DC=c'' ''dc1'' [])) = (256, ''; x'', wfs start_world)"
    and "(256 :: int) \<noteq> 0"
    by (simp_all add: failing_env_def quiet_env_def)
  from ldapsearch_retry_command [OF this] show ?thesis by (simp add: start_world_def)
qed

lemma find_password_text_hit:
  assumes "find_sub password_marker (pre @ password_marker @ suf) = Some (length pre)"
    and "CHR ''#'' \<notin> set (pre @ password_marker @ suf)"
  shows "find_password_text (split_string (pre @ password_marker @ suf @ ''#'' @ rest) CHR ''#'') =
    (case suf of [] \<Rightarrow> Inl (Throw Out_of_range) | _ # b64 \<Rightarrow> Inr (Some b64))"
proof -
  let ?t = "pre @ password_marker @ suf"
  have "getlines CHR ''#'' (?t @ CHR ''#'' # rest) = ?t # getlines CHR ''#'' rest"
    by (rule getlines_Cons [OF assms(2)])
  then have "split_string (pre @ password_marker @ suf @ ''#'' @ rest) CHR ''#'' =
      ?t # getlines CHR ''#'' rest"
    by (simp add: split_string_def)
  then show ?thesis using assms(1) by (cases suf) (simp_all add: substr_n_def)
qed

text \<open>
  \<open>find_password\<close> hands the text after the marker and one separator, up to the first \<open>#\<close>, to the
  base64 decoder and returns what it decodes with its length; a result that ends right after the
  marker throws instead of reporting that there is no password.
\<close>
theorem find_password_extracts:
  assumes "find_sub password_marker (pre @ password_marker @ suf) = Some (length pre)"
    and "CHR ''#'' \<notin> set (pre @ password_marker @ suf)"
    and "openssl_malloc E (evs w) = (\<lambda>_. True)"
  shows "find_password E (pre @ password_marker @ suf @ ''#'' @ rest) w =
    (case suf of
       [] \<Rightarrow> (Inl (Throw Out_of_range), w)
     | _ # b64 \<Rightarrow> (Inr (case (if b64 = [] then None else g_base64_decode E (c_str b64)) of
           None \<Rightarrow> (0, None)
         | Some buf \<Rightarrow> if buf = [] then (0, None) else (length buf, Some buf)), w))"
  using find_password_text_hit [OF assms(1,2), of rest] assms(3)
  by (cases suf) (auto simp: find_password_def bindM_apply base64_decode_def split: option.splits)

theorem find_password_extracts_witness:
  "find_password (quiet_env\<lparr>g_base64_decode := Some\<rparr>) (''msDS-ManagedPassword:: AQAA#'') start_world =
     (Inr (4, Some ''AQAA''), start_world)"
proof -
  let ?E = "quiet_env\<lparr>g_base64_decode := Some\<rparr>"
  have "find_sub password_marker ([] @ password_marker @ '' AQAA'') = Some (length ([] :: string))"
    and "CHR ''#'' \<notin> set ([] @ password_marker @ '' AQAA'')"
    and "openssl_malloc ?E (evs start_world) = (\<lambda>_. True)"
    by (simp_all add: password_marker_def quiet_env_def)
  from find_password_extracts [OF this, of "[]"] show ?thesis
    by (simp add: password_marker_def c_str_def NUL_def)
qed

section \<open>What the directory routines keep\<close>

context host_inv begin

lemma keeps_time: "keeps I (getCurrentTime E)"
  unfolding getCurrentTime_def by (rule keeps_getM)

lemma keeps_secret: "keeps I (get_secret_from_secrets_manager J E s)"
  unfolding get_secret_from_secrets_manager_def by (intro keeps_intros keeps_shell)

lemma keeps_base_dn_secret: "keeps I (get_base_dn_from_secret J E s)"
  unfolding get_base_dn_from_secret_def by (intro keeps_intros keeps_secret)

lemma keeps_fqdns: "keeps I (get_FQDN_list E d)"
  unfolding get_FQDN_list_def get_FQDNs_def by (intro keeps_intros keeps_shell keeps_ecs)

lemma keeps_ldap_tries: "keeps I (ldap_tries E n c r)"
  by (induction n arbitrary: c r)
     (auto simp: Let_def intro!: keeps_intros keeps_shell keeps_time)

lemma keeps_ldapsearch: "keeps I (execute_ldapsearch E d f s)"
  unfolding execute_ldapsearch_def by (rule keeps_ldap_tries)

lemma keeps_find_dn: "keeps I (find_dn E a b f)"
  unfolding find_dn_def by (intro keeps_intros keeps_ldapsearch)

lemma keeps_find_password: "keeps I (find_password E s)"
  unfolding find_password_def base64_decode_def by (intro keeps_intros)

end

end
