(* ===== verification/Util_Ticket.thy ===== *)
theory Util_Ticket
  imports Util_Ldap
begin

text \<open>
  The ticket part of \<open>class Util\<close> (common/util.hpp): the machine principal of a domain-joined host and
  its \<open>kinit\<close>, and the two ways to a user's ticket through the built-in Kerberos client of
  \<open>Kinit_Main\<close>, with the account of the secret store or with one the caller gives.
\<close>

section \<open>The built-in client\<close>

text \<open>
  \<open>my_kinit_main( 2, kinit_argv )\<close> with \<open>username\<close> and \<open>password\<close> as arguments. The client's state is
  fresh; its static buffers hold nothing of an earlier run.
\<close>

definition call_my_kinit :: "env \<Rightarrow> string \<Rightarrow> string \<Rightarrow> int WM" where
  "call_my_kinit E username password = (\<lambda>w.
     (fst (my_kinit_main (krb5lib E (evs w)) (c_str username) (c_str password) init_kst),
      w\<lparr>evs := Kinit_as (c_str username) (c_str password) # evs w\<rparr>))"

definition execute_kinit_in_domain_joined_case :: "env \<Rightarrow> string \<Rightarrow> (int \<times> string) WM" where
  "execute_kinit_in_domain_joined_case E principal_arg =
     exec_shell_cmd E (''kinit -kt /etc/krb5.keytab '' @ upcase principal_arg)"

text \<open>\<open>root["a"].asString()\<close>, or when it is empty \<open>root["b"].asString()\<close>.\<close>

definition string_or :: "'j jsonlib \<Rightarrow> 'j \<Rightarrow> string \<Rightarrow> string \<Rightarrow> string WM" where
  "string_or J root a b =
     bindM (liftE (string_member J root a)) (\<lambda>s.
       if s = [] then liftE (string_member J root b) else ret s)"

definition generate_krb_ticket_using_secret_vault ::
    "'j jsonlib \<Rightarrow> env \<Rightarrow> string \<Rightarrow> string \<Rightarrow> (int \<times> string) WM" where
  "generate_krb_ticket_using_secret_vault J E domain_name aws_sm_secret_name =
     bindM (check_util_binaries_permissions E) (\<lambda>result.
     if fst result \<noteq> 0 then ret result else
     bindM (get_secret_from_secrets_manager J E aws_sm_secret_name) (\<lambda>root.
     if is_null J root then ret (-1, ''ERROR: username and password not found in secret'') else
     bindM (string_or J root ''username'' ''usernameOfStandardUserAccount'') (\<lambda>username.
     bindM (string_or J root ''password'' ''passwordOfStandardUserAccount'') (\<lambda>password.
     bindM (string_or J root ''distinguishedName'' ''distinguishedNameOfgMSA'') (\<lambda>distinguished_name.
     thenM (whenM (distinguished_name \<noteq> [])
         (logger E LOG_ERR (''[Optional] DN from Secrets Manager = '' @ distinguished_name)))
    (bindM (call_my_kinit E (username @ ''@'' @ upcase domain_name) password) (\<lambda>r.
     thenM (clearString (username @ ''@'' @ upcase domain_name))
    (thenM (clearString password)
       (ret (r, distinguished_name))))))))))"

definition generate_krb_ticket_using_username_and_password ::
    "env \<Rightarrow> string \<Rightarrow> string \<Rightarrow> string \<Rightarrow> (int \<times> string) WM" where
  "generate_krb_ticket_using_username_and_password E domain_name username password =
     bindM (is_kinit_cmd_present E) (\<lambda>k.
     if fst k \<noteq> 0 then thenM (logger E LOG_ERR (snd k)) (ret k) else
     bindM (is_ldapsearch_cmd_present E) (\<lambda>l.
     if fst l \<noteq> 0 then thenM (logger E LOG_ERR (snd l)) (ret l) else
     bindM (call_my_kinit E (username @ ''@'' @ upcase domain_name) password) (\<lambda>r.
     thenM (clearString (username @ ''@'' @ upcase domain_name))
    (thenM (clearString password)
       (ret (r, []))))))"

section \<open>The machine principal\<close>

definition HOST_NAME_LENGTH_LIMIT :: nat where "HOST_NAME_LENGTH_LIMIT = 15"

text \<open>\<open>s.substr( 0, s.find( '.' ) )\<close>, all of \<open>s\<close> when there is no dot.\<close>

definition short_hostname :: "string \<Rightarrow> string" where
  "short_hostname s = (case find_char CHR ''.'' s of None \<Rightarrow> s | Some i \<Rightarrow> take i s)"

definition hostname_warning :: string where
  "hostname_warning = ''WARNING: get_machine_principal : 965 hostname exceeds 15 characters, this '' @
     ''can cause problems in getting kerberos tickets, please reduce hostname length''"

definition get_machine_principal :: "env \<Rightarrow> string \<Rightarrow> (int \<times> string) WM" where
  "get_machine_principal E domain_name =
     (if fst (gethostname E) \<noteq> 0 then ret (fst (gethostname E), []) else
      bindM (get_realm_name E) (\<lambda>realm_name_result.
      if fst realm_name_result \<noteq> 0 then ret realm_name_result else
      bindM (check_domain_name E domain_name) (\<lambda>domain_name_result.
      if fst domain_name_result \<noteq> 0 then ret domain_name_result else
      let host_name = short_hostname (c_str (snd (gethostname E))) in
      thenM (whenM (HOST_NAME_LENGTH_LIMIT < length host_name) (logger E LOG_ERR hostname_warning))
        (ret (0, squote @ take HOST_NAME_LENGTH_LIMIT host_name @ ''$@'' @ squote @
                 snd realm_name_result)))))"

section \<open>Their results\<close>

lemma short_hostname_no_dot: "CHR ''.'' \<notin> set (short_hostname s)"
  by (auto simp: short_hostname_def find_char_Some split: option.splits)

text \<open>The client's status seen by its callers: 0 or 1, never negative.\<close>

lemma call_my_kinit_code: "call_my_kinit E u p w = (Inr r, w') \<Longrightarrow> r = 0 \<or> r = 1"
  by (cases "my_kinit_main (krb5lib E (evs w)) (c_str u) (c_str p) init_kst")
     (auto simp: call_my_kinit_def dest: my_kinit_main_codes)

text \<open>A principal of 256 bytes and more does not fit the client's static buffer.\<close>

lemma call_my_kinit_overflow:
  assumes "256 \<le> length (c_str u)"
  shows "call_my_kinit E u p w = (Inl (Undef BufferOverflow), w\<lparr>evs := Kinit_as (c_str u) (c_str p) # evs w\<rparr>)"
proof -
  from assms show ?thesis
    by (simp add: call_my_kinit_def my_kinit_main_def bindM_def strncpy_all_def UDATA_SIZE_def)
qed

text \<open>
  Failure of the built-in client is not negative: once both tools are found, the ticket
  routine for a user name and password reports 0 or 1, so a caller's test \<open>status.first < 0\<close> takes
  every refusal of the Kerberos server for success.
\<close>
theorem username_and_password_codes:
  assumes "is_kinit_cmd_present E w = (Inr (0, k), w1)" and "is_ldapsearch_cmd_present E w1 = (Inr (0, l), w2)"
    and "generate_krb_ticket_using_username_and_password E d u p w = (Inr status, w')"
  shows "fst status \<in> {0, 1} \<and> \<not> fst status < 0"
proof -
  from assms obtain r w3 where "call_my_kinit E (u @ ''@'' @ upcase d) p w2 = (Inr r, w3)" and
    "status = (r, [])"
    by (auto simp: generate_krb_ticket_using_username_and_password_def bindM_def clearString_then
        split: prod.splits sum.splits)
  with call_my_kinit_code show ?thesis by fastforce
qed

text \<open>
  The built-in client is run as the user at the upper-cased domain, and a principal
  longer than 255 bytes overruns the client's fixed buffer. When the client returns, the routine's
  copies of the principal and of the password are wiped.
\<close>
theorem username_and_password_principal:
  assumes "is_kinit_cmd_present E w = (Inr (0, k), w1)" and "is_ldapsearch_cmd_present E w1 = (Inr (0, l), w2)"
    and "NUL \<notin> set u" and "NUL \<notin> set d" and "NUL \<notin> set p"
  shows "evs (snd (generate_krb_ticket_using_username_and_password E d u p w)) =
      (case fst (generate_krb_ticket_using_username_and_password E d u p w) of
         Inl _ \<Rightarrow> [] | Inr _ \<Rightarrow> map Wiped (filter (\<lambda>s. s \<noteq> []) [p, u @ ''@'' @ upcase d])) @
      Kinit_as (u @ ''@'' @ upcase d) p # evs w2 \<and>
    (255 < length u + 1 + length d \<longrightarrow>
      fst (generate_krb_ticket_using_username_and_password E d u p w) = Inl (Undef BufferOverflow))"
proof -
  let ?n = "u @ ''@'' @ upcase d"
  have up: "toupper c \<noteq> NUL" if "c \<noteq> NUL" for c
    using that by (auto simp: toupper_def Let_def NUL_def char_of_eq_iff take_bit_nat_eq_self)
  have "NUL \<notin> set (upcase d)" using assms(4) up unfolding upcase_def by (metis (no_types, lifting) imageE set_map)
  then have "NUL \<notin> set ?n" using assms(3) by (simp add: NUL_def)
  then have n: "c_str ?n = ?n" by (rule c_str_id)
  note n = n [simplified]
  have p: "c_str p = p" using assms(5) by (rule c_str_id)
  have r: "generate_krb_ticket_using_username_and_password E d u p w =
      bindM (call_my_kinit E ?n p) (\<lambda>r. thenM (clearString ?n) (thenM (clearString p) (ret (r, [])))) w2"
    using assms(1,2) by (simp add: generate_krb_ticket_using_username_and_password_def)
  have "evs (snd (call_my_kinit E ?n p w2)) = Kinit_as ?n p # evs w2"
    by (simp add: call_my_kinit_def n p)
  moreover have "fst (call_my_kinit E ?n p w2) = Inl (Undef BufferOverflow)"
    if "255 < length u + 1 + length d"
    using call_my_kinit_overflow [of ?n E p w2] that by (simp add: n)
  ultimately show ?thesis unfolding r
    by (cases "call_my_kinit E ?n p w2"; cases "fst (call_my_kinit E ?n p w2)")
       (auto simp: clearString_then)
qed

text \<open>
  On a domain-joined host whose realm command prints \<open>realm\<close> and whose domain is accepted, the
  machine principal is the quoted short host name, cut to Active Directory's 15 characters, and
  the realm.
\<close>
theorem machine_principal_format:
  assumes "gethostname E = (0, h)"
    and "get_realm_name E w = (Inr (0, realm), w1)"
    and "check_domain_name E d w1 = (Inr (0, dm), w2)"
    and "log_writable E" and "log_ok w2"
  shows "\<exists>host w'. get_machine_principal E d w = (Inr (0, squote @ host @ ''$@'' @ squote @ realm), w') \<and>
    length host \<le> 15 \<and> CHR ''.'' \<notin> set host \<and>
    (\<exists>rest. c_str h = host @ rest \<and> (length host < 15 \<longrightarrow> rest = [] \<or> hd rest = CHR ''.''))"
proof -
  let ?s = "short_hostname (c_str h)"
  let ?h = "take 15 ?s"
  obtain w' where l: "whenM (15 < length ?s) (logger E LOG_ERR hostname_warning) w2 = (Inr (), w')"
    using runsD [OF runs_logger [OF assms(4), of "\<lambda>_. True" LOG_ERR hostname_warning], of w2] assms(5)
    by (cases "15 < length ?s") (auto simp: whenM_def)
  have g: "get_machine_principal E d w = (Inr (0, squote @ ?h @ ''$@'' @ squote @ realm), w')"
    using assms(1-3) l by (simp add: get_machine_principal_def HOST_NAME_LENGTH_LIMIT_def Let_def)
  have dot: "CHR ''.'' \<notin> set ?h" using short_hostname_no_dot by (blast dest: in_set_takeD)
  have "\<exists>rest. c_str h = ?h @ rest \<and> (length ?h < 15 \<longrightarrow> rest = [] \<or> hd rest = CHR ''.'')"
  proof (cases "find_char CHR ''.'' (c_str h)")
    case None
    then have s: "?s = c_str h" by (simp only: short_hostname_def option.case)
    show ?thesis by (rule exI [of _ "drop 15 (c_str h)"]) (simp add: s)
  next
    case (Some i)
    then have s: "?s = take i (c_str h)" by (simp add: short_hostname_def)
    from find_char_Some [OF Some] have "i < length (c_str h)" "c_str h ! i = CHR ''.''" by simp_all
    then show ?thesis
      by (intro exI [of _ "drop (min 15 i) (c_str h)"]) (auto simp: s hd_drop_conv_nth min_def)
  qed
  with g dot show ?thesis by (intro exI [of _ ?h] exI [of _ w']) auto
qed

section \<open>A host with the tools installed\<close>

definition tools_world :: world where
  "tools_world = start_world\<lparr>wfs := map (\<lambda>n. ([n], new_file []))
     [''kinit'', ''ldapsearch'', ''hostname'', ''realm'']\<rparr>"

definition tools_env :: env where
  "tools_env = quiet_env\<lparr>
     shell_run := (\<lambda>_ F c. (0, if take 6 c = ''which '' then ''/'' @ drop 6 c @ [newline]
        else if c = c_str realm_list_cmd then ''CONTOSO.COM''
        else if c = c_str domain_list_cmd then ''contoso.com'' else [], F)),
     gethostname := (0, ''EC2AMAZ-8L8GWS9X.contoso.com'')\<rparr>"

lemma tools_found:
  "is_kinit_cmd_present tools_env tools_world =
     (Inr (0, ''/kinit''), tools_world\<lparr>evs := [Ran ''which kinit'']\<rparr>)"
  "is_ldapsearch_cmd_present tools_env (tools_world\<lparr>evs := [Ran ''which kinit'']\<rparr>) =
     (Inr (0, ''/ldapsearch''), tools_world\<lparr>evs := [Ran ''which ldapsearch'', Ran ''which kinit'']\<rparr>)"
proof -
  have run: "exec_shell_cmd tools_env (''which '' @ n) w =
      (Inr (0, ''/'' @ n @ [newline]), w\<lparr>evs := Ran (''which '' @ n) # evs w\<rparr>)"
    if "NUL \<notin> set (''which '' @ n)" for n w
  proof -
    have "c_str (''which '' @ n) = ''which '' @ n"
      using that by (rule c_str_id)
    moreover have "read_output (''/'' @ n @ [newline]) = ''/'' @ n @ [newline]"
      using that by (intro read_output_text) (auto simp: NUL_def newline_def)
    ultimately show ?thesis
      by (simp add: exec_shell_cmd_def tools_env_def quiet_env_def Let_def)
  qed
  have ok: "root_owned (map (\<lambda>n. ([n], new_file [])) [''kinit'', ''ldapsearch'', ''hostname'', ''realm'']) ''/kinit''"
    "root_owned (map (\<lambda>n. ([n], new_file [])) [''kinit'', ''ldapsearch'', ''hostname'', ''realm'']) ''/ldapsearch''"
    unfolding root_owned_def
    by (rule exI [of _ "new_file []"], code_simp)+
  have t: "rtrim (''/kinit'' @ [newline]) = ''/kinit''" "rtrim (''/ldapsearch'' @ [newline]) = ''/ldapsearch''"
    by (simp_all add: rtrim_def newline_def isspace_def)
  show "is_kinit_cmd_present tools_env tools_world =
     (Inr (0, ''/kinit''), tools_world\<lparr>evs := [Ran ''which kinit'']\<rparr>)"
    using run [of "''kinit''" tools_world] t ok
    by (simp add: is_kinit_cmd_present_def tools_world_def start_world_def NUL_def)
  show "is_ldapsearch_cmd_present tools_env (tools_world\<lparr>evs := [Ran ''which kinit'']\<rparr>) =
     (Inr (0, ''/ldapsearch''), tools_world\<lparr>evs := [Ran ''which ldapsearch'', Ran ''which kinit'']\<rparr>)"
    using run [of "''ldapsearch''" "tools_world\<lparr>evs := [Ran ''which kinit'']\<rparr>"] t ok
    by (simp add: is_ldapsearch_cmd_present_def tools_world_def start_world_def NUL_def)
qed

lemma alice_ticket:
  "fst (generate_krb_ticket_using_username_and_password tools_env ''contoso.com'' ''alice'' ''pw'' tools_world)
     = Inr (0, [])"
proof -
  have "fst (my_kinit_main ok_krb5 (c_str (''alice'' @ ''@'' @ upcase ''contoso.com'')) (c_str ''pw'') init_kst) = Inr 0"
    by code_simp
  then have "call_my_kinit tools_env (''alice'' @ ''@'' @ upcase ''contoso.com'') ''pw'' w =
      (Inr 0, w\<lparr>evs := Kinit_as (c_str (''alice'' @ ''@'' @ upcase ''contoso.com'')) (c_str ''pw'') # evs w\<rparr>)" for w
    by (simp add: call_my_kinit_def tools_env_def quiet_env_def)
  with tools_found show ?thesis
    by (simp add: generate_krb_ticket_using_username_and_password_def clearString_then)
qed

theorem username_and_password_codes_witness:
  "fst (generate_krb_ticket_using_username_and_password tools_env ''contoso.com'' ''alice'' ''pw'' tools_world)
     = Inr (0, []) \<and> fst (0 :: int, [] :: string) \<in> {0, 1}"
proof -
  from alice_ticket obtain w' where "generate_krb_ticket_using_username_and_password tools_env ''contoso.com''
      ''alice'' ''pw'' tools_world = (Inr (0, []), w')"
    by (metis prod.collapse)
  from username_and_password_codes [OF tools_found this] alice_ticket show ?thesis by simp
qed

theorem username_and_password_principal_witness:
  "evs (snd (generate_krb_ticket_using_username_and_password tools_env ''contoso.com'' ''alice'' ''pw''
     tools_world)) = [Wiped ''pw'', Wiped ''alice@CONTOSO.COM'', Kinit_as ''alice@CONTOSO.COM'' ''pw'',
       Ran ''which ldapsearch'', Ran ''which kinit'']"
proof -
  have "NUL \<notin> set ''alice''" "NUL \<notin> set ''contoso.com''" "NUL \<notin> set ''pw''" by (simp_all add: NUL_def)
  from username_and_password_principal [OF tools_found this]
  have "evs (snd (generate_krb_ticket_using_username_and_password tools_env ''contoso.com'' ''alice'' ''pw''
     tools_world)) = map Wiped (filter (\<lambda>s. s \<noteq> []) [''pw'', ''alice'' @ ''@'' @ upcase ''contoso.com'']) @
       [Kinit_as (''alice'' @ ''@'' @ upcase ''contoso.com'') ''pw'', Ran ''which ldapsearch'', Ran ''which kinit'']"
    unfolding alice_ticket by simp
  moreover have "upcase ''contoso.com'' = ''CONTOSO.COM''" by code_simp
  ultimately show ?thesis by simp
qed

theorem machine_principal_format_witness:
  "\<exists>host w'. get_machine_principal tools_env ''contoso.com'' tools_world =
     (Inr (0, squote @ host @ ''$@'' @ squote @ ''CONTOSO.COM''), w') \<and> length host \<le> 15"
proof -
  have e: "exec_shell_cmd tools_env realm_list_cmd tools_world =
      (Inr (0, ''CONTOSO.COM''), tools_world\<lparr>evs := [Ran realm_list_cmd]\<rparr>)"
    and e2: "exec_shell_cmd tools_env domain_list_cmd (tools_world\<lparr>evs := [Ran realm_list_cmd]\<rparr>) =
      (Inr (0, ''contoso.com''), tools_world\<lparr>evs := [Ran domain_list_cmd, Ran realm_list_cmd]\<rparr>)"
  proof -
    have c: "c_str realm_list_cmd = realm_list_cmd" "c_str domain_list_cmd = domain_list_cmd"
      "take 6 realm_list_cmd \<noteq> ''which ''" "take 6 domain_list_cmd \<noteq> ''which ''"
      "domain_list_cmd \<noteq> realm_list_cmd"
      "read_output ''CONTOSO.COM'' = ''CONTOSO.COM''" "read_output ''contoso.com'' = ''contoso.com''"
      by code_simp+
    then show "exec_shell_cmd tools_env realm_list_cmd tools_world =
        (Inr (0, ''CONTOSO.COM''), tools_world\<lparr>evs := [Ran realm_list_cmd]\<rparr>)"
      and "exec_shell_cmd tools_env domain_list_cmd (tools_world\<lparr>evs := [Ran realm_list_cmd]\<rparr>) =
        (Inr (0, ''contoso.com''), tools_world\<lparr>evs := [Ran domain_list_cmd, Ran realm_list_cmd]\<rparr>)"
      by (simp_all add: exec_shell_cmd_def tools_env_def quiet_env_def tools_world_def start_world_def
          del: read_output.simps)
  qed
  have 1: "get_realm_name tools_env tools_world =
      (Inr (0, ''CONTOSO.COM''), tools_world\<lparr>evs := [Ran realm_list_cmd]\<rparr>)"
    using e by (simp add: get_realm_name_def)
  have 2: "check_domain_name tools_env ''contoso.com'' (tools_world\<lparr>evs := [Ran realm_list_cmd]\<rparr>) =
      (Inr (0, ''contoso.com''), tools_world\<lparr>evs := [Ran domain_list_cmd, Ran realm_list_cmd]\<rparr>)"
    using e2 by (simp add: check_domain_name_def)
  have 3: "gethostname tools_env = (0, ''EC2AMAZ-8L8GWS9X.contoso.com'')"
    "log_writable tools_env" "log_ok (tools_world\<lparr>evs := [Ran domain_list_cmd, Ran realm_list_cmd]\<rparr>)"
    by (simp_all add: tools_env_def quiet_env_def tools_world_def start_world_def log_ok_def
        init_logger_def log_ring_size_def)
  from machine_principal_format [OF 3(1) 1 2 3(2,3)] show ?thesis by blast
qed

section \<open>What the ticket routines keep\<close>

context host_inv begin

lemma keeps_my_kinit: "keeps I (call_my_kinit E u p)"
  by (simp add: keeps_def call_my_kinit_def host_event)

lemma keeps_joined_kinit: "keeps I (execute_kinit_in_domain_joined_case E p)"
  unfolding execute_kinit_in_domain_joined_case_def by (rule keeps_exec_shell_cmd)

lemma keeps_string_or: "keeps I (string_or J root a b)"
  unfolding string_or_def by (intro keeps_intros)

lemma keeps_vault_ticket: "keeps I (generate_krb_ticket_using_secret_vault J E d s)"
  unfolding generate_krb_ticket_using_secret_vault_def
  by (intro keeps_intros keeps_tools keeps_secret keeps_string_or keeps_logger keeps_my_kinit keeps_clear)

lemma keeps_user_ticket: "keeps I (generate_krb_ticket_using_username_and_password E d u p)"
  unfolding generate_krb_ticket_using_username_and_password_def
  by (intro keeps_intros keeps_tools keeps_logger keeps_my_kinit keeps_clear)

lemma keeps_machine_principal: "keeps I (get_machine_principal E d)"
  unfolding get_machine_principal_def Let_def by (intro keeps_intros keeps_realm keeps_logger)

end

end
