(* ===== verification/Metadata.thy ===== *)
theory Metadata
  imports Util_Ldap
begin

text \<open>
  The metadata module (metadata/src/metadata.cpp) and the two records of common/daemon.h that
  describe a ticket: the character blacklists of the daemon, and the JSON file kept beside the
  tickets of a lease, written once when they are created and read when they are renewed or deleted.
\<close>

section \<open>Tickets\<close>

record krb_ticket_info =
  krb_file_path :: string
  service_account_name :: string
  domain_name :: string
  domainless_user :: string
  credspec_info :: string
  distinguished_name :: string
  credential_arn :: string

definition new_krb_ticket_info :: krb_ticket_info where
  "new_krb_ticket_info = \<lparr>krb_file_path = [], service_account_name = [], domain_name = [],
     domainless_user = [], credspec_info = [], distinguished_name = [], credential_arn = []\<rparr>"

record krb_ticket_arn_mapping =
  arn_krb_file_path :: string
  credential_spec_arn :: string
  credential_domainless_user_arn :: string

definition new_krb_ticket_arn_mapping :: krb_ticket_arn_mapping where
  "new_krb_ticket_arn_mapping =
     \<lparr>arn_krb_file_path = [], credential_spec_arn = [], credential_domainless_user_arn = []\<rparr>"

section \<open>Blacklists\<close>

text \<open>The loop over the characters, left at the first one the string contains.\<close>

fun contains_any :: "char list \<Rightarrow> string \<Rightarrow> bool" where
  "contains_any [] value = False"
| "contains_any (ch # chs) value = (if find_char ch value \<noteq> None then True else contains_any chs value)"

lemma contains_any_iff: "contains_any chs s \<longleftrightarrow> (\<exists>c \<in> set s. c \<in> set chs)"
  by (induction chs) auto

text \<open>
  The contract of the three validators: membership of a fixed list decides. What a client needs
  follows once: a clean string has only clean parts, and clean parts make a clean whole.
\<close>

locale blacklist =
  fixes bad :: "char list" and dirty :: "string \<Rightarrow> bool"
  assumes dirty_iff: "dirty s \<longleftrightarrow> (\<exists>c \<in> set s. c \<in> set bad)"
begin

lemma clean_empty: "\<not> dirty []"
  by (simp add: dirty_iff)

lemma dirty_append: "dirty (s @ t) \<longleftrightarrow> dirty s \<or> dirty t"
  by (auto simp: dirty_iff)

lemma clean_char: "\<not> dirty s \<Longrightarrow> c \<in> set s \<Longrightarrow> c \<notin> set bad"
  by (auto simp: dirty_iff)

lemma dirty_mono: "set s \<subseteq> set t \<Longrightarrow> dirty s \<Longrightarrow> dirty t"
  by (auto simp: dirty_iff)

end

definition invalid_path_characters :: "char list" where
  "invalid_path_characters = [CHR ''&'', CHR '':'', CHR 0x5C, CHR ''|'', CHR ''*'', CHR ''?'', CHR ''<'',
     CHR ''>'', CHR 0x60, CHR ''$'', CHR ''{'', CHR ''}'', CHR ''('', CHR '')'', CHR 0x22, CHR '';'']"

definition contains_invalid_characters :: "string \<Rightarrow> bool" where
  "contains_invalid_characters path = contains_any invalid_path_characters path"

interpretation pathbl: blacklist invalid_path_characters contains_invalid_characters
  by unfold_locales (simp add: contains_invalid_characters_def contains_any_iff)

section \<open>Reading\<close>

datatype read_step = Stop | Skip | Add krb_ticket_info

text \<open>\<open>v[k].asString()\<close> when \<open>v.isMember( k )\<close>, else what was there.\<close>

definition optional_string :: "'j jsonlib \<Rightarrow> 'j \<Rightarrow> string \<Rightarrow> string \<Rightarrow> cpp_exn + string" where
  "optional_string J v k old =
     bindE (is_member J v k) (\<lambda>m. if m then string_member J v k else Inr old)"

definition read_ticket :: "'j jsonlib \<Rightarrow> fs \<Rightarrow> 'j \<Rightarrow> cpp_exn + read_step" where
  "read_ticket J F krb_info =
     bindE (string_member J krb_info ''krb_file_path'') (\<lambda>path.
     if contains_invalid_characters path then Inr Stop
     else if fs_exists F path then
       bindE (string_member J krb_info ''service_account_name'') (\<lambda>san.
       bindE (string_member J krb_info ''domain_name'') (\<lambda>dn.
       bindE (string_member J krb_info ''domainless_user'') (\<lambda>du.
       bindE (optional_string J krb_info ''distinguished_name'' []) (\<lambda>dist.
       bindE (optional_string J krb_info ''credspec_info'' []) (\<lambda>ci.
         Inr (Add (new_krb_ticket_info\<lparr>krb_file_path := path, service_account_name := san,
           domain_name := dn, domainless_user := du, distinguished_name := dist,
           credspec_info := ci\<rparr>)))))))
     else Inr Skip)"

text \<open>The loop: an exception or an unclean path ends it, with the tickets collected so far.\<close>

fun read_tickets :: "'j jsonlib \<Rightarrow> fs \<Rightarrow> 'j list \<Rightarrow> krb_ticket_info list" where
  "read_tickets J F [] = []"
| "read_tickets J F (v # vs) =
     (case read_ticket J F v of
        Inl e \<Rightarrow> []
      | Inr Stop \<Rightarrow> []
      | Inr Skip \<Rightarrow> read_tickets J F vs
      | Inr (Add t) \<Rightarrow> t # read_tickets J F vs)"

definition read_meta_data_json :: "'j jsonlib \<Rightarrow> string \<Rightarrow> krb_ticket_info list WM" where
  "read_meta_data_json J file_path = getM (\<lambda>w.
     if file_path = [] then [] else
     case read_file file_path (wfs w) of
       None \<Rightarrow> []
     | Some text \<Rightarrow>
         (case bindE (read_stream J text) (\<lambda>root. member J root ''krb_ticket_info'') of
            Inl e \<Rightarrow> []
          | Inr child \<Rightarrow> read_tickets J (wfs w) (elements J child)))"

section \<open>Writing\<close>

definition meta_file_name :: "string \<Rightarrow> string" where
  "meta_file_name lease_id = lease_id @ ''_metadata.json''"

definition meta_file_path :: "string \<Rightarrow> string \<Rightarrow> string" where
  "meta_file_path krb_files_dir lease_id =
     krb_files_dir @ ''/'' @ lease_id @ ''/'' @ meta_file_name lease_id"

text \<open>\<open>path.parent_path()\<close>: the path before the last slash.\<close>

definition parent_path :: "string \<Rightarrow> string" where
  "parent_path p = rev (drop 1 (dropWhile (\<lambda>c. c \<noteq> CHR ''/'') (rev p)))"

definition ticket_fields :: "krb_ticket_info \<Rightarrow> (string \<times> string) list" where
  "ticket_fields t =
     [(''krb_file_path'', krb_file_path t), (''service_account_name'', service_account_name t),
      (''domain_name'', domain_name t), (''domainless_user'', domainless_user t),
      (''credspec_info'', credspec_info t), (''distinguished_name'', distinguished_name t)]"

definition write_meta_data_json ::
    "'j jsonlib \<Rightarrow> krb_ticket_info list \<Rightarrow> string \<Rightarrow> string \<Rightarrow> int WM" where
  "write_meta_data_json J krb_ticket_info_list lease_id krb_files_dir =
     catchM
       (let file_path = meta_file_path krb_files_dir lease_id in
        bindM (getM (\<lambda>w. create_directories (parent_path file_path) (wfs w))) (\<lambda>r.
        bindM (liftM r) (\<lambda>F.
        thenM (modM (\<lambda>w. w\<lparr>wfs := F\<rparr>))
       (let jsonString = write_string J (record_array J ''krb_ticket_info''
              (map ticket_fields krb_ticket_info_list)) in
        thenM (modM (\<lambda>w. case write_file file_path jsonString (wfs w) of
               Some F' \<Rightarrow> w\<lparr>wfs := F'\<rparr>
             | None \<Rightarrow> w))
          (ret 0)))))
       (\<lambda>ex. ret (-1))"

text \<open>The overload for one ticket.\<close>

definition write_meta_data_json1 ::
    "'j jsonlib \<Rightarrow> krb_ticket_info \<Rightarrow> string \<Rightarrow> string \<Rightarrow> int WM" where
  "write_meta_data_json1 J info lease_id krb_files_dir =
     write_meta_data_json J [info] lease_id krb_files_dir"

section \<open>Safety of reading and writing\<close>

lemma read_ticket_Add:
  assumes "read_ticket J F v = Inr (Add t)"
  shows "\<not> contains_invalid_characters (krb_file_path t) \<and> fs_exists F (krb_file_path t) \<and>
    credential_arn t = []"
proof -
  from assms obtain path where "\<not> contains_invalid_characters path" and "fs_exists F path"
    and "krb_file_path t = path" and "credential_arn t = []"
    by (auto simp: read_ticket_def bindE_Inr new_krb_ticket_info_def split: if_splits)
  then show ?thesis by simp
qed

lemma read_tickets_ok:
  "t \<in> set (read_tickets J F vs) \<Longrightarrow>
   \<not> contains_invalid_characters (krb_file_path t) \<and> fs_exists F (krb_file_path t) \<and> credential_arn t = []"
proof (induction vs)
  case (Cons v vs)
  consider e where "read_ticket J F v = Inl e" | "read_ticket J F v = Inr Stop"
    | "read_ticket J F v = Inr Skip" | u where "read_ticket J F v = Inr (Add u)"
    by (metis read_step.exhaust sumE)
  then show ?case using Cons by cases (auto dest: read_ticket_Add)
qed simp

lemma read_meta_data_returns:
  "\<exists>ts. read_meta_data_json J p w = (Inr ts, w) \<and>
     (\<forall>t \<in> set ts. \<not> contains_invalid_characters (krb_file_path t) \<and>
        fs_exists (wfs w) (krb_file_path t) \<and> credential_arn t = [])"
  by (auto simp: read_meta_data_json_def dest: read_tickets_ok split: option.splits sum.splits)

text \<open>
  Whatever a metadata file holds, reading it changes nothing, never throws, and yields only
  tickets whose path is free of shell metacharacters and names an existing file; none carries a
  credential ARN.
\<close>
theorem read_meta_data_safe:
  "\<exists>ts. read_meta_data_json J p w = (Inr ts, w) \<and>
     (\<forall>t \<in> set ts. \<not> contains_invalid_characters (krb_file_path t) \<and>
        fs_exists (wfs w) (krb_file_path t) \<and> credential_arn t = [])"
  by (rule read_meta_data_returns)

theorem read_meta_data_safe_witness:
  "\<exists>ts. read_meta_data_json tree_json ''/lease_metadata'' start_world = (Inr ts, start_world) \<and>
     (\<forall>t \<in> set ts. credential_arn t = [])"
  using read_meta_data_safe [of tree_json "''/lease_metadata''" start_world] by blast

lemma write_meta_data_returns:
  "\<exists>r w'. write_meta_data_json J ts lease dir w = (Inr r, w') \<and> (r = 0 \<or> r = -1)"
proof -
  have cd: "create_directories p F = Inl f \<Longrightarrow> \<exists>e. f = Throw e" for p F f
    by (auto simp: create_directories_def split: if_splits option.splits)
  show ?thesis
  proof (cases "create_directories (parent_path (meta_file_path dir lease)) (wfs w)")
    case (Inl f)
    with cd obtain e where "f = Throw e" by blast
    with Inl show ?thesis by (simp add: write_meta_data_json_def catchM_def bindM_apply Let_def)
  next
    case (Inr F)
    then show ?thesis
      by (simp add: write_meta_data_json_def catchM_def bindM_apply thenM_def Let_def)
  qed
qed

lemma write_meta_data_apply:
  assumes "create_directories (parent_path (meta_file_path dir lease)) (wfs w) = Inr F"
  shows "write_meta_data_json J ts lease dir w =
    (Inr 0, w\<lparr>wfs := (case write_file (meta_file_path dir lease)
        (write_string J (record_array J ''krb_ticket_info'' (map ticket_fields ts))) F of
      None \<Rightarrow> F | Some F' \<Rightarrow> F')\<rparr>)"
  using assms
  by (simp add: write_meta_data_json_def catchM_def bindM_apply thenM_def Let_def split: option.splits)

text \<open>
  \<open>write_meta_data_json\<close> reports success although nothing was written: when the directories
  exist but the file itself cannot be opened, it still returns 0.
\<close>
theorem write_meta_data_unopened:
  assumes "create_directories (parent_path (meta_file_path dir lease)) (wfs w) = Inr F"
    and "\<And>c. write_file (meta_file_path dir lease) c F = None"
  shows "write_meta_data_json J ts lease dir w = (Inr 0, w\<lparr>wfs := F\<rparr>)"
  using assms by (simp add: write_meta_data_apply)

theorem write_meta_data_unopened_witness:
  "fst (write_meta_data_json tree_json [] ''l'' ''/k''
     (start_world\<lparr>wfs := [([''k''], new_dir), ([''k'', ''l''], new_dir),
        ([''k'', ''l'', ''l_metadata.json''], new_dir)]\<rparr>)) = Inr 0"
proof -
  let ?F = "[([''k''], new_dir), ([''k'', ''l''], new_dir), ([''k'', ''l'', ''l_metadata.json''], new_dir)]"
  have res: "resolve ?F (meta_file_path ''/k'' ''l'') = Some [''k'', ''l'', ''l_metadata.json'']"
    by code_simp
  have dir: "fs_lookup ?F [''k'', ''l'', ''l_metadata.json''] = Some new_dir"
    by (simp add: fs_lookup_def)
  have "create_directories (parent_path (meta_file_path ''/k'' ''l'')) (wfs (start_world\<lparr>wfs := ?F\<rparr>)) = Inr ?F"
  proof -
    have p: "c_str (parent_path (meta_file_path ''/k'' ''l'')) \<noteq> []"
      "components (parent_path (meta_file_path ''/k'' ''l'')) = [''k'', ''l'']"
      by code_simp+
    show ?thesis unfolding create_directories_def p
      using p(1) by (simp add: fs_lookup_def new_dir_def)
  qed
  moreover have "write_file (meta_file_path ''/k'' ''l'') c ?F = None" for c
    using res dir by (simp add: write_file_def new_dir_def)
  ultimately have "write_meta_data_json tree_json [] ''l'' ''/k'' (start_world\<lparr>wfs := ?F\<rparr>) =
      (Inr 0, start_world\<lparr>wfs := ?F\<rparr>\<lparr>wfs := ?F\<rparr>)"
    by (rule write_meta_data_unopened)
  then show ?thesis by simp
qed

section \<open>The round trip\<close>

lemma getlines_slash:
  "filter (\<lambda>c. c \<noteq> []) (getlines d (a @ d # b)) =
   filter (\<lambda>c. c \<noteq> []) (getlines d a) @ filter (\<lambda>c. c \<noteq> []) (getlines d b)"
proof (induction d a rule: getlines.induct)
  case (1 d a)
  show ?case
  proof (cases "d \<in> set a")
    case False
    then have "getlines d (a @ d # b) = a # getlines d b" by (rule getlines_Cons)
    moreover have "a \<noteq> [] \<Longrightarrow> getlines d a = [a]" using False by (rule getlines_last)
    ultimately show ?thesis by (cases "a = []") auto
  next
    case True
    then obtain x y where a: "a = x @ d # y" and x: "d \<notin> set x" by (meson split_list_first)
    have "dropWhile (\<lambda>c. c \<noteq> d) a = d # y"
      using x by (auto simp: a dropWhile_append)
    with 1 a have "filter (\<lambda>c. c \<noteq> []) (getlines d (y @ d # b)) =
        filter (\<lambda>c. c \<noteq> []) (getlines d y) @ filter (\<lambda>c. c \<noteq> []) (getlines d b)" by auto
    then show ?thesis unfolding a using x by (simp add: getlines_Cons)
  qed
qed

lemma components_append:
  assumes "NUL \<notin> set (a @ b)"
  shows "components (a @ ''/'' @ b) = components a @ components b"
proof -
  have c: "c_str (a @ CHR ''/'' # b) = a @ CHR ''/'' # b" "c_str a = a" "c_str b = b"
    using assms by (auto intro!: c_str_id simp: NUL_def)
  have f2: "filter (\<lambda>c. c \<noteq> [] \<and> c \<noteq> ''.'') xs =
      filter (\<lambda>c. c \<noteq> ''.'') (filter (\<lambda>c. c \<noteq> []) xs)" for xs :: "string list"
    by simp
  show ?thesis unfolding components_def append_Cons append_Nil c f2 getlines_slash by simp
qed

lemma components_single: "NUL \<notin> set f \<Longrightarrow> CHR ''/'' \<notin> set f \<Longrightarrow> f \<noteq> [] \<Longrightarrow> f \<noteq> ''.'' \<Longrightarrow> components f = [f]"
  by (simp add: components_def c_str_id getlines_last)

lemma components_snoc:
  assumes "NUL \<notin> set (a @ f)" and "CHR ''/'' \<notin> set f" and "f \<noteq> []" and "f \<noteq> ''.''"
  shows "components (a @ ''/'' @ f) = components a @ [f]"
  using components_append [OF assms(1)] components_single assms by simp

lemma parent_path_snoc: "CHR ''/'' \<notin> set f \<Longrightarrow> parent_path (a @ ''/'' @ f) = a"
  by (simp add: parent_path_def dropWhile_append)

lemma walk_mono:
  "(\<And>k. is_dir_at F k \<Longrightarrow> is_dir_at F' k) \<Longrightarrow> walk F cur cs = Some l \<Longrightarrow> walk F' cur cs = Some l"
  by (induction F cur cs rule: walk.induct) (auto split: if_splits)

lemma resolve_mono:
  "(\<And>k. is_dir_at F k \<Longrightarrow> is_dir_at F' k) \<Longrightarrow> resolve F p = Some l \<Longrightarrow> resolve F' p = Some l"
  by (auto simp: resolve_def intro: walk_mono split: if_splits)

lemma write_file_dirs:
  assumes "write_file p c F = Some F'" and "is_dir_at F k"
  shows "is_dir_at F' k"
  using assms
  by (auto simp: write_file_def is_dir_at_def fs_lookup_put split: if_splits option.splits)

lemma write_file_exists:
  assumes "write_file p c F = Some F'" and "fs_exists F q"
  shows "fs_exists F' q"
proof -
  from assms(2) obtain l i where l: "resolve F q = Some l" "fs_lookup F l = Some i"
    by (auto simp: fs_exists_def fs_stat_def split: option.splits)
  from resolve_mono [OF write_file_dirs [OF assms(1)] l(1)] have "resolve F' q = Some l" .
  moreover have "fs_lookup F' l \<noteq> None"
    using assms(1) l(2) by (auto simp: write_file_def fs_lookup_put split: if_splits option.splits)
  ultimately show ?thesis by (simp add: fs_exists_def fs_stat_def)
qed

lemma create_directories_keeps:
  assumes "create_directories p F = Inr F'" and "fs_exists F q"
  shows "fs_exists F' q"
proof -
  from assms(2) obtain l i where l: "resolve F q = Some l" "fs_lookup F l = Some i"
    by (auto simp: fs_exists_def fs_stat_def split: option.splits)
  have "is_dir_at F k \<Longrightarrow> is_dir_at F' k" for k
    using create_directories_mono [OF assms(1)] by (auto simp: is_dir_at_def split: option.splits)
  from resolve_mono [OF this l(1)] create_directories_mono [OF assms(1) l(2)]
  show ?thesis by (simp add: fs_exists_def fs_stat_def)
qed

text \<open>\<open>create_directories\<close> makes no directory but those on its path.\<close>

lemma mkdirs_new_dirs:
  "mkdirs F cur cs = Some F' \<Longrightarrow> ''..'' \<notin> set cs \<Longrightarrow> is_dir_at F' k \<Longrightarrow>
   is_dir_at F k \<or> prefix k (cur @ cs)"
proof (induction F cur cs arbitrary: F' rule: mkdirs.induct)
  case (2 F cur c cs)
  show ?case
  proof (cases "fs_lookup F (cur @ [c])")
    case None
    from "2.prems" None have "mkdirs (fs_put (cur @ [c]) new_dir F) (cur @ [c]) cs = Some F'" "c \<noteq> ''..''"
      by auto
    with 2(2) [OF _ None] "2.prems" have
      "is_dir_at (fs_put (cur @ [c]) new_dir F) k \<or> prefix k ((cur @ [c]) @ cs)" by auto
    then show ?thesis by (auto simp: is_dir_at_put prefix_def split: if_splits)
  next
    case (Some i)
    with 2 show ?thesis by (auto split: if_splits)
  qed
qed simp

lemma ticket_fields_read:
  assumes "json_laws J" and "\<not> contains_invalid_characters (krb_file_path t)"
    and "fs_exists F (krb_file_path t)"
  shows "read_ticket J F (string_object J (ticket_fields t)) = Inr (Add (t\<lparr>credential_arn := []\<rparr>))"
proof -
  have d: "distinct (map fst (ticket_fields t))" by (simp add: ticket_fields_def)
  have g: "string_member J (string_object J (ticket_fields t)) k = Inr s \<and>
      is_member J (string_object J (ticket_fields t)) k = Inr True" if "(k, s) \<in> set (ticket_fields t)" for k s
    by (rule string_object_get [OF assms(1) d that])
  show ?thesis
    using assms(2,3) g [of "''krb_file_path''" "krb_file_path t"]
      g [of "''service_account_name''" "service_account_name t"] g [of "''domain_name''" "domain_name t"]
      g [of "''domainless_user''" "domainless_user t"] g [of "''distinguished_name''" "distinguished_name t"]
      g [of "''credspec_info''" "credspec_info t"]
    by (simp add: ticket_fields_def read_ticket_def optional_string_def new_krb_ticket_info_def)
qed

lemma read_tickets_fields:
  assumes "json_laws J" and "\<forall>t \<in> set ts. \<not> contains_invalid_characters (krb_file_path t) \<and>
    fs_exists F (krb_file_path t)"
  shows "read_tickets J F (map (string_object J) (map ticket_fields ts)) =
    map (\<lambda>t. t\<lparr>credential_arn := []\<rparr>) ts"
  using assms(2) by (induction ts) (simp_all add: ticket_fields_read [OF assms(1)])

definition ascii_ticket :: "krb_ticket_info \<Rightarrow> bool" where
  "ascii_ticket t \<longleftrightarrow> (\<forall>(k, s) \<in> set (ticket_fields t). ascii s)"

lemma ascii_ticket_fields: "ascii_ticket t \<Longrightarrow> \<forall>(k, s) \<in> set (ticket_fields t). ascii k \<and> ascii s"
  by (auto simp: ascii_ticket_def ticket_fields_def ascii_def)

text \<open>A metadata file whose directory can be made is written, and its text is read back.\<close>

lemma meta_file_written:
  assumes path: "NUL \<notin> set (dir @ lease)" "CHR ''/'' \<notin> set lease" "dir \<noteq> []"
      "''..'' \<notin> set (components (dir @ ''/'' @ lease))"
      "\<not> is_dir_at F0 (components (dir @ ''/'' @ lease) @ [meta_file_name lease])"
    and mk: "create_directories (dir @ ''/'' @ lease) F0 = Inr F"
  shows "\<exists>F'. write_file (meta_file_path dir lease) content F = Some F' \<and>
    read_file (meta_file_path dir lease) F' = Some content \<and>
    parent_path (meta_file_path dir lease) = dir @ ''/'' @ lease"
proof -
  let ?p = "meta_file_path dir lease" and ?d = "dir @ ''/'' @ lease" and ?f = "meta_file_name lease"
  have p: "?p = ?d @ ''/'' @ ?f" by (simp add: meta_file_path_def)
  have f: "CHR ''/'' \<notin> set ?f" "?f \<noteq> []" "?f \<noteq> ''.''" "?f \<noteq> ''..''"
    using path(2) by (auto simp: meta_file_name_def append_eq_Cons_conv)
  have nul: "NUL \<notin> set (?d @ ?f)" using path(1) by (auto simp: meta_file_name_def NUL_def)
  have comp: "components ?p = components ?d @ [?f]"
    unfolding p by (rule components_snoc [OF nul f(1-3)])
  note cd = create_directories_exists [OF mk path(4)]
  have "c_str ?p \<noteq> []" using path(1,3) by (cases dir) (auto simp: meta_file_path_def c_str_def NUL_def)
  moreover have "walk F [] (components ?d) = Some (components ?d)"
    using cd(1) by (auto simp: resolve_def split: if_splits)
  ultimately have res: "resolve F ?p = Some (components ?d @ [?f])"
    using cd(2) f(4) by (simp add: resolve_def comp walk_app)
  have "mkdirs F0 [] (components ?d) = Some F"
    using mk by (auto simp: create_directories_def split: if_splits option.splits)
  then have "\<not> is_dir_at F (components ?d @ [?f])"
    using path(5) mkdirs_new_dirs [of F0 "[]" "components ?d" F "components ?d @ [?f]"] path(4)
    by (auto simp: prefix_def)
  with res cd(2) obtain F' where F': "write_file ?p content F = Some F'"
    by (auto simp: write_file_def is_dir_at_def split: option.splits if_splits)
  have "resolve F' ?p = resolve F ?p" using resolve_mono [OF write_file_dirs [OF F'] res] res by simp
  then have "read_file ?p F' = Some content" by (rule write_file_read [OF F'])
  with F' show ?thesis using parent_path_snoc [OF f(1), of ?d] by (auto simp: p)
qed

lemma ascii_tickets: "\<forall>t \<in> set ts. ascii_ticket t \<Longrightarrow>
    \<forall>kvs \<in> set (map ticket_fields ts). \<forall>(k, s) \<in> set kvs. ascii k \<and> ascii s"
  using ascii_ticket_fields by fastforce

lemma metadata_read_back:
  assumes J: "json_laws J"
    and path: "NUL \<notin> set (dir @ lease)" "CHR ''/'' \<notin> set lease" "dir \<noteq> []"
      "''..'' \<notin> set (components (dir @ ''/'' @ lease))"
      "\<not> is_dir_at (wfs w) (components (dir @ ''/'' @ lease) @ [meta_file_name lease])"
    and mk: "create_directories (dir @ ''/'' @ lease) (wfs w) = Inr F"
    and ts: "\<forall>t \<in> set ts. ascii_ticket t \<and> \<not> contains_invalid_characters (krb_file_path t) \<and>
      fs_exists (wfs w) (krb_file_path t)"
  shows "\<exists>w'. write_meta_data_json J ts lease dir w = (Inr 0, w') \<and>
    read_meta_data_json J (meta_file_path dir lease) w' =
      (Inr (map (\<lambda>t. t\<lparr>credential_arn := []\<rparr>) ts), w')"
proof -
  let ?p = "meta_file_path dir lease"
  let ?text = "write_string J (record_array J ''krb_ticket_info'' (map ticket_fields ts))"
  obtain F' where F': "write_file ?p ?text F = Some F'" "read_file ?p F' = Some ?text"
    "parent_path ?p = dir @ ''/'' @ lease"
    using meta_file_written [OF path mk] by blast
  have "\<forall>t \<in> set ts. \<not> contains_invalid_characters (krb_file_path t) \<and> fs_exists F' (krb_file_path t)"
    using ts write_file_exists [OF F'(1)] create_directories_keeps [OF mk] by blast
  moreover have "ascii ''krb_ticket_info''" by (simp add: ascii_def)
  note st = record_array_stream [OF J this ascii_tickets, of ts]
  have "?p \<noteq> []" by (simp add: meta_file_path_def)
  ultimately have "read_meta_data_json J ?p (w\<lparr>wfs := F'\<rparr>) =
      (Inr (map (\<lambda>t. t\<lparr>credential_arn := []\<rparr>) ts), w\<lparr>wfs := F'\<rparr>)"
    using F'(2) st ts record_array_read [OF J, of "''krb_ticket_info''" "map ticket_fields ts"]
      read_tickets_fields [OF J, of ts F']
    by (simp add: read_meta_data_json_def)
  moreover have "write_meta_data_json J ts lease dir w = (Inr 0, w\<lparr>wfs := F'\<rparr>)"
    using write_meta_data_apply [of dir lease w F J ts] mk F' by simp
  ultimately show ?thesis by blast
qed

text \<open>
  The metadata file round trip: what is written for a lease into a directory where the file can
  be created is read back in order, for tickets with ASCII fields, clean paths and existing
  ticket files; all fields return but the credential ARN, which is not stored.
\<close>
theorem metadata_roundtrip:
  assumes J: "json_laws J"
    and path: "NUL \<notin> set (dir @ lease)" "CHR ''/'' \<notin> set lease" "dir \<noteq> []"
      "''..'' \<notin> set (components (dir @ ''/'' @ lease))"
      "\<not> is_dir_at (wfs w) (components (dir @ ''/'' @ lease) @ [meta_file_name lease])"
    and mk: "create_directories (dir @ ''/'' @ lease) (wfs w) = Inr F"
    and ts: "\<forall>t \<in> set ts. ascii_ticket t \<and> \<not> contains_invalid_characters (krb_file_path t) \<and>
      fs_exists (wfs w) (krb_file_path t)"
  shows "\<exists>w'. write_meta_data_json J ts lease dir w = (Inr 0, w') \<and>
    read_meta_data_json J (meta_file_path dir lease) w' =
      (Inr (map (\<lambda>t. t\<lparr>credential_arn := []\<rparr>) ts), w')"
  using metadata_read_back [OF assms] .

text \<open>A lease \<open>l\<close> whose one ticket is at \<open>/k/cc\<close>.\<close>

definition cache_world :: world where
  "cache_world = start_world\<lparr>wfs := [([''k''], new_dir), ([''k'', ''cc''], new_file [])]\<rparr>"

definition cache_ticket :: krb_ticket_info where
  "cache_ticket = new_krb_ticket_info\<lparr>krb_file_path := ''/k/cc'', credential_arn := ''arn''\<rparr>"

lemma cache_lease:
  shows "NUL \<notin> set (''/k'' @ ''l'')" and "CHR ''/'' \<notin> set ''l''" and "''/k'' \<noteq> []"
    and "''..'' \<notin> set (components (''/k'' @ ''/'' @ ''l''))"
    and "\<not> is_dir_at (wfs cache_world) (components (''/k'' @ ''/'' @ ''l'') @ [meta_file_name ''l''])"
    and "create_directories (''/k'' @ ''/'' @ ''l'') (wfs cache_world) =
      Inr (fs_put [''k'', ''l''] new_dir (wfs cache_world))"
    and "\<forall>t \<in> set [cache_ticket]. ascii_ticket t \<and> \<not> contains_invalid_characters (krb_file_path t) \<and>
      fs_exists (wfs cache_world) (krb_file_path t)"
proof -
  have comp: "components (''/k'' @ ''/'' @ ''l'') = [''k'', ''l'']" "components ''/k/cc'' = [''k'', ''cc'']"
    by code_simp+
  show "NUL \<notin> set (''/k'' @ ''l'')" "CHR ''/'' \<notin> set ''l''" "''/k'' \<noteq> []"
    "''..'' \<notin> set (components (''/k'' @ ''/'' @ ''l''))"
    "\<not> is_dir_at (wfs cache_world) (components (''/k'' @ ''/'' @ ''l'') @ [meta_file_name ''l''])"
    unfolding comp by (simp_all add: NUL_def is_dir_at_def fs_lookup_def meta_file_name_def cache_world_def)
  show "create_directories (''/k'' @ ''/'' @ ''l'') (wfs cache_world) =
      Inr (fs_put [''k'', ''l''] new_dir (wfs cache_world))"
    unfolding create_directories_def comp
    by (simp add: fs_lookup_def new_dir_def c_str_def NUL_def cache_world_def)
  have "\<not> contains_invalid_characters ''/k/cc''" by code_simp
  moreover have "fs_exists (wfs cache_world) ''/k/cc''"
    unfolding fs_exists_def fs_stat_def resolve_def comp
    by (simp add: c_str_def NUL_def is_dir_at_def fs_lookup_def new_dir_def cache_world_def)
  ultimately show "\<forall>t \<in> set [cache_ticket]. ascii_ticket t \<and> \<not> contains_invalid_characters (krb_file_path t) \<and>
      fs_exists (wfs cache_world) (krb_file_path t)"
    by (simp add: ascii_ticket_def ticket_fields_def new_krb_ticket_info_def ascii_def cache_ticket_def)
qed

theorem metadata_roundtrip_witness:
  "\<exists>w'. write_meta_data_json tree_json [cache_ticket] ''l'' ''/k'' cache_world = (Inr 0, w') \<and>
    read_meta_data_json tree_json (meta_file_path ''/k'' ''l'') w' =
      (Inr [cache_ticket\<lparr>credential_arn := []\<rparr>], w')"
  using metadata_roundtrip [OF tree_json_laws cache_lease] by simp

section \<open>What the metadata routines keep\<close>

context host_inv begin

lemma keeps_read_meta: "keeps I (read_meta_data_json J p)"
  unfolding read_meta_data_json_def by (rule keeps_getM)

end

context world_inv begin

lemma keeps_write_meta: "keeps I (write_meta_data_json J ts l d)"
proof -
  have "keeps I (modM (\<lambda>w. case write_file p c (wfs w) of Some F' \<Rightarrow> w\<lparr>wfs := F'\<rparr> | None \<Rightarrow> w))" for p c
    by (auto simp: keeps_def inv_fs split: option.splits)
  then show ?thesis
    unfolding write_meta_data_json_def Let_def by (intro keeps_intros keeps_fs)
qed

end

end
