(* ===== verification/Cpp_Regex.thy ===== *)
theory Cpp_Regex
  imports Cpp_String
begin

text \<open>
  The part of \<open>std::regex\<close> (ECMAScript grammar) the daemon uses: character classes, sequence,
  ordered alternative, greedy repetition and capture groups. The matcher lists every way to match
  in the order of the standard's backtracking search, so the first one is the match reported; it is
  proved against the language of the expression. Groups are numbered in the order they close,
  which is their standard number for expressions whose groups do not nest or repeat; the one
  expression here with nested groups (\<open>isValidDomain\<close>) does not read them.
\<close>

section \<open>Expressions and their matches\<close>

datatype regex = Eps | Cls "char \<Rightarrow> bool" | Sequ regex regex | Altern regex regex | Star regex
  | Group regex

text \<open>What is left of the input and the groups closed so far.\<close>

type_synonym mstate = "string \<times> string list"

text \<open>Greedy repetition: another round that consumes input is tried before stopping.\<close>

fun star_iter :: "(mstate \<Rightarrow> mstate list) \<Rightarrow> nat \<Rightarrow> mstate \<Rightarrow> mstate list" where
  "star_iter f 0 st = [st]"
| "star_iter f (Suc n) st =
     concat (map (\<lambda>st'. if length (fst st') < length (fst st) then star_iter f n st' else []) (f st))
     @ [st]"

primrec steps :: "regex \<Rightarrow> mstate \<Rightarrow> mstate list" where
  "steps Eps st = [st]"
| "steps (Cls p) st =
     (case fst st of [] \<Rightarrow> [] | c # r \<Rightarrow> if p c then [(r, snd st)] else [])"
| "steps (Sequ a b) st = concat (map (steps b) (steps a st))"
| "steps (Altern a b) st = steps a st @ steps b st"
| "steps (Star a) st = star_iter (steps a) (length (fst st)) st"
| "steps (Group a) st =
     map (\<lambda>st'. (fst st', snd st' @ [take (length (fst st) - length (fst st')) (fst st)])) (steps a st)"

text \<open>\<open>regex_match\<close>: the whole input; \<open>regex_search\<close>: the first start, then the first match.
  Both give the groups.\<close>

definition regex_match :: "regex \<Rightarrow> string \<Rightarrow> string list option" where
  "regex_match r s = map_option snd (find (\<lambda>st. fst st = []) (steps r (s, [])))"

fun regex_search :: "regex \<Rightarrow> string \<Rightarrow> string list option" where
  "regex_search r s =
     (case steps r (s, []) of
        st # _ \<Rightarrow> Some (snd st)
      | [] \<Rightarrow> (case s of [] \<Rightarrow> None | _ # s' \<Rightarrow> regex_search r s'))"

declare regex_search.simps [simp del]

text \<open>Expressions built from these: a literal, a bounded and an exact repetition.\<close>

definition lit :: "char \<Rightarrow> regex" where "lit c = Cls (\<lambda>d. d = c)"

fun lits :: "string \<Rightarrow> regex" where
  "lits [] = Eps"
| "lits (c # s) = Sequ (lit c) (lits s)"

fun at_most :: "nat \<Rightarrow> regex \<Rightarrow> regex" where
  "at_most 0 r = Eps"
| "at_most (Suc n) r = Altern (Sequ r (at_most n r)) Eps"

fun exactly :: "nat \<Rightarrow> regex \<Rightarrow> regex" where
  "exactly 0 r = Eps"
| "exactly (Suc n) r = Sequ r (exactly n r)"

definition plus1 :: "regex \<Rightarrow> regex" where "plus1 r = Sequ r (Star r)"

section \<open>The language of an expression\<close>

fun lang :: "regex \<Rightarrow> string set" where
  "lang Eps = {[]}"
| "lang (Cls p) = {[c] | c. p c}"
| "lang (Sequ a b) = {u @ v | u v. u \<in> lang a \<and> v \<in> lang b}"
| "lang (Altern a b) = lang a \<union> lang b"
| "lang (Star a) = {concat ws | ws. set ws \<subseteq> lang a}"
| "lang (Group a) = lang a"

named_theorems lang_simps \<open>the languages of the derived expressions\<close>

lemma star_iter_sound:
  assumes f: "\<And>s cs rest cs'. (rest, cs') \<in> set (f (s, cs)) \<Longrightarrow> \<exists>w \<in> L. s = w @ rest"
  shows "(rest, cs') \<in> set (star_iter f n (s, cs)) \<Longrightarrow> \<exists>ws. set ws \<subseteq> L \<and> s = concat ws @ rest"
proof (induction n arbitrary: s cs)
  case 0
  then show ?case by (auto intro: exI [of _ "[]"])
next
  case (Suc n)
  then consider "rest = s" | s' cs'' where "(s', cs'') \<in> set (f (s, cs))"
    "(rest, cs') \<in> set (star_iter f n (s', cs''))"
    by (auto split: if_splits)
  then show ?case
  proof cases
    case 1
    then show ?thesis by (auto intro: exI [of _ "[]"])
  next
    case 2
    from f [OF 2(1)] obtain w where w: "w \<in> L" "s = w @ s'" by blast
    from Suc.IH [OF 2(2)] obtain ws where "set ws \<subseteq> L" "s' = concat ws @ rest" by blast
    with w have "set (w # ws) \<subseteq> L \<and> s = concat (w # ws) @ rest" by simp
    then show ?thesis by blast
  qed
qed

lemma star_iter_complete:
  assumes f: "\<And>w rest cs. w \<in> L \<Longrightarrow> \<exists>cs'. (rest, cs') \<in> set (f (w @ rest, cs))"
  shows "set ws \<subseteq> L \<Longrightarrow> length (concat ws @ rest) \<le> n \<Longrightarrow>
    \<exists>cs'. (rest, cs') \<in> set (star_iter f n (concat ws @ rest, cs))"
proof (induction ws arbitrary: n cs)
  case Nil
  then show ?case by (cases n) auto
next
  case (Cons w ws)
  show ?case
  proof (cases "w = []")
    case True
    with Cons show ?thesis by simp
  next
    case False
    with Cons.prems obtain m where n: "n = Suc m" by (cases n) auto
    from f [of w "concat ws @ rest" cs] Cons.prems obtain cs1 where
      1: "(concat ws @ rest, cs1) \<in> set (f (w @ concat ws @ rest, cs))" by auto
    from Cons.prems False n have "length (concat ws @ rest) \<le> m" by (cases w) auto
    with Cons.IH Cons.prems obtain cs2 where
      "(rest, cs2) \<in> set (star_iter f m (concat ws @ rest, cs1))" by fastforce
    with 1 False n show ?thesis by (force intro!: exI [of _ cs2] bexI [rotated])
  qed
qed

lemma steps_sound: "(rest, cs') \<in> set (steps r (s, cs)) \<Longrightarrow> \<exists>w \<in> lang r. s = w @ rest"
proof (induction r arbitrary: s cs rest cs')
  case (Cls p)
  then show ?case by (auto split: list.splits if_splits)
next
  case (Sequ a b)
  then obtain s1 c1 where 1: "(s1, c1) \<in> set (steps a (s, cs))" "(rest, cs') \<in> set (steps b (s1, c1))"
    by auto
  from Sequ.IH(1) [OF 1(1)] Sequ.IH(2) [OF 1(2)] show ?case by fastforce
next
  case (Star a)
  then have "(rest, cs') \<in> set (star_iter (steps a) (length s) (s, cs))" by simp
  then have "\<exists>ws. set ws \<subseteq> lang a \<and> s = concat ws @ rest"
    by (rule star_iter_sound [of "steps a" "lang a", rotated]) (rule Star.IH)
  then show ?case by auto
qed (auto, blast+)

lemma steps_complete: "w \<in> lang r \<Longrightarrow> \<exists>cs'. (rest, cs') \<in> set (steps r (w @ rest, cs))"
proof (induction r arbitrary: w rest cs)
  case (Sequ a b)
  then obtain u v where uv: "w = u @ v" "u \<in> lang a" "v \<in> lang b" by auto
  from Sequ.IH(1) [OF uv(2)] obtain c1 where "(v @ rest, c1) \<in> set (steps a (u @ v @ rest, cs))" by blast
  moreover from Sequ.IH(2) [OF uv(3)] obtain c2 where "(rest, c2) \<in> set (steps b (v @ rest, c1))" by blast
  ultimately show ?case using uv(1) by force
next
  case (Altern a b)
  then show ?case by fastforce
next
  case (Star a)
  then obtain ws where "w = concat ws" "set ws \<subseteq> lang a" by auto
  with star_iter_complete [of "lang a" "steps a" ws rest, OF Star.IH] show ?case by simp
next
  case (Group a)
  then obtain c1 where "(rest, c1) \<in> set (steps a (w @ rest, cs))" by fastforce
  then show ?case by (force intro!: exI bexI [rotated])
qed auto

text \<open>A whole match exists exactly for the words of the language.\<close>

lemma regex_match_lang: "regex_match r s \<noteq> None \<longleftrightarrow> s \<in> lang r"
proof -
  have "regex_match r s \<noteq> None \<longleftrightarrow> (\<exists>cs. ([], cs) \<in> set (steps r (s, [])))"
    by (auto simp: regex_match_def find_None_iff)
  also have "\<dots> \<longleftrightarrow> s \<in> lang r"
    using steps_sound [of "[]" _ r s "[]"] steps_complete [of s r "[]" "[]"] by auto
  finally show ?thesis .
qed

text \<open>A search fails exactly when no part of the input is in the language.\<close>

lemma regex_search_None:
  "regex_search r s = None \<longleftrightarrow> (\<forall>pre w post. s = pre @ w @ post \<longrightarrow> w \<notin> lang r)"
proof (induction r s rule: regex_search.induct)
  case (1 r s)
  have here: "steps r (s, []) = [] \<longleftrightarrow> (\<forall>w post. s = w @ post \<longrightarrow> w \<notin> lang r)"
  proof -
    have "steps r (s, []) = [] \<longleftrightarrow> (\<forall>rest cs. (rest, cs) \<notin> set (steps r (s, [])))"
      by (cases "steps r (s, [])") auto
    also have "\<dots> \<longleftrightarrow> (\<forall>w post. s = w @ post \<longrightarrow> w \<notin> lang r)"
    proof (intro iffI allI impI notI)
      fix w post assume "\<forall>rest cs. (rest, cs) \<notin> set (steps r (s, []))" "s = w @ post" "w \<in> lang r"
      with steps_complete [of w r post "[]"] show False by blast
    next
      fix rest cs assume "\<forall>w post. s = w @ post \<longrightarrow> w \<notin> lang r" "(rest, cs) \<in> set (steps r (s, []))"
      with steps_sound [of rest cs r s "[]"] show False by blast
    qed
    finally show ?thesis .
  qed
  show ?case
  proof (cases "steps r (s, [])")
    case (Cons st sts)
    with here obtain w post where "s = [] @ w @ post" "w \<in> lang r" by auto
    with Cons show ?thesis by (subst regex_search.simps) (simp, blast)
  next
    case Nil
    show ?thesis
    proof (cases s)
      case Nil' [simp]: Nil
      from Nil here have "[] \<notin> lang r" by simp
      with Nil show ?thesis by (subst regex_search.simps) simp
    next
      case (Cons c s')
      have "regex_search r s = regex_search r s'"
        using Nil Cons by (subst regex_search.simps) simp
      also have "\<dots> = None \<longleftrightarrow> (\<forall>pre w post. s' = pre @ w @ post \<longrightarrow> w \<notin> lang r)"
        using 1 Nil Cons by blast
      also have "\<dots> \<longleftrightarrow> (\<forall>pre w post. s = pre @ w @ post \<longrightarrow> w \<notin> lang r)"
      proof (intro iffI allI impI)
        fix pre w post
        assume a: "\<forall>pre w post. s' = pre @ w @ post \<longrightarrow> w \<notin> lang r" and s: "s = pre @ w @ post"
        show "w \<notin> lang r"
        proof (cases pre)
          case pre: Nil
          with s Nil here show ?thesis by simp
        next
          case (Cons d pre')
          with s \<open>s = c # s'\<close> have "s' = pre' @ w @ post" by simp
          with a show ?thesis by blast
        qed
      next
        fix pre w post
        assume a: "\<forall>pre w post. s = pre @ w @ post \<longrightarrow> w \<notin> lang r" and "s' = pre @ w @ post"
        with Cons have "s = (c # pre) @ w @ post" by simp
        with a show "w \<notin> lang r" by blast
      qed
      finally show ?thesis .
    qed
  qed
qed

text \<open>The groups of a successful search are those of a match at some place of the input.\<close>

lemma regex_search_Some:
  "regex_search r s = Some cs \<Longrightarrow> \<exists>pre rest here. s = pre @ here \<and> (rest, cs) \<in> set (steps r (here, []))"
proof (induction r s rule: regex_search.induct)
  case (1 r s)
  show ?case
  proof (cases "steps r (s, [])")
    case (Cons st sts)
    with 1(2) have "(fst st, cs) \<in> set (steps r (s, []))" by (subst (asm) regex_search.simps) auto
    then show ?thesis by (metis append_Nil)
  next
    case Nil
    with 1(2) obtain c s' where s: "s = c # s'" and "regex_search r s' = Some cs"
      by (subst (asm) (2) regex_search.simps) (auto split: list.splits)
    with 1(1) [OF Nil s] obtain pre rest here where
      "s' = pre @ here" "(rest, cs) \<in> set (steps r (here, []))" by blast
    with s show ?thesis by (metis append_Cons)
  qed
qed

section \<open>Languages of the derived expressions\<close>

lemma lang_lit [lang_simps]: "lang (lit c) = {[c]}"
  by (simp add: lit_def)

lemma lang_lits [lang_simps]: "lang (lits s) = {s}"
  by (induction s) (auto simp: lang_lit)

lemma lang_Cls_Sequ:
  "w \<in> lang (Sequ (Cls p) r) \<longleftrightarrow> (case w of [] \<Rightarrow> False | c # v \<Rightarrow> p c \<and> v \<in> lang r)"
proof (cases w)
  case (Cons c v)
  show ?thesis
  proof
    assume "w \<in> lang (Sequ (Cls p) r)"
    with Cons show "case w of [] \<Rightarrow> False | c # v \<Rightarrow> p c \<and> v \<in> lang r" by auto
  next
    assume "case w of [] \<Rightarrow> False | c # v \<Rightarrow> p c \<and> v \<in> lang r"
    with Cons have "w = [c] @ v" "[c] \<in> lang (Cls p)" "v \<in> lang r" by auto
    then show "w \<in> lang (Sequ (Cls p) r)" unfolding lang.simps(3) by blast
  qed
qed simp

lemma lang_at_most_Cls [lang_simps]:
  "lang (at_most n (Cls p)) = {w. length w \<le> n \<and> list_all p w}"
proof (induction n)
  case (Suc n)
  have "w \<in> lang (at_most (Suc n) (Cls p)) \<longleftrightarrow> length w \<le> Suc n \<and> list_all p w" for w
  proof -
    have "w \<in> lang (at_most (Suc n) (Cls p)) \<longleftrightarrow>
        w \<in> lang (Sequ (Cls p) (at_most n (Cls p))) \<or> w = []"
      by (auto simp del: lang.simps(3))
    then show ?thesis unfolding lang_Cls_Sequ Suc by (cases w) (simp_all add: conj_left_commute)
  qed
  then show ?case by blast
qed auto

lemma lang_exactly_Cls [lang_simps]:
  "lang (exactly n (Cls p)) = {w. length w = n \<and> list_all p w}"
proof (induction n)
  case (Suc n)
  have "w \<in> lang (exactly (Suc n) (Cls p)) \<longleftrightarrow> length w = Suc n \<and> list_all p w" for w
    unfolding exactly.simps lang_Cls_Sequ Suc by (cases w) (auto simp del: lang.simps(3))
  then show ?case by blast
qed auto

lemma lang_Star_Cls: "lang (Star (Cls p)) = {w. list_all p w}"
proof -
  have "\<exists>ws. w = concat ws \<and> set ws \<subseteq> {[c] | c. p c}" if "list_all p w" for w
    using that by (intro exI [of _ "map (\<lambda>c. [c]) w"]) (auto simp: list_all_iff)
  moreover have "list_all p (concat ws)" if "set ws \<subseteq> {[c] | c. p c}" for ws
    using that by (fastforce simp: list_all_iff)
  ultimately show ?thesis by auto
qed

lemma lang_plus1_Cls [lang_simps]: "lang (plus1 (Cls p)) = {w. w \<noteq> [] \<and> list_all p w}"
proof -
  have "w \<in> lang (plus1 (Cls p)) \<longleftrightarrow> w \<noteq> [] \<and> list_all p w" for w
    unfolding plus1_def lang_Cls_Sequ lang_Star_Cls by (auto split: list.splits)
  then show ?thesis by blast
qed

section \<open>Groups\<close>

text \<open>Expressions without groups add none; a group adds what it matched.\<close>

fun no_group :: "regex \<Rightarrow> bool" where
  "no_group (Group r) = False"
| "no_group (Sequ a b) = (no_group a \<and> no_group b)"
| "no_group (Altern a b) = (no_group a \<and> no_group b)"
| "no_group (Star a) = no_group a"
| "no_group _ = True"

lemma star_iter_caps:
  assumes "\<And>st st'. st' \<in> set (f st) \<Longrightarrow> snd st' = snd st"
  shows "st' \<in> set (star_iter f n st) \<Longrightarrow> snd st' = snd st"
proof (induction n arbitrary: st)
  case (Suc n)
  then consider "st' = st" | st1 where "st1 \<in> set (f st)" "st' \<in> set (star_iter f n st1)"
    by (auto split: if_splits)
  then show ?case by cases (use Suc.IH assms in auto)
qed simp

lemma no_group_caps: "no_group r \<Longrightarrow> st' \<in> set (steps r st) \<Longrightarrow> snd st' = snd st"
proof (induction r arbitrary: st st')
  case (Cls p)
  then show ?case by (auto split: list.splits if_splits)
next
  case (Sequ a b)
  then obtain st1 where "st1 \<in> set (steps a st)" "st' \<in> set (steps b st1)" by auto
  with Sequ show ?case by (metis no_group.simps(2))
next
  case (Altern a b)
  then show ?case by (metis Un_iff no_group.simps(3) set_append steps.simps(4))
next
  case (Star a)
  then have "no_group a" "st' \<in> set (star_iter (steps a) (length (fst st)) st)" by simp_all
  with Star.IH show ?case using star_iter_caps [of "steps a"] by blast
qed simp_all

lemma steps_Sequ:
  "(rest, cs') \<in> set (steps (Sequ a b) (s, cs)) \<longleftrightarrow>
   (\<exists>s1 c1. (s1, c1) \<in> set (steps a (s, cs)) \<and> (rest, cs') \<in> set (steps b (s1, c1)))"
  by auto

lemma steps_plain:
  assumes "no_group r" and "(rest, cs') \<in> set (steps r (s, cs))"
  shows "cs' = cs \<and> (\<exists>w \<in> lang r. s = w @ rest)"
  using no_group_caps [OF assms] steps_sound [OF assms(2)] by simp

lemma steps_Group_plain:
  assumes "no_group r" and "(rest, cs') \<in> set (steps (Group r) (s, cs))"
  shows "\<exists>w \<in> lang r. s = w @ rest \<and> cs' = cs @ [w]"
proof -
  from assms(2) obtain c1 where 1: "(rest, c1) \<in> set (steps r (s, cs))"
    and cs': "cs' = c1 @ [take (length s - length rest) s]" by auto
  from steps_plain [OF assms(1) 1] obtain w where "w \<in> lang r" "s = w @ rest" "c1 = cs" by blast
  with cs' show ?thesis by auto
qed

lemma no_group_exactly [simp]: "no_group r \<Longrightarrow> no_group (exactly n r)"
  by (induction n) auto

lemma no_group_lits [simp]: "no_group (lits s)"
  by (induction s) (auto simp: lit_def)

lemma lang_Sequ_elim:
  assumes "w \<in> lang (Sequ a b)" obtains u v where "w = u @ v" "u \<in> lang a" "v \<in> lang b"
  using assms by auto

lemma lang_SequI: "u \<in> lang a \<Longrightarrow> v \<in> lang b \<Longrightarrow> u @ v \<in> lang (Sequ a b)"
  by auto

end
