(* ===== verification/Credspec.thy ===== *)
theory Credspec
  imports Metadata Cpp_Regex
begin

text \<open>
  The input checks and the credential specification parsers of api/src/gmsa_service.cpp: the
  domain name pattern, the account name and credential blacklists, the lease identifiers, and
  \<open>parse_cred_spec\<close> with its domainless variant.
\<close>

section \<open>Constants and blacklists\<close>

definition LEASE_ID_LENGTH :: nat where "LEASE_ID_LENGTH = 10"
definition INPUT_CREDENTIALS_LENGTH :: nat where "INPUT_CREDENTIALS_LENGTH = 104"
definition DOMAIN_LENGTH :: nat where "DOMAIN_LENGTH = 253"

definition invalid_characters_ad_name :: "char list" where
  "invalid_characters_ad_name = [CHR ''&'', CHR '':'', CHR '']'', CHR ''['', CHR ''+'', CHR ''|'', CHR '';'',
     CHR ''$'', CHR ''*'', CHR ''?'', CHR ''<'', CHR ''>'', CHR ''!'', CHR '' '', CHR ''/'', CHR 0x5C,
     CHR 0x27, CHR 0x60, CHR ''~'']"

text \<open>auth/kerberos/src/krb.cpp.\<close>

definition invalid_characters :: "char list" where
  "invalid_characters = [CHR ''&'', CHR ''|'', CHR '';'', CHR '':'', CHR ''$'', CHR ''*'', CHR ''?'',
     CHR ''<'', CHR ''>'', CHR ''!'', CHR '' '', CHR 0x5C, CHR ''.'', CHR '']'', CHR ''['', CHR ''+'',
     CHR 0x27, CHR 0x60, CHR ''~'', CHR ''}'', CHR ''{'', CHR 0x22, CHR '')'', CHR ''('']"

definition contains_invalid_characters_in_credentials :: "string \<Rightarrow> bool" where
  "contains_invalid_characters_in_credentials value = contains_any invalid_characters value"

definition contains_invalid_characters_in_ad_account_name :: "string \<Rightarrow> bool" where
  "contains_invalid_characters_in_ad_account_name value = contains_any invalid_characters_ad_name value"

interpretation credbl: blacklist invalid_characters contains_invalid_characters_in_credentials
  by unfold_locales (simp add: contains_invalid_characters_in_credentials_def contains_any_iff)

interpretation adbl: blacklist invalid_characters_ad_name contains_invalid_characters_in_ad_account_name
  by unfold_locales (simp add: contains_invalid_characters_in_ad_account_name_def contains_any_iff)

text \<open>The hash signs of the text stand for double quotes.\<close>

definition dquoted :: "string \<Rightarrow> string" where
  "dquoted s = map (\<lambda>c. if c = CHR ''#'' then CHR 0x22 else c) s"

definition dummy_credspec :: string where
  "dummy_credspec = dquoted (
     ''{#CmsPlugins#:[#ActiveDirectory#],#DomainJoinConfig#:{#Sid#:#S-1-5-21-4066351383-'' @
     ''705263209-1606769140#,#MachineAccountName#:#webapp01#,#Guid#:#ac822f13-583e-49f7-aa7b-'' @
     ''284f9a8c97b6#,#DnsTreeName#:#contoso.com#,#DnsName#:#contoso.com#,#NetBiosName#:'' @
     ''#contoso#},#ActiveDirectoryConfig#:{#GroupManagedServiceAccounts#:[{#Name#:'' @
     ''#webapp01#,#Scope#:#contoso.com#},{#Name#:#webapp01#,#Scope#:#contoso#}],'' @
     ''#HostAccountConfig#:{#PortableCcgVersion#:#1#,#PluginGUID#:#{859E1386-BDB4-49E8-85C7-'' @
     ''3070B13920E1}#,#PluginInput#:{#CredentialArn#:#arn:aws:secretsmanager:us-west-2:'' @
     ''123456789:secret:gMSAUserSecret-PwmPaO#}}}}'')"

definition IsTestInvocationForUnitTests :: "string \<Rightarrow> bool" where
  "IsTestInvocationForUnitTests arn = (find_sub ''functionaltestcfspec'' arn \<noteq> None)"

section \<open>Domain names\<close>

definition ldh :: "char \<Rightarrow> bool" where
  "ldh c \<longleftrightarrow> isalnum c \<or> c = CHR ''-''"

text \<open>\<open>[a-zA-Z0-9]|[a-zA-Z0-9][a-zA-Z0-9\-]{0,61}[a-zA-Z0-9]\<close>.\<close>

definition label_regex :: regex where
  "label_regex = Altern (Cls isalnum) (Sequ (Cls isalnum) (Sequ (at_most 61 (Cls ldh)) (Cls isalnum)))"

definition domain_regex :: regex where
  "domain_regex = Sequ (Group label_regex) (Star (Group (Sequ (lit CHR ''.'') (Group label_regex))))"

definition isValidDomain :: "string \<Rightarrow> bool" where
  "isValidDomain value =
     (if value = [] then False
      else if regex_match domain_regex value \<noteq> None then True
      else False)"

text \<open>RFC 1123: up to 63 letters, digits and hyphens, beginning and ending with a letter or digit.\<close>

definition valid_label :: "string \<Rightarrow> bool" where
  "valid_label l \<longleftrightarrow> l \<noteq> [] \<and> length l \<le> 63 \<and> isalnum (hd l) \<and> isalnum (last l) \<and> list_all ldh l"

lemma lang_label: "lang label_regex = {l. valid_label l}"
proof -
  have "l \<in> lang label_regex \<longleftrightarrow> valid_label l" for l
  proof
    assume "l \<in> lang label_regex"
    then consider c where "l = [c]" "isalnum c"
      | c w d where "l = c # w @ [d]" "isalnum c" "isalnum d" "length w \<le> 61" "list_all ldh w"
      by (auto simp: label_regex_def lang_simps)
    then show "valid_label l" by cases (auto simp: valid_label_def ldh_def)
  next
    assume v: "valid_label l"
    show "l \<in> lang label_regex"
    proof (cases l rule: rev_cases)
      case Nil
      with v show ?thesis by (simp add: valid_label_def)
    next
      case (snoc w d)
      show ?thesis
      proof (cases w)
        case Nil
        with snoc v show ?thesis by (simp add: label_regex_def valid_label_def)
      next
        case (Cons c w')
        with snoc v have "isalnum c" "isalnum d" "length w' \<le> 61" "list_all ldh w'"
          by (auto simp: valid_label_def)
        then have "[c] @ (w' @ [d]) \<in> lang (Sequ (Cls isalnum) (Sequ (at_most 61 (Cls ldh)) (Cls isalnum)))"
          unfolding lang.simps lang_simps by blast
        with snoc Cons show ?thesis by (simp add: label_regex_def del: lang.simps(3))
      qed
    qed
  qed
  then show ?thesis by blast
qed

lemma join_concat: "join d (l # ls) = l @ concat (map (\<lambda>l. d # l) ls)"
  by (induction ls arbitrary: l) (auto simp: join_Cons)

lemma lang_domain: "lang domain_regex = {join CHR ''.'' ls | ls. ls \<noteq> [] \<and> (\<forall>l \<in> set ls. valid_label l)}"
proof -
  have dot: "lang (Group (Sequ (lit CHR ''.'') (Group label_regex))) = (\<lambda>l. CHR ''.'' # l) ` {l. valid_label l}"
    by (auto simp: lang_lit lang_label)
  have words: "\<exists>ls. concat ws = concat (map (\<lambda>l. CHR ''.'' # l) ls) \<and> (\<forall>l \<in> set ls. valid_label l)"
    if "set ws \<subseteq> (\<lambda>l. CHR ''.'' # l) ` {l. valid_label l}" for ws
  proof -
    from that have "\<forall>v \<in> set ws. \<exists>l. v = CHR ''.'' # l \<and> valid_label l" by auto
    then have "map (\<lambda>l. CHR ''.'' # l) (map tl ws) = ws" "\<forall>l \<in> set (map tl ws). valid_label l"
      by (force intro: map_idI)+
    then show ?thesis by metis
  qed
  show ?thesis
  proof (intro set_eqI iffI)
    fix s assume "s \<in> lang domain_regex"
    then obtain l ws where s: "s = l @ concat ws" and l: "valid_label l"
      and ws: "set ws \<subseteq> (\<lambda>l. CHR ''.'' # l) ` {l. valid_label l}"
      unfolding domain_regex_def lang.simps(3,5) lang.simps(6) [of label_regex] dot lang_label by blast
    from words [OF ws] obtain ls where
      "concat ws = concat (map (\<lambda>l. CHR ''.'' # l) ls)" "\<forall>l \<in> set ls. valid_label l" by blast
    with s l have "s = join CHR ''.'' (l # ls)" "\<forall>l \<in> set (l # ls). valid_label l"
      by (auto simp: join_concat)
    then show "s \<in> {join CHR ''.'' ls | ls. ls \<noteq> [] \<and> (\<forall>l \<in> set ls. valid_label l)}" by blast
  next
    fix s assume "s \<in> {join CHR ''.'' ls | ls. ls \<noteq> [] \<and> (\<forall>l \<in> set ls. valid_label l)}"
    then obtain l ls where s: "s = join CHR ''.'' (l # ls)" and v: "\<forall>l \<in> set (l # ls). valid_label l"
      by (auto simp: neq_Nil_conv)
    from v have "set (map (\<lambda>l. CHR ''.'' # l) ls) \<subseteq> (\<lambda>l. CHR ''.'' # l) ` {l. valid_label l}" by auto
    then have "concat (map (\<lambda>l. CHR ''.'' # l) ls) \<in>
        {concat ws | ws. set ws \<subseteq> (\<lambda>l. CHR ''.'' # l) ` {l. valid_label l}}" by blast
    moreover have "l \<in> {l. valid_label l}" using v by simp
    ultimately show "s \<in> lang domain_regex"
      unfolding s domain_regex_def lang.simps(3,5) lang.simps(6) [of label_regex] dot lang_label join_concat
      by blast
  qed
qed

lemma isValidDomain_labels:
  "isValidDomain s = (\<exists>ls. ls \<noteq> [] \<and> s = join CHR ''.'' ls \<and> (\<forall>l \<in> set ls. valid_label l))"
proof -
  have "isValidDomain s = (s \<noteq> [] \<and> s \<in> lang domain_regex)"
    by (simp add: isValidDomain_def regex_match_lang [symmetric])
  also have "\<dots> = (s \<in> lang domain_regex)"
  proof -
    have "join CHR ''.'' ls \<noteq> []" if "ls \<noteq> []" "\<forall>l \<in> set ls. valid_label l" for ls
      using that by (cases ls) (auto simp: join_concat valid_label_def)
    then show ?thesis by (auto simp: lang_domain)
  qed
  finally show ?thesis by (auto simp: lang_domain)
qed

text \<open>
  C19: A name passes \<open>isValidDomain\<close> exactly when it is a dotted list of RFC 1123 labels: each
  of one to 63 letters, digits and hyphens, beginning and ending with a letter or a digit.
\<close>
theorem isValidDomain_spec:
  "isValidDomain s = (\<exists>ls. ls \<noteq> [] \<and> s = join CHR ''.'' ls \<and> (\<forall>l \<in> set ls. valid_label l))"
  by (rule isValidDomain_labels)

theorem isValidDomain_spec_witness: "isValidDomain ''contoso.com'' \<and> \<not> isValidDomain []"
proof
  show "isValidDomain ''contoso.com''"
    unfolding isValidDomain_spec
    by (rule exI [of _ "[''contoso'', ''com'']"]) (simp add: valid_label_def isalnum_def ldh_def)
  show "\<not> isValidDomain []" by (simp add: isValidDomain_def)
qed

lemma isValidDomain_chars: "isValidDomain s \<Longrightarrow> c \<in> set s \<Longrightarrow> ldh c \<or> c = CHR ''.''"
proof -
  assume "isValidDomain s" "c \<in> set s"
  then obtain l ls where "s = join CHR ''.'' (l # ls)" "\<forall>l \<in> set (l # ls). valid_label l"
    by (auto simp: isValidDomain_labels neq_Nil_conv)
  with \<open>c \<in> set s\<close> show ?thesis
    by (auto simp: join_concat valid_label_def list_all_iff split: if_splits)
qed

section \<open>Lease identifiers\<close>

definition hex_digit :: "nat \<Rightarrow> char" where
  "hex_digit n = (if n < 10 then char_of (48 + n) else char_of (87 + n))"

text \<open>\<open>std::hex\<close> of a byte, then the padding to two digits.\<close>

definition hex_string :: "nat \<Rightarrow> string" where
  "hex_string n = (if n < 16 then [hex_digit n] else [hex_digit (n div 16), hex_digit (n mod 16)])"

definition hex_byte :: "nat \<Rightarrow> string" where
  "hex_byte n = (let hex = hex_string n in if length hex < 2 then CHR ''0'' # hex else hex)"

definition generate_lease_id :: "env \<Rightarrow> string WM" where
  "generate_lease_id E = getM (\<lambda>w.
     concat (map (\<lambda>i. hex_byte (random_byte E (evs w) i mod 256)) [0..<LEASE_ID_LENGTH]))"

section \<open>Parsing\<close>

text \<open>The loop over the accounts: the first name that is not empty.\<close>

fun first_account :: "'j jsonlib \<Rightarrow> 'j list \<Rightarrow> cpp_exn + string" where
  "first_account J [] = Inr []"
| "first_account J (gmsa # rest) =
     bindE (string_member J gmsa ''Name'') (\<lambda>n.
       if n \<noteq> [] then Inr n else first_account J rest)"

definition credspec_names :: "'j jsonlib \<Rightarrow> 'j \<Rightarrow> cpp_exn + string \<times> string" where
  "credspec_names J root =
     bindE (json_path J [''DomainJoinConfig'', ''DnsName''] root) (\<lambda>d.
     bindE (as_string J d) (\<lambda>dn.
     bindE (json_path J [''ActiveDirectoryConfig'', ''GroupManagedServiceAccounts''] root) (\<lambda>gmsa_array.
     bindE (first_account J (elements J gmsa_array)) (\<lambda>san. Inr (dn, san)))))"

definition credspec_arn :: "'j jsonlib \<Rightarrow> 'j \<Rightarrow> cpp_exn + string" where
  "credspec_arn J root =
     bindE (json_path J [''ActiveDirectoryConfig'', ''HostAccountConfig'', ''PluginInput'', ''CredentialArn''] root)
       (as_string J)"

definition parse_cred_spec_try ::
    "'j jsonlib \<Rightarrow> string \<Rightarrow> krb_ticket_info \<Rightarrow> cpp_exn + int \<times> krb_ticket_info" where
  "parse_cred_spec_try J credspec_data info =
     (if credspec_data = [] then Inr (-1, info) else
      bindE (parse_stream J credspec_data) (\<lambda>(_, root).
      bindE (credspec_names J root) (\<lambda>(dn, san).
        if san = [] \<or> dn = [] then Inr (-1, info)
        else if \<not> isValidDomain dn \<or> contains_invalid_characters_in_ad_account_name san then Inr (-1, info)
        else bindE (credspec_arn J root) (\<lambda>arn.
          Inr (0, info\<lparr>domain_name := dn, service_account_name := san, credential_arn := arn\<rparr>)))))"

definition parse_cred_spec :: "'j jsonlib \<Rightarrow> string \<Rightarrow> krb_ticket_info \<Rightarrow> int \<times> krb_ticket_info" where
  "parse_cred_spec J credspec_data info =
     (case parse_cred_spec_try J credspec_data info of Inl _ \<Rightarrow> (-1, info) | Inr r \<Rightarrow> r)"

definition parse_cred_spec_domainless_try ::
    "'j jsonlib \<Rightarrow> string \<Rightarrow> krb_ticket_info \<Rightarrow> krb_ticket_arn_mapping \<Rightarrow>
     cpp_exn + int \<times> krb_ticket_info \<times> krb_ticket_arn_mapping" where
  "parse_cred_spec_domainless_try J credspec_data info mapping =
     (if credspec_data = [] then Inr (-1, info, mapping) else
      bindE (parse_stream J credspec_data) (\<lambda>(_, root).
      bindE (credspec_names J root) (\<lambda>(dn, san).
        if san = [] \<or> dn = [] then Inr (-1, info, mapping)
        else if \<not> isValidDomain dn \<or> contains_invalid_characters_in_ad_account_name san
        then Inr (-1, info, mapping)
        else bindE (credspec_arn J root) (\<lambda>arn.
          if arn = [] then Inr (-1, info, mapping)
          else
            let info' = info\<lparr>domain_name := dn, service_account_name := san,
                  credspec_info := credential_spec_arn mapping\<rparr>
            in Inr (0, info', mapping\<lparr>credential_domainless_user_arn := arn,
                  arn_krb_file_path := krb_file_path info'\<rparr>)))))"

definition parse_cred_spec_domainless ::
    "'j jsonlib \<Rightarrow> string \<Rightarrow> krb_ticket_info \<Rightarrow> krb_ticket_arn_mapping \<Rightarrow>
     int \<times> krb_ticket_info \<times> krb_ticket_arn_mapping" where
  "parse_cred_spec_domainless J credspec_data info mapping =
     (case parse_cred_spec_domainless_try J credspec_data info mapping of
        Inl _ \<Rightarrow> (-1, info, mapping)
      | Inr r \<Rightarrow> r)"

section \<open>What the parsers promise\<close>

lemma parse_cred_spec_ok:
  assumes "parse_cred_spec J data info = (0, info')"
  shows "isValidDomain (domain_name info') \<and>
    \<not> contains_invalid_characters_in_ad_account_name (service_account_name info') \<and>
    service_account_name info' \<noteq> [] \<and> krb_file_path info' = krb_file_path info"
  using assms
  by (auto simp: parse_cred_spec_def parse_cred_spec_try_def bindE_def
      split: sum.splits if_splits prod.splits)

lemma parse_cred_spec_code:
  "fst (parse_cred_spec J data info) = 0 \<or> parse_cred_spec J data info = (-1, info)"
  by (auto simp: parse_cred_spec_def parse_cred_spec_try_def bindE_def
      split: sum.splits prod.splits)


lemma domainless_ok:
  assumes "parse_cred_spec_domainless J data info m = (0, info', m')"
  shows "isValidDomain (domain_name info') \<and>
    \<not> contains_invalid_characters_in_ad_account_name (service_account_name info') \<and>
    service_account_name info' \<noteq> [] \<and> credential_domainless_user_arn m' \<noteq> [] \<and>
    krb_file_path info' = krb_file_path info"
  using assms
  by (auto simp: parse_cred_spec_domainless_def parse_cred_spec_domainless_try_def bindE_def Let_def
      split: sum.splits if_splits prod.splits)

text \<open>
  The domainless parser leaves both records as they were with -1, or reports 0 with names
  checked as for joined hosts, the specification's ARN recorded with the ticket, and the mapping
  holding a non-empty secret ARN and the path the ticket had.
\<close>
theorem parse_cred_spec_domainless_contract:
  "case parse_cred_spec_domainless J data info m of (code, info', m') \<Rightarrow>
     code = -1 \<and> info' = info \<and> m' = m \<or>
     code = 0 \<and> isValidDomain (domain_name info') \<and> service_account_name info' \<noteq> [] \<and>
       \<not> contains_invalid_characters_in_ad_account_name (service_account_name info') \<and>
       credspec_info info' = credential_spec_arn m \<and> krb_file_path info' = krb_file_path info \<and>
       credential_spec_arn m' = credential_spec_arn m \<and>
       credential_domainless_user_arn m' \<noteq> [] \<and> arn_krb_file_path m' = krb_file_path info"
  by (auto simp: parse_cred_spec_domainless_def parse_cred_spec_domainless_try_def bindE_def Let_def
      split: sum.splits prod.splits)

text \<open>What a value must look like to be accepted, for any JSON library obeying its documentation.\<close>

lemma first_account_skip:
  assumes "\<forall>g \<in> set gs. string_member J g ''Name'' = Inr []" and "string_member J g ''Name'' = Inr n" and "n \<noteq> []"
  shows "first_account J (gs @ g # rest) = Inr n"
  using assms by (induction gs) auto

text \<open>
  A well-formed specification is accepted: when its members read as the format says, its first
  named account is clean and its domain valid, \<open>parse_cred_spec\<close> returns 0 with these values,
  skipping accounts without a name.
\<close>
theorem parse_cred_spec_accepts:
  assumes "data \<noteq> []" and "parse_stream J data = Inr (ok, root)"
    and "json_path J [''DomainJoinConfig'', ''DnsName''] root = Inr d" and "as_string J d = Inr dn"
    and "json_path J [''ActiveDirectoryConfig'', ''GroupManagedServiceAccounts''] root = Inr arr"
    and "elements J arr = gs @ g # rest" and "\<forall>g \<in> set gs. string_member J g ''Name'' = Inr []"
    and "string_member J g ''Name'' = Inr san" and "san \<noteq> []" and "credspec_arn J root = Inr arn"
    and "isValidDomain dn" and "\<forall>c \<in> set san. c \<notin> set invalid_characters_ad_name"
  shows "parse_cred_spec J data info =
    (0, info\<lparr>domain_name := dn, service_account_name := san, credential_arn := arn\<rparr>)"
proof -
  have "first_account J (elements J arr) = Inr san"
    unfolding assms(6) by (rule first_account_skip [OF assms(7-9)])
  moreover have "\<not> contains_invalid_characters_in_ad_account_name san"
    using assms(12) by (simp add: adbl.dirty_iff)
  moreover have "dn \<noteq> []" using assms(11) by (auto simp: isValidDomain_def)
  ultimately show ?thesis using assms(1-5,9-11)
    by (simp add: parse_cred_spec_def parse_cred_spec_try_def credspec_names_def del: json_path.simps)
qed

text \<open>A specification tree like the one in the sources, for evaluation.\<close>

definition spec_tree_arn :: "string \<Rightarrow> string \<Rightarrow> string \<Rightarrow> tree" where
  "spec_tree_arn arn dn san = TObj [(''DomainJoinConfig'', TObj [(''DnsName'', TStr dn)]),
     (''ActiveDirectoryConfig'', TObj [
        (''GroupManagedServiceAccounts'', TArr [TObj [(''Name'', TStr san)]]),
        (''HostAccountConfig'', TObj [(''PluginInput'', TObj [(''CredentialArn'', TStr arn)])])])]"

definition spec_tree :: "string \<Rightarrow> string \<Rightarrow> tree" where
  "spec_tree = spec_tree_arn ''arn:1''"

lemma spec_tree_parse:
  "parse_stream tree_json (tree_write t) = Inr (True, t)"
  using tree_read_write(1) [of t "length (tree_write t)" "[]"] by (simp add: tree_json_def)

lemma spec_tree_arn_names:
  "json_path tree_json [''DomainJoinConfig'', ''DnsName''] (spec_tree_arn arn dn san) = Inr (TStr dn)"
  "json_path tree_json [''ActiveDirectoryConfig'', ''GroupManagedServiceAccounts''] (spec_tree_arn arn dn san) =
     Inr (TArr [TObj [(''Name'', TStr san)]])"
  "credspec_arn tree_json (spec_tree_arn arn dn san) = Inr arn"
  "as_string tree_json (TStr dn) = Inr dn"
  "elements tree_json (TArr [TObj [(''Name'', TStr san)]]) = [] @ TObj [(''Name'', TStr san)] # []"
  "string_member tree_json (TObj [(''Name'', TStr san)]) ''Name'' = Inr san"
  by (simp_all add: spec_tree_arn_def tree_json_def credspec_arn_def string_member_def)

lemma spec_tree_names:
  "json_path tree_json [''DomainJoinConfig'', ''DnsName''] (spec_tree dn san) = Inr (TStr dn)"
  "json_path tree_json [''ActiveDirectoryConfig'', ''GroupManagedServiceAccounts''] (spec_tree dn san) =
     Inr (TArr [TObj [(''Name'', TStr san)]])"
  "credspec_arn tree_json (spec_tree dn san) = Inr ''arn:1''"
  "as_string tree_json (TStr dn) = Inr dn"
  "elements tree_json (TArr [TObj [(''Name'', TStr san)]]) = [] @ TObj [(''Name'', TStr san)] # []"
  "string_member tree_json (TObj [(''Name'', TStr san)]) ''Name'' = Inr san"
  unfolding spec_tree_def by (rule spec_tree_arn_names)+

lemma contoso_valid: "isValidDomain ''contoso.com''"
  unfolding isValidDomain_labels
  by (rule exI [of _ "[''contoso'', ''com'']"]) (simp add: valid_label_def isalnum_def ldh_def)

theorem parse_cred_spec_accepts_witness:
  "parse_cred_spec tree_json (tree_write (spec_tree ''contoso.com'' ''webapp01'')) new_krb_ticket_info =
    (0, new_krb_ticket_info\<lparr>domain_name := ''contoso.com'', service_account_name := ''webapp01'',
        credential_arn := ''arn:1''\<rparr>)"
proof -
  have ne: "tree_write (spec_tree ''contoso.com'' ''webapp01'') \<noteq> []" by (simp add: spec_tree_def spec_tree_arn_def)
  have cl: "\<forall>c \<in> set ''webapp01''. c \<notin> set invalid_characters_ad_name" by code_simp
  show ?thesis
    by (rule parse_cred_spec_accepts [OF ne spec_tree_parse spec_tree_names(1) spec_tree_names(4)
        spec_tree_names(2) spec_tree_names(5) _ spec_tree_names(6) _ spec_tree_names(3) contoso_valid cl])
       simp_all
qed

text \<open>
  The account blacklist does not stop a line break: a specification whose account is a name, a
  line feed, and more text is accepted as it is, although the name goes into shell commands.
\<close>
theorem newline_account_accepted:
  assumes "isValidDomain dn"
  shows "parse_cred_spec tree_json (tree_write (spec_tree dn (''web'' @ [newline] @ ''reboot'' @ [newline])))
      new_krb_ticket_info =
    (0, new_krb_ticket_info\<lparr>domain_name := dn,
        service_account_name := ''web'' @ [newline] @ ''reboot'' @ [newline], credential_arn := ''arn:1''\<rparr>)"
proof -
  let ?san = "''web'' @ [newline] @ ''reboot'' @ [newline]"
  have "\<not> contains_invalid_characters_in_ad_account_name ?san" by code_simp
  moreover have "tree_write (spec_tree dn ?san) \<noteq> []" by (simp add: spec_tree_def spec_tree_arn_def)
  moreover have "dn \<noteq> []" using assms by (auto simp: isValidDomain_def)
  ultimately show ?thesis using assms
    by (simp add: parse_cred_spec_def parse_cred_spec_try_def credspec_names_def spec_tree_parse
        spec_tree_names del: json_path.simps)
qed

theorem newline_account_accepted_witness:
  "service_account_name (snd (parse_cred_spec tree_json
     (tree_write (spec_tree ''contoso.com'' (''web'' @ [newline] @ ''reboot'' @ [newline]))) new_krb_ticket_info))
   = ''web'' @ [newline] @ ''reboot'' @ [newline]"
  using newline_account_accepted [OF contoso_valid] by simp

lemma webapp_parsed_code:
  "fst (parse_cred_spec tree_json (tree_write (spec_tree ''contoso.com'' ''webapp01'')) new_krb_ticket_info) = 0"
proof -
  have ne: "tree_write (spec_tree ''contoso.com'' ''webapp01'') \<noteq> []" by (simp add: spec_tree_def spec_tree_arn_def)
  have cl: "contains_invalid_characters_in_ad_account_name ''webapp01'' = False" by code_simp
  show ?thesis
    using ne contoso_valid cl
    by (simp add: parse_cred_spec_def parse_cred_spec_try_def credspec_names_def spec_tree_parse
        spec_tree_names del: json_path.simps)
qed


section \<open>Lease identifiers are as random as their bytes\<close>

lemma length_hex_byte: "length (hex_byte n) = 2"
  by (simp add: hex_byte_def hex_string_def Let_def)

lemma hex_digit_inj: "n < 16 \<Longrightarrow> m < 16 \<Longrightarrow> hex_digit n = hex_digit m \<Longrightarrow> n = m"
proof -
  assume a: "n < 16" "m < 16" "hex_digit n = hex_digit m"
  have v: "(of_char (hex_digit k) :: nat) = (if k < 10 then 48 + k else 87 + k)" if "k < 16" for k
    using that by (simp add: hex_digit_def of_char_of take_bit_nat_eq_self)
  from a(3) have "(of_char (hex_digit n) :: nat) = of_char (hex_digit m)" by simp
  with v [OF a(1)] v [OF a(2)] a(1,2) show ?thesis by (auto split: if_splits)
qed

lemma hex_byte_val: "hex_byte n = [hex_digit (n div 16), hex_digit (n mod 16)]"
proof -
  have "CHR ''0'' = hex_digit 0" by code_simp
  then show ?thesis by (simp add: hex_byte_def hex_string_def Let_def)
qed

lemma hex_byte_inj:
  assumes "n < 256" and "m < 256" and "hex_byte n = hex_byte m"
  shows "n = m"
proof -
  from assms have "n div 16 = m div 16" "n mod 16 = m mod 16"
    by (auto simp: hex_byte_val intro: hex_digit_inj)
  then show ?thesis by (metis div_mult_mod_eq)
qed

lemma concat_blocks_inj:
  assumes "\<And>i. length (f i) = 2" and "\<And>i. length (g i) = 2" and "concat (map f is) = concat (map g is)"
    and "i \<in> set is"
  shows "f i = g i"
  using assms(3,4)
proof (induction "is")
  case (Cons j js)
  then have "f j @ concat (map f js) = g j @ concat (map g js)" by simp
  then have "f j = g j \<and> concat (map f js) = concat (map g js)"
    using assms(1,2) by (metis append_eq_append_conv)
  with Cons show ?case by auto
qed simp

text \<open>A lease identifier is a plain path component.\<close>

lemma hex_digit_alnum: "n < 16 \<Longrightarrow> isalnum (hex_digit n)"
  by (simp add: hex_digit_def isalnum_def of_char_of take_bit_nat_eq_self Let_def)

lemma lease_id_plain:
  assumes "generate_lease_id E w = (Inr s, w')"
  shows "w' = w" and "s \<noteq> []" and "c \<in> set s \<Longrightarrow> isalnum c"
proof -
  have s: "s = concat (map (\<lambda>i. hex_byte (random_byte E (evs w) i mod 256)) [0..<10])" and "w' = w"
    using assms by (auto simp: generate_lease_id_def LEASE_ID_LENGTH_def)
  then show "w' = w" by simp
  have "length s = 20"
    unfolding s by (simp add: length_concat length_hex_byte o_def sum_list_triv)
  then show "s \<noteq> []" by auto
  show "c \<in> set s \<Longrightarrow> isalnum c"
    unfolding s by (auto simp: hex_byte_val intro!: hex_digit_alnum)
qed

text \<open>
  A lease identifier is twenty characters long and determines the ten random bytes it was made
  from: two calls that return the same identifier drew the same bytes.
\<close>
theorem lease_id_injective:
  assumes "generate_lease_id E w = (Inr s, w1)" and "generate_lease_id E' w' = (Inr s, w2)"
  shows "length s = 20 \<and> (\<forall>i < 10. random_byte E (evs w) i mod 256 = random_byte E' (evs w') i mod 256)"
proof -
  let ?f = "\<lambda>i. hex_byte (random_byte E (evs w) i mod 256)"
  let ?g = "\<lambda>i. hex_byte (random_byte E' (evs w') i mod 256)"
  have s: "s = concat (map ?f [0..<10])" "s = concat (map ?g [0..<10])"
    using assms by (auto simp: generate_lease_id_def LEASE_ID_LENGTH_def)
  have "length s = 20"
    unfolding s(1) by (simp add: length_concat length_hex_byte o_def sum_list_triv)
  moreover have "random_byte E (evs w) i mod 256 = random_byte E' (evs w') i mod 256" if "i < 10" for i
  proof -
    have "?f i = ?g i"
      by (rule concat_blocks_inj [of ?f ?g "[0..<10]"]) (use s that in \<open>simp_all add: length_hex_byte\<close>)
    then show ?thesis by (rule hex_byte_inj [rotated 2]) simp_all
  qed
  ultimately show ?thesis by blast
qed

theorem lease_id_injective_witness:
  "length (concat (map (\<lambda>i. hex_byte (i mod 256)) [0..<10])) = 20"
proof -
  have g: "generate_lease_id quiet_env start_world =
      (Inr (concat (map (\<lambda>i. hex_byte (i mod 256)) [0..<10])), start_world)"
    by (simp add: generate_lease_id_def quiet_env_def LEASE_ID_LENGTH_def)
  from lease_id_injective [OF g g] show ?thesis by blast
qed

end
