(* ===== verification/Klist.thy ===== *)
theory Klist
  imports Util_Ticket Credspec
begin

text \<open>
  The reading of \<open>klist\<close> output in auth/kerberos/src/krb.cpp: the expiration date found by regular
  expression, the standard library's \<open>sscanf\<close>, \<open>strptime\<close> and \<open>mktime\<close> as far as they are used, and
  the decision whether a ticket needs renewal. Local time is a fixed offset from UTC; the field
  \<open>tm_isdst\<close>, which the code leaves uninitialised, is not modelled.
\<close>

section \<open>The expression\<close>

definition digits :: "nat \<Rightarrow> regex" where "digits n = exactly n (Cls isdigit)"
definition separator_regex :: regex where "separator_regex = exactly 1 (Cls (\<lambda>c. c = CHR ''/''))"
definition space_regex :: regex where "space_regex = plus1 (Cls (\<lambda>c. c = CHR '' ''))"

definition time_regex :: regex where
  "time_regex = Group (Sequ (digits 2) (Sequ (lit CHR '':'') (Sequ (digits 2)
     (Sequ (lit CHR '':'') (digits 2)))))"

definition date_regex :: "nat \<Rightarrow> regex" where
  "date_regex year_digits = Group (Sequ (digits 2) (Sequ separator_regex (Sequ (digits 2)
     (Sequ separator_regex (digits year_digits)))))"

definition expires_regex :: "nat \<Rightarrow> regex" where
  "expires_regex year_digits =
     Sequ (date_regex year_digits) (Sequ space_regex (Sequ time_regex (Sequ space_regex
       (Sequ (date_regex year_digits) (Sequ space_regex (Sequ time_regex (Sequ space_regex
         (lits ''krbtgt''))))))))"

text \<open>The loop over the groups after the whole match: each goes to the first variable still empty.\<close>

fun assign_groups :: "string list \<Rightarrow> string \<times> string \<times> string \<times> string \<Rightarrow> string \<times> string \<times> string \<times> string" where
  "assign_groups [] v = v"
| "assign_groups (g # gs) (vd, vt, ed, et) =
     assign_groups gs
       (if vd = [] then (g, vt, ed, et)
        else if vt = [] then (vd, g, ed, et)
        else if ed = [] then (vd, vt, g, et)
        else if et = [] then (vd, vt, ed, g)
        else (vd, vt, ed, et))"

definition expiration_of :: "string list \<Rightarrow> string" where
  "expiration_of groups = (case assign_groups groups ([], [], [], []) of
     (_, _, ed, et) \<Rightarrow> ed @ '' '' @ et)"

definition search_expiration :: "string \<Rightarrow> string list option" where
  "search_expiration klist_ticket_info =
     (case regex_search (expires_regex 4) klist_ticket_info of
        Some g \<Rightarrow> Some g
      | None \<Rightarrow> regex_search (expires_regex 2) klist_ticket_info)"

definition get_ticket_expiration :: "env \<Rightarrow> string \<Rightarrow> string WM" where
  "get_ticket_expiration E klist_ticket_info =
     (case search_expiration klist_ticket_info of
        None \<Rightarrow>
          thenM (logger E LOG_ERR (''Unable to parse klist for ticket expiration: '' @ klist_ticket_info)) (ret [])
      | Some g \<Rightarrow>
          thenM (logger E LOG_INFO (''klist expires date = '' @ expiration_of g)) (ret (expiration_of g)))"

section \<open>Dates\<close>

text \<open>\<open>%79s\<close>: skip blanks, read up to 79 other characters; nothing when the text ends first.\<close>

definition scan_word :: "string \<Rightarrow> (string \<times> string) option" where
  "scan_word s = (let t = dropWhile isspace s; w = take 79 (takeWhile (\<lambda>c. \<not> isspace c) t) in
     if w = [] then None else Some (w, drop (length w) t))"

text \<open>\<open>sscanf( s, "%79s %79s", a, b )\<close>; using a buffer that was not filled is undefined.\<close>

definition scan_two :: "string \<Rightarrow> fault + string \<times> string" where
  "scan_two s = (case scan_word (c_str s) of
     None \<Rightarrow> Inl (Undef UninitRead)
   | Some (a, r) \<Rightarrow> (case scan_word r of
        None \<Rightarrow> Inl (Undef UninitRead)
      | Some (b, _) \<Rightarrow> Inr (a, b)))"

definition digit_val :: "char \<Rightarrow> nat" where "digit_val c = of_char c - 48"

text \<open>A number of \<open>strptime\<close>: after blanks, at most \<open>n\<close> digits, as long as a further one could fit.\<close>

fun number_digits :: "nat \<Rightarrow> nat \<Rightarrow> nat \<Rightarrow> string \<Rightarrow> nat \<times> string" where
  "number_digits hi 0 v s = (v, s)"
| "number_digits hi (Suc n) v [] = (v, [])"
| "number_digits hi (Suc n) v (c # s) =
     (if isdigit c \<and> v * 10 \<le> hi then number_digits hi n (v * 10 + digit_val c) s else (v, c # s))"

definition get_number :: "nat \<Rightarrow> nat \<Rightarrow> nat \<Rightarrow> string \<Rightarrow> (nat \<times> string) option" where
  "get_number lo hi n s =
     (case dropWhile (\<lambda>c. c = CHR '' '') s of
        [] \<Rightarrow> None
      | c # r \<Rightarrow> if \<not> isdigit c then None else
          (case number_digits hi (n - 1) (digit_val c) r of
             (v, r') \<Rightarrow> if lo \<le> v \<and> v \<le> hi then Some (v, r') else None))"

definition match_char :: "char \<Rightarrow> string \<Rightarrow> string option" where
  "match_char c s = (case s of d # r \<Rightarrow> if d = c then Some r else None | [] \<Rightarrow> None)"

record tm =
  tm_mon :: nat
  tm_mday :: nat
  tm_year :: nat
  tm_hour :: nat
  tm_min :: nat
  tm_sec :: nat

text \<open>\<open>strptime( s, "%m/%d/%Y %T", &tm )\<close>; the year is the full one.\<close>

definition strptime_expiry :: "string \<Rightarrow> tm option" where
  "strptime_expiry s =
     Option.bind (get_number 1 12 2 s) (\<lambda>(m, s).
     Option.bind (match_char CHR ''/'' s) (\<lambda>s.
     Option.bind (get_number 1 31 2 s) (\<lambda>(d, s).
     Option.bind (match_char CHR ''/'' s) (\<lambda>s.
     Option.bind (get_number 0 9999 4 s) (\<lambda>(y, s).
     Option.bind (get_number 0 23 2 (dropWhile isspace s)) (\<lambda>(h, s).
     Option.bind (match_char CHR '':'' s) (\<lambda>s.
     Option.bind (get_number 0 59 2 s) (\<lambda>(mi, s).
     Option.bind (match_char CHR '':'' s) (\<lambda>s.
     Option.bind (get_number 0 61 2 s) (\<lambda>(sec, s).
       Some \<lparr>tm_mon = m, tm_mday = d, tm_year = y, tm_hour = h, tm_min = mi, tm_sec = sec\<rparr>))))))))))"

text \<open>Days from 1970-01-01 to a date of the Gregorian calendar, counted from March.\<close>

definition days_from_civil :: "nat \<Rightarrow> nat \<Rightarrow> nat \<Rightarrow> int" where
  "days_from_civil y m d =
     (let y' = int y - (if m \<le> 2 then 1 else 0); m' = (int m + 9) mod 12
      in 365 * y' + y' div 4 - y' div 100 + y' div 400 + (153 * m' + 2) div 5 + int d - 1 - 719468)"

definition mktime :: "env \<Rightarrow> tm \<Rightarrow> int" where
  "mktime E t = days_from_civil (tm_year t) (tm_mon t) (tm_mday t) * 86400 +
     int (tm_hour t) * 3600 + int (tm_min t) * 60 + int (tm_sec t) - tz_offset E"

section \<open>The decision\<close>

definition SECONDS_IN_HOUR :: int where "SECONDS_IN_HOUR = 3600"
definition RENEW_TICKET_HOURS :: int where "RENEW_TICKET_HOURS = 1"

text \<open>\<open>difftime( next, now ) / SECONDS_IN_HOUR <= RENEW_TICKET_HOURS\<close>, over the reals.\<close>

definition expires_soon :: "int \<Rightarrow> int \<Rightarrow> bool" where
  "expires_soon next_renewal_time current_time \<longleftrightarrow>
     next_renewal_time - current_time \<le> RENEW_TICKET_HOURS * SECONDS_IN_HOUR"

definition klist_cmd :: "string \<Rightarrow> string" where
  "klist_cmd path = ''export KRB5CCNAME='' @ path @ '' &&  klist''"

fun renewal_scan :: "env \<Rightarrow> string list \<Rightarrow> bool WM" where
  "renewal_scan E [] = ret False"
| "renewal_scan E (result # results) =
     (if find_sub ''renew until'' result \<noteq> None then
        bindM (get_ticket_expiration E result) (\<lambda>renewal_date_time.
        bindM (liftM (scan_two renewal_date_time)) (\<lambda>(renewal_date, renewal_time).
        case strptime_expiry (c_str (rtrim (ltrim (renewal_date @ '' '' @ renewal_time)))) of
          None \<Rightarrow> ret False
        | Some t \<Rightarrow> getM (\<lambda>w. expires_soon (mktime E t) (time_now E (evs w)))))
      else renewal_scan E results)"

definition is_ticket_ready_for_renewal :: "env \<Rightarrow> krb_ticket_info \<Rightarrow> bool WM" where
  "is_ticket_ready_for_renewal E info =
     bindM (exec_shell_cmd E (klist_cmd (krb_file_path info))) (\<lambda>r.
       if fst r \<noteq> 0 then ret False
       else renewal_scan E (split_string (snd r) CHR ''#''))"

section \<open>What the search finds\<close>

lemma no_group_space [simp]: "no_group space_regex"
  by (simp add: space_regex_def plus1_def)

definition date_word :: "nat \<Rightarrow> string set" where
  "date_word n = {m @ ''/'' @ d @ ''/'' @ y | m d y. length m = 2 \<and> length d = 2 \<and> length y = n \<and>
     list_all isdigit (m @ d @ y)}"

definition time_word :: "string set" where
  "time_word = {h @ '':'' @ m @ '':'' @ s | h m s. length h = 2 \<and> length m = 2 \<and> length s = 2 \<and>
     list_all isdigit (h @ m @ s)}"

definition blanks :: "string set" where
  "blanks = {w. w \<noteq> [] \<and> list_all (\<lambda>c. c = CHR '' '') w}"

lemma lang_sep: "lang separator_regex = {''/''}"
  unfolding separator_regex_def lang_exactly_Cls by (auto simp: length_Suc_conv)

lemma date_parts:
  "date_regex n = Group (Sequ (digits 2) (Sequ separator_regex (Sequ (digits 2)
     (Sequ separator_regex (digits n)))))"
  by (rule date_regex_def)

lemma date_body_lang:
  "lang (Sequ (digits 2) (Sequ separator_regex (Sequ (digits 2) (Sequ separator_regex (digits n))))) =
   date_word n"
  unfolding date_word_def lang.simps(3) lang_sep digits_def lang_exactly_Cls list_all_append
  by (auto, blast+)

lemma time_body_lang:
  "lang (Sequ (digits 2) (Sequ (lit CHR '':'') (Sequ (digits 2) (Sequ (lit CHR '':'') (digits 2))))) =
   time_word"
  unfolding time_word_def lang.simps(3) lang_lit digits_def lang_exactly_Cls list_all_append
  by (auto, blast+)

lemma space_lang: "lang space_regex = blanks"
  by (simp add: space_regex_def blanks_def lang_plus1_Cls)

text \<open>A ticket's line in \<open>klist\<close> output: start, expiry and the ticket-granting service.\<close>

definition ticket_line :: "nat \<Rightarrow> string \<Rightarrow> string \<Rightarrow> string \<Rightarrow> bool" where
  "ticket_line n d t line \<longleftrightarrow> d \<in> date_word n \<and> t \<in> time_word \<and>
     (\<exists>d1 b1 t1 b2 b3 b4. d1 \<in> date_word n \<and> t1 \<in> time_word \<and> b1 \<in> blanks \<and> b2 \<in> blanks \<and>
        b3 \<in> blanks \<and> b4 \<in> blanks \<and>
        line = d1 @ b1 @ t1 @ b2 @ d @ b3 @ t @ b4 @ ''krbtgt'')"

lemma lang_date: "lang (date_regex n) = date_word n"
  by (simp only: date_parts lang.simps(6) date_body_lang)

lemma lang_time: "lang time_regex = time_word"
  by (simp only: time_regex_def lang.simps(6) time_body_lang)

lemma expires_lang: "lang (expires_regex n) = {line. \<exists>d t. ticket_line n d t line}"
proof (intro set_eqI iffI)
  fix line assume "line \<in> lang (expires_regex n)"
  then obtain d1 b1 t1 b2 d b3 t b4 k where
    "d1 \<in> lang (date_regex n)" "b1 \<in> lang space_regex" "t1 \<in> lang time_regex" "b2 \<in> lang space_regex"
    "d \<in> lang (date_regex n)" "b3 \<in> lang space_regex" "t \<in> lang time_regex" "b4 \<in> lang space_regex"
    "k \<in> lang (lits ''krbtgt'')" and line: "line = d1 @ b1 @ t1 @ b2 @ d @ b3 @ t @ b4 @ k"
    unfolding expires_regex_def by (elim lang_Sequ_elim) blast
  then show "line \<in> {line. \<exists>d t. ticket_line n d t line}"
    unfolding ticket_line_def lang_date lang_time space_lang lang_lits by blast
next
  fix line assume "line \<in> {line. \<exists>d t. ticket_line n d t line}"
  then obtain d1 b1 t1 b2 d b3 t b4 where
    *: "d1 \<in> lang (date_regex n)" "b1 \<in> lang space_regex" "t1 \<in> lang time_regex" "b2 \<in> lang space_regex"
    "d \<in> lang (date_regex n)" "b3 \<in> lang space_regex" "t \<in> lang time_regex" "b4 \<in> lang space_regex"
    and line: "line = d1 @ b1 @ t1 @ b2 @ d @ b3 @ t @ b4 @ ''krbtgt''"
    unfolding ticket_line_def lang_date lang_time space_lang by blast
  have "''krbtgt'' \<in> lang (lits ''krbtgt'')" unfolding lang_lits by simp
  with * show "line \<in> lang (expires_regex n)"
    unfolding line expires_regex_def by (intro lang_SequI)
qed

lemma no_group_date [simp]: "no_group (Sequ (digits 2) (Sequ separator_regex (Sequ (digits 2)
     (Sequ separator_regex (digits n)))))"
  by (simp add: digits_def separator_regex_def)

lemma no_group_time [simp]: "no_group (Sequ (digits 2) (Sequ (lit CHR '':'') (Sequ (digits 2)
     (Sequ (lit CHR '':'') (digits 2)))))"
  by (simp add: digits_def lit_def)

lemma steps_date:
  assumes "(rest, cs') \<in> set (steps (date_regex n) (s, cs))"
  shows "\<exists>w \<in> date_word n. s = w @ rest \<and> cs' = cs @ [w]"
  using steps_Group_plain [OF no_group_date] assms by (simp only: date_parts date_body_lang)

lemma steps_time:
  assumes "(rest, cs') \<in> set (steps time_regex (s, cs))"
  shows "\<exists>w \<in> time_word. s = w @ rest \<and> cs' = cs @ [w]"
  using steps_Group_plain [OF no_group_time] assms by (simp only: time_regex_def time_body_lang)

lemma steps_space:
  assumes "(rest, cs') \<in> set (steps space_regex (s, cs))"
  shows "cs' = cs \<and> (\<exists>w \<in> blanks. s = w @ rest)"
  using steps_plain [OF no_group_space assms] by (simp add: space_lang)

lemma expires_groups:
  assumes "(rest, cs) \<in> set (steps (expires_regex n) (s, []))"
  shows "\<exists>d1 t1 d t line. cs = [d1, t1, d, t] \<and> d1 \<noteq> [] \<and> t1 \<noteq> [] \<and> d \<noteq> [] \<and> t \<noteq> [] \<and>
    ticket_line n d t line \<and> s = line @ rest"
proof -
  obtain s1 c1 s2 c2 s3 c3 s4 c4 s5 c5 s6 c6 s7 c7 s8 c8 where
    st: "(s1, c1) \<in> set (steps (date_regex n) (s, []))" "(s2, c2) \<in> set (steps space_regex (s1, c1))"
      "(s3, c3) \<in> set (steps time_regex (s2, c2))" "(s4, c4) \<in> set (steps space_regex (s3, c3))"
      "(s5, c5) \<in> set (steps (date_regex n) (s4, c4))" "(s6, c6) \<in> set (steps space_regex (s5, c5))"
      "(s7, c7) \<in> set (steps time_regex (s6, c6))" "(s8, c8) \<in> set (steps space_regex (s7, c7))"
      "(rest, cs) \<in> set (steps (lits ''krbtgt'') (s8, c8))"
    using assms unfolding expires_regex_def steps_Sequ by blast
  from steps_date [OF st(1)] obtain d1 where d1: "d1 \<in> date_word n" "s = d1 @ s1" "c1 = [d1]" by auto
  from steps_space [OF st(2)] obtain b1 where b1: "b1 \<in> blanks" "s1 = b1 @ s2" "c2 = c1" by auto
  from steps_time [OF st(3)] obtain t1 where t1: "t1 \<in> time_word" "s2 = t1 @ s3" "c3 = c2 @ [t1]" by auto
  from steps_space [OF st(4)] obtain b2 where b2: "b2 \<in> blanks" "s3 = b2 @ s4" "c4 = c3" by auto
  from steps_date [OF st(5)] obtain d where d: "d \<in> date_word n" "s4 = d @ s5" "c5 = c4 @ [d]" by auto
  from steps_space [OF st(6)] obtain b3 where b3: "b3 \<in> blanks" "s5 = b3 @ s6" "c6 = c5" by auto
  from steps_time [OF st(7)] obtain t where t: "t \<in> time_word" "s6 = t @ s7" "c7 = c6 @ [t]" by auto
  from steps_space [OF st(8)] obtain b4 where b4: "b4 \<in> blanks" "s7 = b4 @ s8" "c8 = c7" by auto
  have k: "cs = c8" "s8 = ''krbtgt'' @ rest"
    using steps_plain [OF no_group_lits st(9)] unfolding lang_lits by simp_all
  have ne: "d1 \<noteq> []" "d \<noteq> []" "t1 \<noteq> []" "t \<noteq> []"
    using d1 d t1 t by (auto simp: date_word_def time_word_def)
  let ?line = "d1 @ b1 @ t1 @ b2 @ d @ b3 @ t @ b4 @ ''krbtgt''"
  have "ticket_line n d t ?line"
    unfolding ticket_line_def using d1(1) b1(1) t1(1) b2(1) d(1) b3(1) t(1) b4(1) by blast
  moreover have "s = ?line @ rest" using d1 b1 t1 b2 d b3 t b4 k by simp
  moreover have "cs = [d1, t1, d, t]" using d1 b1 t1 b2 d b3 t b4 k by simp
  ultimately show ?thesis using ne by blast
qed

lemma expiration_of_groups:
  "d1 \<noteq> [] \<Longrightarrow> t1 \<noteq> [] \<Longrightarrow> d \<noteq> [] \<Longrightarrow> expiration_of [d1, t1, d, t] = d @ '' '' @ t"
  by (simp add: expiration_of_def)

lemma search_expiration_Some:
  assumes "search_expiration s = Some g"
  shows "\<exists>n d t line pre post. n \<in> {2, 4} \<and> s = pre @ line @ post \<and> ticket_line n d t line \<and>
    expiration_of g = d @ '' '' @ t"
proof -
  obtain n where n: "n \<in> {2, 4 :: nat}" "regex_search (expires_regex n) s = Some g"
    using assms by (auto simp: search_expiration_def split: option.splits)
  from regex_search_Some [OF n(2)] obtain pre rest here where
    h: "s = pre @ here" "(rest, g) \<in> set (steps (expires_regex n) (here, []))" by blast
  from expires_groups [OF h(2)] obtain d1 t1 d t line where
    "g = [d1, t1, d, t]" "d1 \<noteq> []" "t1 \<noteq> []" "d \<noteq> []" "ticket_line n d t line" "here = line @ rest"
    by blast
  with n(1) h(1) show ?thesis using expiration_of_groups by blast
qed

lemma search_expiration_None:
  "search_expiration s = None \<longleftrightarrow>
   \<not> (\<exists>n d t line pre post. n \<in> {2, 4} \<and> s = pre @ line @ post \<and> ticket_line n d t line)"
proof -
  have r: "regex_search (expires_regex n) s = None \<longleftrightarrow>
      \<not> (\<exists>d t line pre post. s = pre @ line @ post \<and> ticket_line n d t line)" for n
    unfolding regex_search_None expires_lang by blast
  have "search_expiration s = None \<longleftrightarrow>
      regex_search (expires_regex 4) s = None \<and> regex_search (expires_regex 2) s = None"
    by (auto simp: search_expiration_def split: option.splits)
  then show ?thesis unfolding r by blast
qed

lemma get_ticket_expiration_returns:
  assumes "log_writable E" and "log_ok w"
  shows "\<exists>w'. get_ticket_expiration E s w =
    (Inr (case search_expiration s of None \<Rightarrow> [] | Some g \<Rightarrow> expiration_of g), w') \<and> log_ok w'"
proof -
  have "\<exists>w'. thenM (logger E l m) (ret x) w = (Inr x, w') \<and> log_ok w'" for l m x
    using runsD [OF runs_logger [OF assms(1), of "\<lambda>_. True" l m], of w] assms(2)
    by (auto simp: thenM_def bindM_apply)
  then show ?thesis by (auto simp: get_ticket_expiration_def split: option.splits)
qed

text \<open>
  C18: \<open>get_ticket_expiration\<close> is exact: it returns the empty string precisely when no part of the text
  is a ticket line with four- or two-digit years, and otherwise the expiry date and time of such a
  line.
\<close>
theorem get_ticket_expiration_exact:
  assumes "log_writable E" and "log_ok w"
  shows "\<exists>r w'. get_ticket_expiration E s w = (Inr r, w') \<and>
    (r = [] \<longleftrightarrow> \<not> (\<exists>n d t line pre post. n \<in> {2, 4} \<and> s = pre @ line @ post \<and> ticket_line n d t line)) \<and>
    (r \<noteq> [] \<longrightarrow> (\<exists>n d t line pre post. n \<in> {2, 4} \<and> s = pre @ line @ post \<and> ticket_line n d t line \<and>
       r = d @ '' '' @ t))"
proof -
  from get_ticket_expiration_returns [OF assms] obtain w' where
    g: "get_ticket_expiration E s w =
      (Inr (case search_expiration s of None \<Rightarrow> [] | Some g \<Rightarrow> expiration_of g), w')" by blast
  show ?thesis
  proof (cases "search_expiration s")
    case None
    with g search_expiration_None [of s] show ?thesis by auto
  next
    case (Some x)
    from search_expiration_Some [OF Some] have
      e: "\<exists>n d t line pre post. n \<in> {2, 4} \<and> s = pre @ line @ post \<and> ticket_line n d t line \<and>
        expiration_of x = d @ '' '' @ t" .
    then have "expiration_of x \<noteq> []" by auto
    moreover from e have
      "\<exists>n d t line pre post. n \<in> {2, 4} \<and> s = pre @ line @ post \<and> ticket_line n d t line" by blast
    ultimately show ?thesis using g Some e by (intro exI [of _ "expiration_of x"] exI [of _ w']) simp
  qed
qed

section \<open>Dates read back\<close>

definition dig :: "nat \<Rightarrow> char" where "dig n = char_of (48 + n)"

definition two_digits :: "nat \<Rightarrow> string" where
  "two_digits n = [dig (n div 10), dig (n mod 10)]"

definition year_digits :: "nat \<Rightarrow> nat \<Rightarrow> string" where
  "year_digits k y = (if k = 4 then two_digits (y div 100) @ two_digits (y mod 100) else two_digits y)"

definition date_string :: "nat \<Rightarrow> tm \<Rightarrow> string" where
  "date_string k t = two_digits (tm_mon t) @ ''/'' @ two_digits (tm_mday t) @ ''/'' @ year_digits k (tm_year t)"

definition time_string :: "tm \<Rightarrow> string" where
  "time_string t = two_digits (tm_hour t) @ '':'' @ two_digits (tm_min t) @ '':'' @ two_digits (tm_sec t)"

definition valid_tm :: "nat \<Rightarrow> tm \<Rightarrow> bool" where
  "valid_tm k t \<longleftrightarrow> 1 \<le> tm_mon t \<and> tm_mon t \<le> 12 \<and> 1 \<le> tm_mday t \<and> tm_mday t \<le> 31 \<and>
     (k = 4 \<and> tm_year t < 10000 \<or> k = 2 \<and> tm_year t < 100) \<and>
     tm_hour t < 24 \<and> tm_min t < 60 \<and> tm_sec t < 60"

lemma dig_props [simp]:
  assumes "n < 10"
  shows "isdigit (dig n)" and "digit_val (dig n) = n" and "dig n \<noteq> CHR '' ''" and "\<not> isspace (dig n)"
    and "dig n \<noteq> NUL"
proof -
  have v: "(of_char (dig n) :: nat) = 48 + n"
    using assms by (simp add: dig_def of_char_of take_bit_nat_eq_self)
  then show "isdigit (dig n)" "digit_val (dig n) = n"
    using assms by (simp_all add: isdigit_def digit_val_def)
  show "dig n \<noteq> CHR '' ''" "\<not> isspace (dig n)" "dig n \<noteq> NUL"
    using v assms by (auto simp: isspace_def NUL_def)
qed

lemma get_number_two:
  assumes "lo \<le> v" and "v \<le> hi" and "v < 100"
  shows "get_number lo hi 2 (two_digits v @ r) = Some (v, r)"
proof -
  have d: "v div 10 < 10" "v mod 10 < 10" "v div 10 * 10 + v mod 10 = v" using assms(3) by auto
  then have "v div 10 * 10 \<le> hi" using assms(2) by linarith
  with d assms show ?thesis by (simp add: get_number_def two_digits_def)
qed

lemma le_9999: "q < 100 \<Longrightarrow> c < 10 \<Longrightarrow> (q * 10 + c) * 10 \<le> (9999 :: nat)"
  by presburger

lemma get_number_year4:
  assumes "y < 10000"
  shows "get_number 0 9999 4 (year_digits 4 y @ r) = Some (y, r)"
proof -
  let ?a = "y div 100 div 10" and ?b = "y div 100 mod 10" and ?c = "y mod 100 div 10" and ?d = "y mod 100 mod 10"
  have d: "?a < 10" "?b < 10" "?c < 10" "?d < 10" using assms by auto
  have y: "((?a * 10 + ?b) * 10 + ?c) * 10 + ?d = y" by simp
  have h: "y div 100 < 100" "?a * 10 + ?b = y div 100" using assms by simp_all
  have le: "?a * 10 \<le> 9999" using d(1) by linarith
  have le2: "(?a * 10 + ?b) * 10 \<le> 9999" unfolding h(2) using h(1) by linarith
  have le3: "((?a * 10 + ?b) * 10 + ?c) * 10 \<le> 9999" unfolding h(2) by (rule le_9999 [OF h(1) d(3)])
  have nd: "number_digits 9999 3 ?a (dig ?b # dig ?c # dig ?d # r) = (y, r)"
    using d le le2 le3 y by (simp only: numeral_3_eq_3 number_digits.simps dig_props if_True simp_thms)
  have "get_number 0 9999 4 (year_digits 4 y @ r) =
      (case number_digits 9999 3 ?a (dig ?b # dig ?c # dig ?d # r) of
        (v, r') \<Rightarrow> if 0 \<le> v \<and> v \<le> 9999 then Some (v, r') else None)"
    using d(1) by (simp add: get_number_def year_digits_def two_digits_def)
  with nd assms show ?thesis by simp
qed

lemma get_number_year2:
  assumes "y < 100"
  shows "get_number 0 9999 4 (year_digits 2 y @ CHR '' '' # r) = Some (y, CHR '' '' # r)"
proof -
  have d: "y div 10 < 10" "y mod 10 < 10" "y div 10 * 10 + y mod 10 = y" using assms by auto
  have "\<not> isdigit CHR '' ''" by (simp add: isdigit_def)
  with d assms show ?thesis
    by (simp add: get_number_def year_digits_def two_digits_def numeral_3_eq_3)
qed

lemma strptime_string:
  assumes "valid_tm k t"
  shows "strptime_expiry (date_string k t @ '' '' @ time_string t) = Some t"
proof -
  have y: "get_number 0 9999 4 (year_digits k (tm_year t) @ CHR '' '' # r) =
      Some (tm_year t, CHR '' '' # r)" for r
    using assms get_number_year4 [of "tm_year t" "CHR '' '' # r"] get_number_year2 [of "tm_year t" r]
    by (auto simp: valid_tm_def)
  have m: "get_number 1 12 2 (two_digits (tm_mon t) @ r) = Some (tm_mon t, r)"
    and d: "get_number 1 31 2 (two_digits (tm_mday t) @ r) = Some (tm_mday t, r)"
    and h: "get_number 0 23 2 (two_digits (tm_hour t) @ r) = Some (tm_hour t, r)"
    and mi: "get_number 0 59 2 (two_digits (tm_min t) @ r) = Some (tm_min t, r)"
    and s: "get_number 0 61 2 (two_digits (tm_sec t) @ r) = Some (tm_sec t, r)" for r
    using assms by (auto intro!: get_number_two simp: valid_tm_def)
  have sp: "dropWhile isspace (two_digits (tm_hour t) @ r) = two_digits (tm_hour t) @ r" for r
  proof -
    have "tm_hour t div 10 < 10" "tm_hour t mod 10 < 10" using assms by (auto simp: valid_tm_def)
    then show ?thesis by (simp add: two_digits_def)
  qed
  have sc: "isspace CHR '' ''" by (simp add: isspace_def)
  have s0: "get_number 0 61 2 (two_digits (tm_sec t)) = Some (tm_sec t, [])" using s [of "[]"] by simp
  show ?thesis
    by (simp add: strptime_expiry_def date_string_def time_string_def m d y h mi s0 sp sc match_char_def
        del: One_nat_def)
qed

section \<open>When a ticket is renewed\<close>

lemma plain_two_digits:
  "n < 100 \<Longrightarrow> \<forall>c \<in> set (two_digits n). \<not> isspace c \<and> c \<noteq> NUL"
proof -
  assume "n < 100"
  then have "n div 10 < 10" "n mod 10 < 10" by auto
  then show ?thesis by (simp add: two_digits_def)
qed

lemma plain_date:
  assumes "valid_tm k t"
  shows "\<forall>c \<in> set (date_string k t). \<not> isspace c \<and> c \<noteq> NUL" and "length (date_string k t) \<le> 79"
    and "date_string k t \<noteq> []"
proof -
  have p: "tm_mon t < 100" "tm_mday t < 100" "tm_year t div 100 < 100 \<or> k = 2" "tm_year t mod 100 < 100"
    "k = 2 \<longrightarrow> tm_year t < 100" "k = 2 \<or> k = 4"
    using assms by (auto simp: valid_tm_def)
  have sl: "\<not> isspace CHR ''/'' \<and> CHR ''/'' \<noteq> NUL" by (simp add: isspace_def NUL_def)
  show "\<forall>c \<in> set (date_string k t). \<not> isspace c \<and> c \<noteq> NUL"
    using p sl plain_two_digits [OF p(1)] plain_two_digits [OF p(2)] plain_two_digits [OF p(4)]
      plain_two_digits [of "tm_year t div 100"] plain_two_digits [of "tm_year t"]
    by (auto simp: date_string_def year_digits_def)
  show "length (date_string k t) \<le> 79" "date_string k t \<noteq> []"
    by (simp_all add: date_string_def year_digits_def two_digits_def)
qed

lemma plain_time:
  assumes "valid_tm k t"
  shows "\<forall>c \<in> set (time_string t). \<not> isspace c \<and> c \<noteq> NUL" and "length (time_string t) \<le> 79"
    and "time_string t \<noteq> []"
proof -
  have p: "tm_hour t < 100" "tm_min t < 100" "tm_sec t < 100"
    using assms by (auto simp: valid_tm_def)
  have sl: "\<not> isspace CHR '':'' \<and> CHR '':'' \<noteq> NUL" by (simp add: isspace_def NUL_def)
  show "\<forall>c \<in> set (time_string t). \<not> isspace c \<and> c \<noteq> NUL"
    using sl plain_two_digits [OF p(1)] plain_two_digits [OF p(2)] plain_two_digits [OF p(3)]
    by (auto simp: time_string_def)
  show "length (time_string t) \<le> 79" "time_string t \<noteq> []"
    by (simp_all add: time_string_def two_digits_def)
qed

lemma scan_word_hit:
  assumes "\<forall>c \<in> set a. \<not> isspace c" and "a \<noteq> []" and "length a \<le> 79" and "b = [] \<or> isspace (hd b)"
  shows "scan_word (a @ b) = Some (a, b)"
proof -
  have "dropWhile isspace (a @ b) = a @ b" using assms(1,2) by (cases a) auto
  moreover have "takeWhile (\<lambda>c. \<not> isspace c) (a @ b) = a"
    using assms(1,4) by (cases b) (auto simp: takeWhile_append)
  ultimately show ?thesis using assms(2,3) by (simp add: scan_word_def Let_def)
qed

lemma scan_word_blank: "isspace c \<Longrightarrow> scan_word (c # s) = scan_word s"
  by (simp add: scan_word_def)

lemma scan_two_dates:
  assumes "valid_tm k t"
  shows "scan_two (date_string k t @ '' '' @ time_string t) = Inr (date_string k t, time_string t)"
proof -
  note d = plain_date [OF assms] and t = plain_time [OF assms]
  have sp: "isspace CHR '' ''" by (simp add: isspace_def)
  have "NUL \<notin> set (date_string k t @ '' '' @ time_string t)" using d(1) t(1) by (auto simp: NUL_def)
  then have c: "c_str (date_string k t @ '' '' @ time_string t) = date_string k t @ '' '' @ time_string t"
    by (rule c_str_id)
  have 1: "scan_word (date_string k t @ '' '' @ time_string t) = Some (date_string k t, '' '' @ time_string t)"
    using d sp by (intro scan_word_hit) auto
  have "scan_word (time_string t @ []) = Some (time_string t, [])"
    using t by (intro scan_word_hit) auto
  then have 2: "scan_word ('' '' @ time_string t) = Some (time_string t, [])"
    using sp by (simp add: scan_word_blank)
  show ?thesis unfolding scan_two_def c 1 using 2 by simp
qed

lemma expiry_date_time:
  assumes "valid_tm k t"
  shows "strptime_expiry (c_str (rtrim (ltrim (date_string k t @ '' '' @ time_string t)))) = Some t"
proof -
  note d = plain_date [OF assms] and t = plain_time [OF assms]
  let ?s = "date_string k t @ '' '' @ time_string t"
  have "ltrim ?s = ?s" using d(1,3) by (cases "date_string k t") (auto simp: ltrim_def)
  moreover have "rtrim ?s = ?s"
    using t(1,3) by (cases "time_string t" rule: rev_cases) (auto simp: rtrim_def)
  moreover have "NUL \<notin> set ?s" using d(1) t(1) by (auto simp: NUL_def)
  ultimately show ?thesis using strptime_string [OF assms] by (simp add: c_str_id)
qed

text \<open>A successful \<open>klist\<close> whose output is one text with a renewal line.\<close>

definition klist_shows :: "env \<Rightarrow> world \<Rightarrow> krb_ticket_info \<Rightarrow> string \<Rightarrow> bool" where
  "klist_shows E w info out \<longleftrightarrow>
     shell_start E (evs w) (c_str (klist_cmd (krb_file_path info))) \<and>
     (\<exists>F. shell_run E (evs w) (wfs w) (c_str (klist_cmd (krb_file_path info))) = (0, out, F)) \<and>
     NUL \<notin> set out \<and> CHR ''#'' \<notin> set out \<and> find_sub ''renew until'' out \<noteq> None"

lemma ready_unfold:
  assumes "klist_shows E w info out" and "log_writable E" and "log_ok w"
  shows "\<exists>w'. is_ticket_ready_for_renewal E info w =
    bindM (liftM (scan_two (case search_expiration out of None \<Rightarrow> [] | Some g \<Rightarrow> expiration_of g)))
      (\<lambda>(d, t). case strptime_expiry (c_str (rtrim (ltrim (d @ '' '' @ t)))) of
          None \<Rightarrow> ret False
        | Some t \<Rightarrow> getM (\<lambda>w. expires_soon (mktime E t) (time_now E (evs w)))) w'"
proof -
  let ?c = "klist_cmd (krb_file_path info)"
  from assms(1) obtain F where
    x: "exec_shell_cmd E ?c w = (Inr (0, out), w\<lparr>wfs := F, evs := Ran (c_str ?c) # evs w\<rparr>)"
    by (auto simp: klist_shows_def exec_shell_cmd_def Let_def read_output_text)
  let ?w = "w\<lparr>wfs := F, evs := Ran (c_str ?c) # evs w\<rparr>"
  have "log_ok ?w" using assms(3) by (simp add: log_ok_def)
  from get_ticket_expiration_returns [OF assms(2) this, of out] obtain w' where
    g: "get_ticket_expiration E out ?w =
      (Inr (case search_expiration out of None \<Rightarrow> [] | Some g \<Rightarrow> expiration_of g), w')" by blast
  have ne: "out \<noteq> []" "find_sub ''renew until'' out \<noteq> None"
    using assms(1) by (auto simp: klist_shows_def)
  have sp: "split_string out CHR ''#'' = [out]"
    using assms(1) ne(1) by (simp add: split_string_def getlines_last klist_shows_def)
  have "is_ticket_ready_for_renewal E info w = renewal_scan E [out] ?w"
    using x sp by (simp add: is_ticket_ready_for_renewal_def del: renewal_scan.simps)
  then show ?thesis using g ne(2) by auto
qed

lemma ready_decides:
  assumes "klist_shows E w info out" and "log_writable E" and "log_ok w"
    and "search_expiration out = Some g" and "expiration_of g = date_string k t @ '' '' @ time_string t"
    and "valid_tm k t" and "time_now E = (\<lambda>_. now)"
  shows "fst (is_ticket_ready_for_renewal E info w) = Inr (expires_soon (mktime E t) now)"
proof -
  from ready_unfold [OF assms(1-3)] obtain w' where
    u: "is_ticket_ready_for_renewal E info w =
    bindM (liftM (scan_two (case search_expiration out of None \<Rightarrow> [] | Some g \<Rightarrow> expiration_of g)))
      (\<lambda>(d, t). case strptime_expiry (c_str (rtrim (ltrim (d @ '' '' @ t)))) of
          None \<Rightarrow> ret False
        | Some t \<Rightarrow> getM (\<lambda>w. expires_soon (mktime E t) (time_now E (evs w)))) w'" by blast
  have s: "scan_two (case search_expiration out of None \<Rightarrow> [] | Some g \<Rightarrow> expiration_of g) =
      Inr (date_string k t, time_string t)"
    using scan_two_dates [OF assms(6)] assms(4,5) by simp
  show ?thesis unfolding u s bindM_apply liftM_apply
    using assms(7) expiry_date_time [OF assms(6)] by (simp del: append_Cons)
qed


lemma day_bound:
  "y \<le> 99 \<Longrightarrow> a \<le> 24 \<Longrightarrow> - 1 \<le> c \<Longrightarrow> b \<le> 0 \<Longrightarrow> m \<le> 337 \<Longrightarrow> d \<le> 31 \<Longrightarrow>
   365 * y + a - c + b + m + d - 1 - 719468 \<le> (- 600000 :: int)"
  by linarith

lemma first_century:
  assumes "valid_tm 2 t"
  shows "days_from_civil (tm_year t) (tm_mon t) (tm_mday t) \<le> - 600000"
proof -
  let ?y = "int (tm_year t) - (if tm_mon t \<le> 2 then 1 else 0)" and ?m = "(int (tm_mon t) + 9) mod 12"
  have y: "?y \<le> 99" and m: "?m \<le> 11" and d: "int (tm_mday t) \<le> 31"
    using assms by (auto simp: valid_tm_def)
  have "- 1 \<le> ?y" by simp
  then have y4: "?y div 4 \<le> 24" "?y div 400 \<le> 0" "- 1 \<le> ?y div 100"
    using y by linarith+
  have "(153 * ?m + 2) div 5 \<le> 337" using m by linarith
  then show ?thesis unfolding days_from_civil_def Let_def by (intro day_bound y y4 d)
qed

text \<open>
  C38: With two-digit years, which the search accepts as a fallback, the year is read as one of the first
  century: every ticket, however fresh, is reported ready for renewal.
\<close>
theorem two_digit_year_always_ready:
  assumes "klist_shows E w info out" and "log_writable E" and "log_ok w"
    and "search_expiration out = Some g" and "expiration_of g = date_string 2 t @ '' '' @ time_string t"
    and "valid_tm 2 t" and "time_now E = (\<lambda>_. now)" and "0 \<le> now" and "\<bar>tz_offset E\<bar> \<le> 86400"
  shows "fst (is_ticket_ready_for_renewal E info w) = Inr True"
proof -
  have "int (tm_hour t) \<le> 23" "int (tm_min t) \<le> 59" "int (tm_sec t) \<le> 59"
    using assms(6) by (auto simp: valid_tm_def)
  with first_century [OF assms(6)] assms(8,9) have "mktime E t - now \<le> 3600"
    by (simp add: mktime_def abs_le_iff)
  then show ?thesis using ready_decides [OF assms(1-7)]
    by (simp add: expires_soon_def RENEW_TICKET_HOURS_def SECONDS_IN_HOUR_def)
qed

text \<open>
  When \<open>klist\<close> mentions a renewal but no ticket line can be parsed, \<open>sscanf\<close> fills nothing and the
  routine goes on with two uninitialised buffers.
\<close>
theorem unparsed_expiry_uninitialised:
  assumes "klist_shows E w info out" and "log_writable E" and "log_ok w"
    and "\<not> (\<exists>n d t line pre post. n \<in> {2, 4} \<and> out = pre @ line @ post \<and> ticket_line n d t line)"
  shows "fst (is_ticket_ready_for_renewal E info w) = Inl (Undef UninitRead)"
proof -
  have "search_expiration out = None" using assms(4) unfolding search_expiration_None .
  with ready_unfold [OF assms(1-3)] show ?thesis
    by (auto simp: bindM_apply scan_two_def scan_word_def c_str_def)
qed

section \<open>Concrete output\<close>

definition klist_env :: "string \<Rightarrow> env" where
  "klist_env out = quiet_env\<lparr>shell_run := (\<lambda>_ F _. (0, out, F))\<rparr>"

definition klist_output4 :: string where
  "klist_output4 = ''12/04/2023 19:39:06  12/05/2023 05:39:06  krbtgt/C renew until''"

definition klist_output2 :: string where
  "klist_output2 = ''12/04/23 21:58:51  12/05/23 07:58:51  krbtgt/C renew until''"

lemma klist_env_shows:
  assumes "NUL \<notin> set out" and "CHR ''#'' \<notin> set out" and "find_sub ''renew until'' out \<noteq> None"
  shows "klist_shows (klist_env out) start_world info out"
  using assms by (simp add: klist_shows_def klist_env_def quiet_env_def)

lemma klist_env_log: "log_writable (klist_env out)" "log_ok start_world" "time_now (klist_env out) = (\<lambda>_. 0)"
  "tz_offset (klist_env out) = 0"
  by (simp_all add: klist_env_def quiet_env_def log_ok_def start_world_def init_logger_def log_ring_size_def)

lemma klist_outputs:
  "search_expiration klist_output4 = Some [''12/04/2023'', ''19:39:06'', ''12/05/2023'', ''05:39:06'']"
  "search_expiration klist_output2 = Some [''12/04/23'', ''21:58:51'', ''12/05/23'', ''07:58:51'']"
  "search_expiration ''renew until'' = None"
  by code_simp+

lemma klist_output4_shows: "klist_shows (klist_env klist_output4) start_world info klist_output4"
  by (rule klist_env_shows) code_simp+

lemma klist_output2_shows: "klist_shows (klist_env klist_output2) start_world info klist_output2"
  by (rule klist_env_shows) code_simp+

definition tm4 :: tm where
  "tm4 = \<lparr>tm_mon = 12, tm_mday = 5, tm_year = 2023, tm_hour = 5, tm_min = 39, tm_sec = 6\<rparr>"

definition tm2 :: tm where
  "tm2 = \<lparr>tm_mon = 12, tm_mday = 5, tm_year = 23, tm_hour = 7, tm_min = 58, tm_sec = 51\<rparr>"

lemma tm_strings:
  "expiration_of [''12/04/2023'', ''19:39:06'', ''12/05/2023'', ''05:39:06''] =
     date_string 4 tm4 @ '' '' @ time_string tm4"
  "expiration_of [''12/04/23'', ''21:58:51'', ''12/05/23'', ''07:58:51''] =
     date_string 2 tm2 @ '' '' @ time_string tm2"
  "valid_tm 4 tm4" "valid_tm 2 tm2"
  by code_simp+

theorem get_ticket_expiration_exact_witness:
  "fst (get_ticket_expiration quiet_env ''renew until'' start_world) = Inr []"
proof -
  have "log_writable quiet_env" by (simp add: quiet_env_def)
  from get_ticket_expiration_exact [OF this klist_env_log(2), of "''renew until''"] obtain r w' where
    1: "get_ticket_expiration quiet_env ''renew until'' start_world = (Inr r, w')" and
    2: "r = [] \<longleftrightarrow> \<not> (\<exists>n d t line pre post. n \<in> {2, 4} \<and>
      ''renew until'' = pre @ line @ post \<and> ticket_line n d t line)"
    by (elim exE conjE) (rule that)
  have "r = []" unfolding 2 using klist_outputs(3) unfolding search_expiration_None .
  with 1 show ?thesis by simp
qed


theorem two_digit_year_always_ready_witness:
  "fst (is_ticket_ready_for_renewal (klist_env klist_output2) new_krb_ticket_info start_world) = Inr True"
  using two_digit_year_always_ready [OF klist_output2_shows klist_env_log(1,2) klist_outputs(2) tm_strings(2)
      tm_strings(4) klist_env_log(3)]
  by (simp add: klist_env_log(4))

theorem unparsed_expiry_uninitialised_witness:
  "fst (is_ticket_ready_for_renewal (klist_env ''renew until'') new_krb_ticket_info start_world) =
     Inl (Undef UninitRead)"
proof -
  have "klist_shows (klist_env ''renew until'') start_world new_krb_ticket_info ''renew until''"
    by (rule klist_env_shows) code_simp+
  from unparsed_expiry_uninitialised [OF this klist_env_log(1,2)
      klist_outputs(3) [unfolded search_expiration_None]]
  show ?thesis .
qed

section \<open>What reading the tickets keeps\<close>

context host_inv begin

lemma keeps_expiration: "keeps I (get_ticket_expiration E s)"
  unfolding get_ticket_expiration_def by (intro keeps_intros keeps_logger)

lemma keeps_renewal_scan: "keeps I (renewal_scan E rs)"
proof (induction rs)
  case Nil
  show ?case unfolding renewal_scan.simps by (rule keeps_ret)
next
  case (Cons r rs)
  then show ?case unfolding renewal_scan.simps by (intro keeps_intros keeps_expiration)
qed

lemma keeps_ready: "keeps I (is_ticket_ready_for_renewal E t)"
  unfolding is_ticket_ready_for_renewal_def by (intro keeps_intros keeps_shell keeps_renewal_scan)

end

end
