(* ===== verification/Krb.thy ===== *)
theory Krb
  imports Klist
begin

text \<open>
  The Kerberos module (auth/kerberos/src/krb.cpp): the machine's ticket, the fetch of a group
  managed account's password with the \<open>kinit\<close> that turns it into a ticket, the renewal of a ticket
  and of all tickets of a user, and the deletion of a lease. Standard error is left out, and so is
  the wiping of buffers, whose content no later statement reads.
\<close>

section \<open>The machine's ticket\<close>

text \<open>\<open>result = check(); if ( result.first != 0 ) { log; return result; }\<close>\<close>

definition guard_tool ::
    "env \<Rightarrow> (int \<times> string) WM \<Rightarrow> (int \<times> string \<Rightarrow> (int \<times> string) WM) \<Rightarrow> (int \<times> string) WM" where
  "guard_tool E check k = bindM check (\<lambda>result.
     if fst result \<noteq> 0 then thenM (logger E LOG_ERR (snd result)) (ret result) else k result)"

definition generate_krb_ticket_from_machine_keytab :: "env \<Rightarrow> string \<Rightarrow> (int \<times> string) WM" where
  "generate_krb_ticket_from_machine_keytab E domain =
     guard_tool E (is_hostname_cmd_present E) (\<lambda>_.
     guard_tool E (is_hostname_cmd_present E) (\<lambda>_.
     guard_tool E (is_realm_cmd_present E) (\<lambda>_.
     guard_tool E (is_kinit_cmd_present E) (\<lambda>_.
     guard_tool E (is_ldapsearch_cmd_present E) (\<lambda>_.
     guard_tool E is_decode_exe_present (\<lambda>result.
     bindM (get_machine_principal E domain) (\<lambda>machine_principal.
     if fst result \<noteq> 0 then
       thenM (logger E LOG_ERR ''ERROR: invalid machine principal'')
         (ret (-1, ''ERROR: invalid machine principal''))
     else
       guard_tool E (execute_kinit_in_domain_joined_case E (snd machine_principal)) ret)))))))"

section \<open>The account's ticket\<close>

definition null_args_message :: string where
  "null_args_message = ''ERROR: fetch_gmsa_password_and_create_krb_ticket: 125 null args''"

definition password_search :: string where
  "password_search = '' -s sub  '' @ quoted ''(objectClass=msDs-GroupManagedServiceAccount)'' @
     '' msDS-ManagedPassword''"

text \<open>The distinguished name for one controller: the one at hand, or the result of a search.\<close>

definition choose_dn :: "env \<Rightarrow> string \<Rightarrow> string \<Rightarrow> string \<Rightarrow> string \<Rightarrow> string WM" where
  "choose_dn E account base_dn fqdn dn =
     (if dn = [] then
        bindM (find_dn E account base_dn fqdn) (\<lambda>r.
          let dn' = (if fst r = 0 \<and> snd r \<noteq> [] then snd r else dn) in
          thenM (logger E LOG_INFO (''Found dn = '' @ dn')) (ret dn'))
      else ret dn)"

fun fqdn_loop ::
    "env \<Rightarrow> string \<Rightarrow> string \<Rightarrow> string list \<Rightarrow> string \<Rightarrow> krb_ticket_info \<Rightarrow> int \<times> string \<Rightarrow>
     ((int \<times> string) \<times> krb_ticket_info) WM" where
  "fqdn_loop E account base_dn [] dn t res = ret (res, t)"
| "fqdn_loop E account base_dn (fqdn # fqdns) dn t res =
     bindM (choose_dn E account base_dn fqdn dn) (\<lambda>dn'.
     let t' = t\<lparr>distinguished_name := dn'\<rparr> in
     bindM (execute_ldapsearch E dn' fqdn password_search) (\<lambda>r.
     if fst r = 0 then
       thenM (case find_sub ''msDS-ManagedPassword:'' (snd r) of
           None \<Rightarrow> ret ()
         | Some pos \<Rightarrow> logger E LOG_INFO (''ldapsearch successful with FQDN = '' @ fqdn @ '', cmd = '' @
             take pos (snd r) @ '','' @ ''search_string = '' @ password_search))
         (ret (r, t'))
     else
       thenM (logger E LOG_INFO (''ldapsearch failed with FQDN = '' @ fqdn @ '' '' @ c_str (snd r) @ '' '' @
           password_search))
         (fqdn_loop E account base_dn fqdns dn' t' r)))"

definition default_principal :: "string \<Rightarrow> string \<Rightarrow> string" where
  "default_principal account domain = squote @ account @ ''$'' @ squote @ ''@'' @ upcase domain"

definition gmsa_kinit_cmd :: "string \<Rightarrow> string \<Rightarrow> string \<Rightarrow> string" where
  "gmsa_kinit_cmd account domain krb_cc_name =
     ''dotnet '' @ install_path_for_decode_exe @ '' | kinit '' @ '' -c '' @ krb_cc_name @ '' -V '' @
     default_principal account domain"

text \<open>\<open>popen( kinit_cmd, "w" )\<close>, \<open>fwrite\<close> of the password, \<open>pclose\<close>.\<close>

definition pipe_password :: "env \<Rightarrow> string \<Rightarrow> string \<Rightarrow> string \<Rightarrow> (int \<times> string) WM" where
  "pipe_password E kinit_cmd buf krb_cc_name =
     bindM (getM (\<lambda>w. pipe_start E (evs w) (c_str kinit_cmd))) (\<lambda>started.
     if \<not> started then
       thenM (logger E LOG_ERR ''ERROR: fetch_gmsa_password_and_create_krb_ticket : 227 kinit failed'')
         (ret (-1, ''kinit failed''))
     else
       bindM (liftM (blob_password buf)) (\<lambda>bytes.
       bindM (\<lambda>w. let (code, F) = pipe_run E (evs w) (wfs w) (c_str kinit_cmd) bytes
                  in (Inr code, w\<lparr>wfs := F, evs := Piped (c_str kinit_cmd) bytes # evs w\<rparr>)) (\<lambda>error_code.
       bindM (getCurrentTime E) (\<lambda>t.
       thenM (logger E LOG_ERR (t @ [CHR 0x09] @ ''INFO: kinit return value = '' @ to_string error_code))
         (ret (error_code, krb_cc_name))))))"

definition fetch_gmsa_password_and_create_krb_ticket ::
    "env \<Rightarrow> string \<Rightarrow> krb_ticket_info \<Rightarrow> string \<Rightarrow> ((int \<times> string) \<times> krb_ticket_info) WM" where
  "fetch_gmsa_password_and_create_krb_ticket E domain t krb_cc_name =
     (let account = service_account_name t in
      if domain = [] \<or> account = [] then
        thenM (logger E LOG_ERR null_args_message)
          (ret ((-1, ''domain_name '' @ domain @ '' or gmsa_account_name '' @ account @ '' is empty''), t))
      else
        bindM (liftM (get_base_dn domain)) (\<lambda>base_dn_result.
        let base_dn = (if fst base_dn_result = 0 then snd base_dn_result else []);
            dn = (if distinguished_name t = [] then
                    (case getenv E ENV_CF_GMSA_OU of None \<Rightarrow> [] | Some ou \<Rightarrow> ou)
                  else distinguished_name t) in
        bindM (get_FQDN_list E domain) (\<lambda>fqdns.
        bindM (fqdn_loop E account base_dn fqdns dn t (0, [])) (\<lambda>(res, t').
        if fst res \<noteq> 0 then ret ((-1, []), t')
        else
          bindM (find_password E (snd res)) (\<lambda>(len, buf).
          case buf of
            None \<Rightarrow>
              bindM (getCurrentTime E) (\<lambda>tm. let log_str = tm @ [CHR 0x09] @ ''ERROR: Password not found'' in
              thenM (logger E LOG_ERR log_str) (ret ((-1, log_str), t')))
          | Some b \<Rightarrow>
              bindM (pipe_password E (gmsa_kinit_cmd account domain krb_cc_name) b krb_cc_name) (\<lambda>r.
                ret (r, t')))))))"

section \<open>Renewal\<close>

definition get_meta_data_file_paths :: "string \<Rightarrow> string list WM" where
  "get_meta_data_file_paths krbdir =
     bindM (getM (\<lambda>w. files_below krbdir (wfs w))) (\<lambda>r.
     bindM (liftM r) (\<lambda>files.
       ret (map (\<lambda>(parent, filename). parent @ ''/'' @ filename)
             (filter (\<lambda>(_, filename). filename \<noteq> [] \<and> find_sub ''_metadata'' filename \<noteq> None) files))))"

definition log_fetch_failure :: "env \<Rightarrow> bool \<Rightarrow> krb_ticket_info \<Rightarrow> unit WM" where
  "log_fetch_failure E first t =
     (if first then
        logger E LOG_WARNING (''WARNING: Cannot get gMSA krb ticket because of expired user/machine '' @
          ''ticket, will be retried automatically, service_account_name = '' @ service_account_name t)
      else logger E LOG_ERR (''ERROR: Cannot get gMSA krb ticket using account '' @ service_account_name t))"

text \<open>The loop of \<open>renew_gmsa_ticket\<close>, with the number of rounds left; the first has two.\<close>

fun renew_attempts ::
    "env \<Rightarrow> string \<Rightarrow> string \<Rightarrow> string \<Rightarrow> string \<Rightarrow> nat \<Rightarrow> krb_ticket_info \<Rightarrow> (string \<times> krb_ticket_info) WM" where
  "renew_attempts E krb_cc_name domain username password 0 t = ret ([], t)"
| "renew_attempts E krb_cc_name domain username password (Suc n) t =
     bindM (fetch_gmsa_password_and_create_krb_ticket E (domain_name t) t krb_cc_name) (\<lambda>(r, t').
     if fst r \<noteq> 0 then
       thenM (log_fetch_failure E (n = 1) t')
         (if domainless_user t' \<noteq> [] \<and> domainless_user t' = username then
            bindM (generate_krb_ticket_using_username_and_password E domain username password) (\<lambda>status.
            thenM (whenM (fst status < 0)
                (logger E LOG_ERR (''ERROR '' @ to_string (fst status) @ '': Cannot get user krb ticket'')))
              (renew_attempts E krb_cc_name domain username password n t'))
          else ret ([], t'))
     else ret (krb_cc_name, t'))"

definition renew_gmsa_ticket ::
    "env \<Rightarrow> krb_ticket_info \<Rightarrow> string \<Rightarrow> string \<Rightarrow> string \<Rightarrow> (string \<times> krb_ticket_info) WM" where
  "renew_gmsa_ticket E t domain username password =
     renew_attempts E (krb_file_path t) domain username password 2 t"

text \<open>
  The test before \<open>push_back\<close> looks at the list of paths, not at the path.
\<close>

definition renew_one_domainless ::
    "env \<Rightarrow> string \<Rightarrow> string \<Rightarrow> string \<Rightarrow> string list \<Rightarrow> krb_ticket_info \<Rightarrow> string list WM" where
  "renew_one_domainless E domain username password renewed t =
     (if username \<noteq> [] \<and> username = domainless_user t then
        bindM (renew_gmsa_ticket E t domain username password) (\<lambda>(renewed_ticket_path, _).
          ret (if renewed \<noteq> [] then renewed @ [renewed_ticket_path] else renewed))
      else ret renewed)"

definition renew_kerberos_tickets_domainless ::
    "'j jsonlib \<Rightarrow> env \<Rightarrow> string \<Rightarrow> string \<Rightarrow> string \<Rightarrow> string \<Rightarrow> string list WM" where
  "renew_kerberos_tickets_domainless J E krb_files_dir domain username password =
     bindM (get_meta_data_file_paths krb_files_dir) (\<lambda>metadatafiles.
     foldM (\<lambda>renewed file_path.
         bindM (read_meta_data_json J file_path) (\<lambda>ts.
           foldM (renew_one_domainless E domain username password) renewed ts))
       [] metadatafiles)"

section \<open>Deletion\<close>

definition kdestroy_cmd :: "string \<Rightarrow> string" where
  "kdestroy_cmd path = ''export KRB5CCNAME='' @ path @ '' && kdestroy''"

definition destroy_ticket :: "env \<Rightarrow> string list \<Rightarrow> krb_ticket_info \<Rightarrow> string list WM" where
  "destroy_ticket E paths t =
     bindM (exec_shell_cmd E (kdestroy_cmd (krb_file_path t))) (\<lambda>r.
       ret (if fst r = 0 then paths @ [krb_file_path t] else paths))"

definition destroy_file :: "'j jsonlib \<Rightarrow> env \<Rightarrow> string \<Rightarrow> string list \<Rightarrow> string \<Rightarrow> string list WM" where
  "destroy_file J E krb_tickets_path paths filename =
     (if filename \<noteq> [] \<and> find_sub ''_metadata'' filename \<noteq> None then
        bindM (read_meta_data_json J (krb_tickets_path @ ''/'' @ filename)) (\<lambda>ts.
          foldM (destroy_ticket E) paths ts)
      else ret paths)"

text \<open>
  The exception handler of the source is not reached here: nothing inside the block throws in
  this model.
\<close>

definition delete_krb_tickets :: "'j jsonlib \<Rightarrow> env \<Rightarrow> string \<Rightarrow> string \<Rightarrow> string list WM" where
  "delete_krb_tickets J E krb_files_dir lease_id =
     (if lease_id = [] \<or> krb_files_dir = [] then ret []
      else
        let krb_tickets_path = krb_files_dir @ ''/'' @ lease_id in
        bindM (getM (\<lambda>w. read_dir krb_tickets_path (wfs w))) (\<lambda>curr_dir.
        case curr_dir of
          None \<Rightarrow> ret []
        | Some names \<Rightarrow>
            bindM (foldM (destroy_file J E krb_tickets_path) [] names) (\<lambda>paths.
            thenM (modM (\<lambda>w. w\<lparr>wfs := remove_all krb_tickets_path (wfs w)\<rparr>))
              (ret paths))))"

section \<open>The machine's ticket, whatever its principal\<close>

lemma guard_tool_ok [simp]: "check w = (Inr (0, m), w1) \<Longrightarrow> guard_tool E check k w = k (0, m) w1"
  by (simp add: guard_tool_def)

section \<open>Tickets come from the password\<close>

lemma happened_logger:
  "logger E l m w = (Inr x, w') \<Longrightarrow> happened e w \<Longrightarrow> happened e w'"
  using keepsD [OF hist.keeps_logger, of e w E l m] by simp

lemma pipe_password_success:
  assumes "pipe_password E cmd buf cc w = (Inr (0, path), w')"
  shows "path = cc \<and> (\<exists>bytes. blob_password buf = Inr bytes \<and> length bytes = GMSA_PASSWORD_SIZE \<and>
    happened (Piped (c_str cmd) bytes) w')"
proof -
  from assms have st: "pipe_start E (evs w) (c_str cmd)"
    by (auto simp: pipe_password_def bindM_def thenM_def split: if_splits prod.splits sum.splits)
  with assms obtain bytes where b: "blob_password buf = Inr bytes"
    by (cases "blob_password buf") (auto simp: pipe_password_def bindM_apply)
  obtain code F where r: "pipe_run E (evs w) (wfs w) (c_str cmd) bytes = (code, F)" by force
  let ?w = "w\<lparr>wfs := F, evs := Piped (c_str cmd) bytes # evs w\<rparr>"
  have e: "pipe_password E cmd buf cc w = bindM (getCurrentTime E) (\<lambda>t.
      thenM (logger E LOG_ERR (t @ [CHR 0x09] @ ''INFO: kinit return value = '' @ to_string code))
        (ret (code, cc))) ?w"
    using st b r by (simp add: pipe_password_def bindM_apply)
  have "happened (Piped (c_str cmd) bytes) ?w" by (simp add: happened_def)
  with assms e have "path = cc \<and> happened (Piped (c_str cmd) bytes) w'"
    by (auto simp: getCurrentTime_def thenM_def bindM_apply dest: happened_logger split: prod.splits sum.splits)
  moreover from b have "length bytes = GMSA_PASSWORD_SIZE"
    by (auto simp: blob_password_def split: if_splits)
  ultimately show ?thesis using b by blast
qed

lemma fetch_success:
  assumes "fetch_gmsa_password_and_create_krb_ticket E d t cc w = (Inr ((0, path), t'), w')"
  shows "path = cc \<and> d \<noteq> [] \<and> service_account_name t \<noteq> [] \<and>
    (\<exists>buf bytes. blob_password buf = Inr bytes \<and> length bytes = GMSA_PASSWORD_SIZE \<and>
      happened (Piped (c_str (gmsa_kinit_cmd (service_account_name t) d cc)) bytes) w')"
proof -
  have ne: "d \<noteq> []" "service_account_name t \<noteq> []"
    using assms
    by (auto simp: fetch_gmsa_password_and_create_krb_ticket_def thenM_def bindM_def Let_def
        split: prod.splits sum.splits)
  from assms ne obtain buf w1 where
    "pipe_password E (gmsa_kinit_cmd (service_account_name t) d cc) buf cc w1 = (Inr (0, path), w')"
    unfolding fetch_gmsa_password_and_create_krb_ticket_def Let_def
    by (auto simp: bindM_def thenM_def split: prod.splits sum.splits if_splits option.splits)
  from pipe_password_success [OF this] ne show ?thesis by blast
qed


text \<open>
  The ticket cache path goes into the \<open>kinit\<close> command without quotes: for an account name with
  line breaks, as the credential specification parser accepts them, the shell is given a line of
  the account's choosing.
\<close>
theorem kinit_command_injection:
  assumes "newline \<notin> set dir" and "newline \<notin> set lease"
  shows "''reboot'' \<in> set (getlines newline (gmsa_kinit_cmd (''web'' @ [newline] @ ''reboot'' @ [newline]) d
     (dir @ ''/'' @ lease @ ''/'' @ (''web'' @ [newline] @ ''reboot'' @ [newline]) @ ''/krb5cc'')))"
proof -
  let ?pre = "''dotnet '' @ install_path_for_decode_exe @ '' | kinit '' @ '' -c '' @ dir @ ''/'' @ lease @ ''/web''"
  let ?post = "''/krb5cc'' @ '' -V '' @ default_principal (''web'' @ [newline] @ ''reboot'' @ [newline]) d"
  have c: "gmsa_kinit_cmd (''web'' @ [newline] @ ''reboot'' @ [newline]) d
      (dir @ ''/'' @ lease @ ''/'' @ (''web'' @ [newline] @ ''reboot'' @ [newline]) @ ''/krb5cc'') =
      ?pre @ newline # ''reboot'' @ newline # ?post"
    by (simp add: gmsa_kinit_cmd_def)
  have p: "newline \<notin> set ?pre"
    using assms by (simp add: install_path_for_decode_exe_def newline_def)
  have r: "newline \<notin> set ''reboot''" by (simp add: newline_def)
  have "getlines newline (?pre @ newline # ''reboot'' @ newline # ?post) =
      ?pre # ''reboot'' # getlines newline ?post"
    by (simp only: getlines_Cons [OF p] getlines_Cons [OF r])
  then show ?thesis unfolding c by simp
qed

theorem kinit_command_injection_witness:
  "''reboot'' \<in> set (getlines newline (gmsa_kinit_cmd (''web'' @ [newline] @ ''reboot'' @ [newline]) ''contoso.com''
     (''/var/k'' @ ''/'' @ ''lease'' @ ''/'' @ (''web'' @ [newline] @ ''reboot'' @ [newline]) @ ''/krb5cc'')))"
  by (rule kinit_command_injection) (simp_all add: newline_def)

text \<open>
  The test after \<open>get_machine_principal\<close> looks at the wrong result: when the machine principal
  cannot be determined, the routine does not stop but runs \<open>kinit\<close> with the error text as principal.
\<close>
theorem machine_principal_failure_ignored:
  assumes "is_hostname_cmd_present E w = (Inr (0, m1), w1)" and "is_hostname_cmd_present E w1 = (Inr (0, m2), w2)"
    and "is_realm_cmd_present E w2 = (Inr (0, m3), w3)" and "is_kinit_cmd_present E w3 = (Inr (0, m4), w4)"
    and "is_ldapsearch_cmd_present E w4 = (Inr (0, m5), w5)" and "is_decode_exe_present w5 = (Inr (0, m6), w6)"
    and "get_machine_principal E d w6 = (Inr (code, msg), w7)" and "code \<noteq> 0"
  shows "Ran (c_str (''kinit -kt /etc/krb5.keytab '' @ upcase msg)) \<in>
    set (evs (snd (generate_krb_ticket_from_machine_keytab E d w)))"
proof -
  let ?e = "Ran (c_str (''kinit -kt /etc/krb5.keytab '' @ upcase msg))"
  obtain r w8 where x: "execute_kinit_in_domain_joined_case E msg w7 = (Inr r, w8)"
    unfolding execute_kinit_in_domain_joined_case_def using exec_shell_cmd_returns by blast
  then have h: "happened ?e w8"
    by (auto simp: execute_kinit_in_domain_joined_case_def exec_shell_cmd_def Let_def happened_def
        split: if_splits prod.splits)
  have "generate_krb_ticket_from_machine_keytab E d w =
      guard_tool E (execute_kinit_in_domain_joined_case E msg) ret w7"
    using assms by (simp add: generate_krb_ticket_from_machine_keytab_def)
  also have "\<dots> = (if fst r \<noteq> 0 then thenM (logger E LOG_ERR (snd r)) (ret r) else ret r) w8"
    using x by (simp add: guard_tool_def)
  finally have g: "generate_krb_ticket_from_machine_keytab E d w =
      (if fst r \<noteq> 0 then thenM (logger E LOG_ERR (snd r)) (ret r) else ret r) w8" .
  have "keeps (happened ?e) (thenM (logger E LOG_ERR (snd r)) (ret r))"
    by (rule keeps_thenM [OF hist.keeps_logger keeps_ret])
  then have "happened ?e (snd (thenM (logger E LOG_ERR (snd r)) (ret r) w8))" using h by (rule keepsD)
  with h show ?thesis unfolding g by (simp add: happened_def)
qed

definition lost_host_env :: env where
  "lost_host_env = tools_env\<lparr>gethostname := (- 1, [])\<rparr>"

definition joined_world :: world where
  "joined_world = start_world\<lparr>wfs := map (\<lambda>n. ([n], new_file []))
     [''kinit'', ''ldapsearch'', ''hostname'', ''realm''] @
     [([''usr''], new_dir), ([''usr'', ''sbin''], new_dir),
      ([''usr'', ''sbin'', ''credentials_fetcher_utf16_private.exe''], new_file [])]\<rparr>"

lemma lost_host_which:
  assumes "NUL \<notin> set (''which '' @ n)"
  shows "exec_shell_cmd lost_host_env (''which '' @ n) w =
      (Inr (0, ''/'' @ n @ [newline]), w\<lparr>evs := Ran (''which '' @ n) # evs w\<rparr>)"
proof -
  have "c_str (''which '' @ n) = ''which '' @ n" by (rule c_str_id [OF assms])
  moreover have "read_output (''/'' @ n @ [newline]) = ''/'' @ n @ [newline]"
    using assms by (intro read_output_text) (auto simp: NUL_def newline_def)
  ultimately show ?thesis
    by (simp add: exec_shell_cmd_def lost_host_env_def tools_env_def quiet_env_def Let_def)
qed

lemma joined_world_root_owned:
  "root_owned (wfs joined_world) ''/kinit''" "root_owned (wfs joined_world) ''/ldapsearch''"
  "root_owned (wfs joined_world) ''/hostname''" "root_owned (wfs joined_world) ''/realm''"
  "root_owned (wfs joined_world) install_path_for_decode_exe"
  unfolding root_owned_def by (rule exI [of _ "new_file []"], code_simp)+

lemma rtrim_newline:
  "rtrim (''/kinit'' @ [newline]) = ''/kinit''" "rtrim (''/ldapsearch'' @ [newline]) = ''/ldapsearch''"
  "rtrim (''/hostname'' @ [newline]) = ''/hostname''" "rtrim (''/realm'' @ [newline]) = ''/realm''"
  by code_simp+

lemma lost_host_tools:
  assumes "wfs w = wfs joined_world"
  shows "is_hostname_cmd_present lost_host_env w = (Inr (0, ''/hostname''), w\<lparr>evs := Ran ''which hostname'' # evs w\<rparr>)"
    and "is_realm_cmd_present lost_host_env w = (Inr (0, ''/realm''), w\<lparr>evs := Ran ''which realm'' # evs w\<rparr>)"
    and "is_kinit_cmd_present lost_host_env w = (Inr (0, ''/kinit''), w\<lparr>evs := Ran ''which kinit'' # evs w\<rparr>)"
    and "is_ldapsearch_cmd_present lost_host_env w =
      (Inr (0, ''/ldapsearch''), w\<lparr>evs := Ran ''which ldapsearch'' # evs w\<rparr>)"
    and "is_decode_exe_present w = (Inr (0, []), w)"
  using lost_host_which [of "''hostname''" w] lost_host_which [of "''realm''" w]
    lost_host_which [of "''kinit''" w] lost_host_which [of "''ldapsearch''" w]
    joined_world_root_owned rtrim_newline assms
  by (simp_all add: is_hostname_cmd_present_def is_realm_cmd_present_def is_kinit_cmd_present_def
      is_ldapsearch_cmd_present_def is_decode_exe_present_def NUL_def)

theorem machine_principal_failure_ignored_witness:
  "Ran (c_str (''kinit -kt /etc/krb5.keytab '' @ upcase [])) \<in>
     set (evs (snd (generate_krb_ticket_from_machine_keytab lost_host_env ''contoso.com'' joined_world)))"
proof -
  let ?w = "\<lambda>e. joined_world\<lparr>evs := e\<rparr>"
  have m: "get_machine_principal lost_host_env ''contoso.com'' w = (Inr (- 1, []), w)" for w
    by (simp add: get_machine_principal_def lost_host_env_def)
  show ?thesis
    by (rule machine_principal_failure_ignored [OF lost_host_tools(1) lost_host_tools(1) lost_host_tools(2)
        lost_host_tools(3) lost_host_tools(4) lost_host_tools(5) m]) simp_all
qed

section \<open>Renewal of one and of all tickets\<close>

lemma renew_attempts_value:
  "renew_attempts E cc d u p n t w = (Inr (path, t'), w') \<Longrightarrow>
   path = [] \<or> path = cc \<and> (\<exists>t1 w1 r t2 w2. fetch_gmsa_password_and_create_krb_ticket E (domain_name t1) t1 cc w1 =
      (Inr ((0, r), t2), w2) \<and> w2 = w')"
proof (induction n arbitrary: t w)
  case (Suc n)
  from Suc.prems obtain r t1 w1 where
    f: "fetch_gmsa_password_and_create_krb_ticket E (domain_name t) t cc w = (Inr (r, t1), w1)"
    by (auto simp: bindM_def split: prod.splits sum.splits)
  show ?case
  proof (cases "fst r = 0")
    case True
    with Suc.prems f have "path = cc" "w' = w1" by (auto simp: bindM_apply)
    with f True show ?thesis by (cases r) auto
  next
    case False
    with Suc.prems f have "path = [] \<or> (\<exists>w2. renew_attempts E cc d u p n t1 w2 = (Inr (path, t'), w'))"
      by (auto simp: bindM_eq_Inr thenM_eq_Inr split: if_splits)
    with Suc.IH show ?thesis by blast
  qed
qed simp

text \<open>
  \<open>renew_gmsa_ticket\<close> returns either nothing or the ticket's own path, and the path only when
  a fetch has just succeeded, so that \<open>kinit\<close> was run on this path with a 256-byte password.
\<close>
theorem renew_gmsa_ticket_path:
  assumes "renew_gmsa_ticket E t d u p w = (Inr (path, t'), w')"
  shows "path = [] \<or> path = krb_file_path t \<and>
    (\<exists>account dom bytes. length bytes = 256 \<and>
      Piped (c_str (gmsa_kinit_cmd account dom (krb_file_path t))) bytes \<in> set (evs w'))"
proof -
  from renew_attempts_value [OF assms [unfolded renew_gmsa_ticket_def]]
  consider "path = []" | t1 w1 r t2 where "path = krb_file_path t"
    "fetch_gmsa_password_and_create_krb_ticket E (domain_name t1) t1 (krb_file_path t) w1 = (Inr ((0, r), t2), w')"
    by blast
  then show ?thesis
  proof cases
    case 2
    from fetch_success [OF 2(2)] 2(1) show ?thesis
      by (auto simp: happened_def GMSA_PASSWORD_SIZE_def)
  qed simp
qed

lemma foldM_returns_fixed:
  "(\<And>x w w' r. x \<in> set xs \<Longrightarrow> f s x w = (Inr r, w') \<Longrightarrow> r = s) \<Longrightarrow> foldM f s xs w = (Inr r, w') \<Longrightarrow> r = s"
proof (induction xs arbitrary: w)
  case (Cons x xs)
  from Cons.prems(2) obtain s1 w1 where 1: "f s x w = (Inr s1, w1)" "foldM f s1 xs w1 = (Inr r, w')"
    by (auto simp: bindM_def split: prod.splits sum.splits)
  from Cons.prems(1) [of x, OF _ 1(1)] have s1: "s1 = s" by simp
  show ?case
  proof (rule Cons.IH)
    show "\<And>x w w' r. x \<in> set xs \<Longrightarrow> f s x w = (Inr r, w') \<Longrightarrow> r = s" using Cons.prems(1) by auto
    show "foldM f s xs w1 = (Inr r, w')" using 1(2) s1 by simp
  qed
qed simp

text \<open>
  \<open>renew_kerberos_tickets_domainless\<close> never reports a renewed ticket: whatever it renews, the list
  it returns is empty.
\<close>
lemma renew_domainless_reports_nothing:
  assumes "renew_kerberos_tickets_domainless J E dir d u p w = (Inr paths, w')"
  shows "paths = []"
proof -
  have one: "renew_one_domainless E d u p [] t w1 = (Inr r, w2) \<Longrightarrow> r = []" for t w1 r w2
    by (auto simp: renew_one_domainless_def bindM_def split: if_splits prod.splits sum.splits)
  have per_file: "bindM (read_meta_data_json J f) (\<lambda>ts. foldM (renew_one_domainless E d u p) [] ts) w1 = (Inr r, w2)
      \<Longrightarrow> r = []" for f w1 r w2
    by (auto simp: bindM_def split: prod.splits sum.splits intro: foldM_returns_fixed [OF one])
  from assms obtain files w1 where
    "foldM (\<lambda>renewed f. bindM (read_meta_data_json J f) (\<lambda>ts. foldM (renew_one_domainless E d u p) renewed ts))
       [] files w1 = (Inr paths, w')"
    by (auto simp: renew_kerberos_tickets_domainless_def bindM_def split: prod.splits sum.splits)
  then show ?thesis by (rule foldM_returns_fixed [rotated]) (rule per_file)
qed

section \<open>Deletion\<close>

text \<open>Commands that leave the file system alone, as \<open>kdestroy\<close> of a file cache the daemon then removes.\<close>

definition passive_shell :: "env \<Rightarrow> bool" where
  "passive_shell E \<longleftrightarrow> (\<forall>h F c. snd (snd (shell_run E h F c)) = F)"

lemma passive_exec:
  assumes "passive_shell E"
  shows "\<exists>r w'. exec_shell_cmd E c w = (Inr r, w') \<and> wfs w' = wfs w"
proof -
  have "snd (snd (shell_run E (evs w) (wfs w) (c_str c))) = wfs w"
    using assms by (simp add: passive_shell_def)
  then show ?thesis by (auto simp: exec_shell_cmd_def Let_def split: prod.splits)
qed

definition clean_paths :: "fs \<Rightarrow> string list \<Rightarrow> bool" where
  "clean_paths F ps \<longleftrightarrow> (\<forall>p \<in> set ps. \<not> contains_invalid_characters p \<and> fs_exists F p)"

lemma destroy_tickets:
  assumes "passive_shell E"
  shows "\<forall>t \<in> set ts. \<not> contains_invalid_characters (krb_file_path t) \<and> fs_exists F (krb_file_path t) \<Longrightarrow>
    wfs w = F \<Longrightarrow> clean_paths F ps \<Longrightarrow>
    \<exists>ps' w'. foldM (destroy_ticket E) ps ts w = (Inr ps', w') \<and> wfs w' = F \<and> clean_paths F ps'"
proof (induction ts arbitrary: ps w)
  case (Cons t ts)
  obtain r w1 where 1: "exec_shell_cmd E (kdestroy_cmd (krb_file_path t)) w = (Inr r, w1)" "wfs w1 = wfs w"
    using passive_exec [OF assms] by blast
  let ?ps = "if fst r = 0 then ps @ [krb_file_path t] else ps"
  have d: "destroy_ticket E ps t w = (Inr ?ps, w1)" using 1 by (simp add: destroy_ticket_def)
  have "clean_paths F ?ps" using Cons.prems by (auto simp: clean_paths_def)
  with Cons.IH [of w1 ?ps] Cons.prems 1(2) obtain ps' w' where
    "foldM (destroy_ticket E) ?ps ts w1 = (Inr ps', w')" "wfs w' = F" "clean_paths F ps'" by auto
  with d show ?case by simp
qed simp

lemma destroy_files:
  assumes "passive_shell E"
  shows "wfs w = F \<Longrightarrow> clean_paths F ps \<Longrightarrow>
    \<exists>ps' w'. foldM (destroy_file J E p) ps names w = (Inr ps', w') \<and> wfs w' = F \<and> clean_paths F ps'"
proof (induction names arbitrary: ps w)
  case (Cons n names)
  have "\<exists>ps1 w1. destroy_file J E p ps n w = (Inr ps1, w1) \<and> wfs w1 = F \<and> clean_paths F ps1"
  proof (cases "n \<noteq> [] \<and> find_sub ''_metadata'' n \<noteq> None")
    case True
    obtain ts where r: "read_meta_data_json J (p @ ''/'' @ n) w = (Inr ts, w)" and
      ok: "\<forall>t \<in> set ts. \<not> contains_invalid_characters (krb_file_path t) \<and> fs_exists F (krb_file_path t)"
      using read_meta_data_returns [of J "p @ ''/'' @ n" w] Cons.prems(1) by auto
    from destroy_tickets [OF assms ok Cons.prems] True r show ?thesis by (simp add: destroy_file_def)
  next
    case False
    with Cons.prems show ?thesis by (auto simp: destroy_file_def)
  qed
  then obtain ps1 w1 where "destroy_file J E p ps n w = (Inr ps1, w1)" "wfs w1 = F" "clean_paths F ps1"
    by blast
  with Cons.IH [of w1 ps1] show ?case by auto
qed simp

lemma delete_krb_tickets_runs:
  assumes "passive_shell E" and "lease \<noteq> []" and "dir \<noteq> []"
    and "read_dir (dir @ ''/'' @ lease) (wfs w) \<noteq> None"
  shows "\<exists>ps w'. delete_krb_tickets J E dir lease w = (Inr ps, w') \<and>
    wfs w' = remove_all (dir @ ''/'' @ lease) (wfs w) \<and> clean_paths (wfs w) ps"
proof -
  obtain names where n: "read_dir (dir @ ''/'' @ lease) (wfs w) = Some names" using assms(4) by blast
  obtain ps w1 where "foldM (destroy_file J E (dir @ ''/'' @ lease)) [] names w = (Inr ps, w1)"
    "wfs w1 = wfs w" "clean_paths (wfs w) ps"
    using destroy_files [where F = "wfs w" and w = w and ps = "[]", OF assms(1) refl,
        of J "dir @ ''/'' @ lease" names]
    by (auto simp: clean_paths_def [of _ "[]"])
  with n assms(2,3) show ?thesis
    by (simp add: delete_krb_tickets_def Let_def bindM_apply thenM_def)
qed

lemma resolve_lease:
  assumes "read_dir p F = Some names"
  shows "\<exists>l. resolve F p = Some l \<and> is_dir_at F l"
  using assms by (auto simp: read_dir_def split: option.splits if_splits)


text \<open>
  The lease identifier is not checked for path components: deleting the lease \<open>..\<close> removes the
  parent of the ticket directory with everything below it, the tickets of all leases included.
\<close>
theorem delete_lease_traversal:
  assumes "passive_shell E" and "NUL \<notin> set dir" and "dir \<noteq> []" and "components dir = up @ [d]" and "up \<noteq> []"
    and "''..'' \<notin> set (components dir)" and "is_dir_at (wfs w) up" and "walk (wfs w) [] (components dir) \<noteq> None"
    and "is_dir_at (wfs w) (components dir)"
  shows "\<exists>paths w'. delete_krb_tickets J E dir ''..'' w = (Inr paths, w') \<and>
    (\<forall>k. prefix up k \<longrightarrow> fs_lookup (wfs w') k = None)"
proof -
  have c: "components (dir @ ''/'' @ ''..'') = components dir @ [''..'']"
    using assms(2) by (intro components_snoc) (auto simp: NUL_def)
  have w: "walk (wfs w) [] (components dir) = Some (components dir)"
    using assms(6,8) walk_plain [of "components dir" "wfs w" "[]"] by force
  have l: "resolve (wfs w) (dir @ ''/'' @ ''..'') = Some up"
  proof -
    have "c_str (dir @ ''/'' @ ''..'') \<noteq> []"
      using assms(2,3) by (cases dir) (auto simp: c_str_def)
    moreover have "walk (wfs w) (components dir) [''..''] = Some up"
      using assms(4,9) by simp
    ultimately show ?thesis unfolding resolve_def c walk_app w by simp
  qed
  with assms(7) have rd: "read_dir (dir @ ''/'' @ ''..'') (wfs w) \<noteq> None" by (simp add: read_dir_def)
  have "''..'' \<noteq> ([] :: string)" by simp
  from delete_krb_tickets_runs [OF assms(1) this assms(3) rd] obtain ps w' where
    "delete_krb_tickets J E dir ''..'' w = (Inr ps, w')" "wfs w' = remove_all (dir @ ''/'' @ ''..'') (wfs w)"
    by blast
  with remove_all_gone [OF l assms(5)] show ?thesis by auto
qed

section \<open>Concrete runs\<close>

definition lease_world :: world where
  "lease_world = start_world\<lparr>wfs := [([''v''], new_dir), ([''v'', ''k''], new_dir),
     ([''v'', ''k'', ''a''], new_dir), ([''v'', ''k'', ''a'', ''krb5cc''], new_file []),
     ([''v'', ''k'', ''b''], new_dir)]\<rparr>"

lemma quiet_passive: "passive_shell quiet_env"
  by (simp add: passive_shell_def quiet_env_def)


theorem delete_lease_traversal_witness:
  "\<exists>paths w'. delete_krb_tickets tree_json quiet_env ''/v/k'' ''..'' lease_world = (Inr paths, w') \<and>
    fs_lookup (wfs w') [''v'', ''k'', ''b''] = None"
proof -
  have c: "components ''/v/k'' = [''v''] @ [''k'']" by code_simp
  have 1: "NUL \<notin> set ''/v/k''" "''/v/k'' \<noteq> []" "[''v''] \<noteq> []" "''..'' \<notin> set (components ''/v/k'')"
    by (simp_all add: NUL_def c)
  have 2: "is_dir_at (wfs lease_world) [''v'']" "walk (wfs lease_world) [] (components ''/v/k'') \<noteq> None"
    "is_dir_at (wfs lease_world) (components ''/v/k'')"
    by (simp_all add: lease_world_def c is_dir_at_def fs_lookup_def new_dir_def)
  obtain paths w' where
    "delete_krb_tickets tree_json quiet_env ''/v/k'' ''..'' lease_world = (Inr paths, w')"
    "\<forall>k. prefix [''v''] k \<longrightarrow> fs_lookup (wfs w') k = None"
    using delete_lease_traversal [OF quiet_passive 1(1,2) c 1(3,4) 2(1-3)] by blast
  then show ?thesis by auto
qed

text \<open>A directory that holds the account's password, and a \<open>kinit\<close> that accepts it.\<close>

definition gmsa_env :: env where
  "gmsa_env = quiet_env\<lparr>
     shell_run := (\<lambda>_ F c. (0, if take 10 c = ''ldapsearch'' then ''msDS-ManagedPassword:: QUJD#''
        else ''dc1'', F)),
     g_base64_decode := (\<lambda>_. Some (replicate 300 CHR ''p''))\<rparr>"

definition gmsa_world :: world where
  "gmsa_world = start_world\<lparr>wlog := set_log_level 7 init_logger\<rparr>"

definition gmsa_ticket :: krb_ticket_info where
  "gmsa_ticket = new_krb_ticket_info\<lparr>krb_file_path := ''/cc'', service_account_name := ''web'',
     domain_name := ''c'', distinguished_name := ''CN=web''\<rparr>"

lemma gmsa_env_fetch:
  "fst (fetch_gmsa_password_and_create_krb_ticket gmsa_env ''c'' gmsa_ticket ''/cc'' gmsa_world) =
     Inr ((0, ''/cc''), gmsa_ticket)"
  by code_simp


theorem renew_gmsa_ticket_path_witness:
  "\<exists>account dom bytes. length bytes = 256 \<and> Piped (c_str (gmsa_kinit_cmd account dom ''/cc'')) bytes \<in>
     set (evs (snd (renew_gmsa_ticket gmsa_env gmsa_ticket ''c'' ''u'' ''p'' gmsa_world)))"
proof -
  obtain w' where "fetch_gmsa_password_and_create_krb_ticket gmsa_env ''c'' gmsa_ticket ''/cc'' gmsa_world =
      (Inr ((0, ''/cc''), gmsa_ticket), w')"
    using gmsa_env_fetch by (metis prod.collapse)
  then have r: "renew_gmsa_ticket gmsa_env gmsa_ticket ''c'' ''u'' ''p'' gmsa_world = (Inr (''/cc'', gmsa_ticket), w')"
    by (simp add: renew_gmsa_ticket_def numeral_2_eq_2 gmsa_ticket_def)
  from renew_gmsa_ticket_path [OF r] r show ?thesis by (auto simp: gmsa_ticket_def)
qed

lemma renew_domainless_quiet:
  "\<exists>w'. renew_kerberos_tickets_domainless tree_json quiet_env ''/'' d u p start_world = (Inr [], w')"
proof -
  have r: "resolve [] ''/'' = Some []" by code_simp
  have "files_below ''/'' (wfs start_world) = Inr []"
    using r by (simp add: files_below_def start_world_def)
  then show ?thesis
    by (simp add: renew_kerberos_tickets_domainless_def get_meta_data_file_paths_def bindM_apply)
qed

section \<open>What the routines keep\<close>

context host_inv begin

lemma keeps_guard_tool: "keeps I m \<Longrightarrow> (\<And>r. keeps I (k r)) \<Longrightarrow> keeps I (guard_tool E m k)"
  unfolding guard_tool_def by (intro keeps_intros keeps_logger)

lemma keeps_machine_keytab: "keeps I (generate_krb_ticket_from_machine_keytab E d)"
  unfolding generate_krb_ticket_from_machine_keytab_def
  by (intro keeps_intros keeps_guard_tool keeps_tools keeps_machine_principal keeps_joined_kinit keeps_logger)

lemma keeps_choose_dn: "keeps I (choose_dn E a b f d)"
  unfolding choose_dn_def Let_def by (intro keeps_intros keeps_find_dn keeps_logger)

lemma keeps_fqdn_loop: "keeps I (fqdn_loop E a b fs d t r)"
  by (induction fs arbitrary: d t r)
     (auto simp: Let_def intro!: keeps_intros keeps_choose_dn keeps_ldapsearch keeps_logger)

lemma keeps_pipe_run: "keeps I (\<lambda>w. let (code, F) = pipe_run E (evs w) (wfs w) c b
    in (Inr code, w\<lparr>wfs := F, evs := Piped c b # evs w\<rparr>))"
  by (auto simp: keeps_def Let_def intro: host_pipe split: prod.splits)

lemma keeps_pipe_password: "keeps I (pipe_password E c b cc)"
  unfolding pipe_password_def by (intro keeps_intros keeps_pipe_run keeps_time keeps_logger)

lemma keeps_fetch: "keeps I (fetch_gmsa_password_and_create_krb_ticket E d t cc)"
  unfolding fetch_gmsa_password_and_create_krb_ticket_def Let_def
  by (intro keeps_intros keeps_fqdns keeps_fqdn_loop keeps_find_password keeps_time keeps_logger
      keeps_pipe_password)

lemma keeps_meta_paths: "keeps I (get_meta_data_file_paths d)"
  unfolding get_meta_data_file_paths_def by (intro keeps_intros)

lemma keeps_renew_attempts: "keeps I (renew_attempts E cc d u p n t)"
  by (induction n arbitrary: t)
     (auto simp: log_fetch_failure_def intro!: keeps_intros keeps_fetch keeps_user_ticket keeps_logger)

lemma keeps_renew_gmsa: "keeps I (renew_gmsa_ticket E t d u p)"
  unfolding renew_gmsa_ticket_def by (rule keeps_renew_attempts)

lemma keeps_renew_domainless: "keeps I (renew_kerberos_tickets_domainless J E kd d u p)"
  unfolding renew_kerberos_tickets_domainless_def renew_one_domainless_def
  by (intro keeps_intros keeps_meta_paths keeps_read_meta keeps_renew_gmsa)

end

context world_inv begin

lemma keeps_delete: "keeps I (delete_krb_tickets J E kd l)"
  unfolding delete_krb_tickets_def Let_def destroy_file_def destroy_ticket_def
  by (intro keeps_intros keeps_read_meta keeps_shell keeps_fs)

end

end
