(* ===== verification/Aws.thy ===== *)
theory Aws
  imports Credspec
begin

text \<open>
  The Amazon part of api/src/gmsa_service.cpp: credentials, the caller's account, the size check and
  the download of a specification from S3, and the user's credentials from Secrets Manager. The
  AWS client library is a parameter: the outcome of each request.
\<close>

section \<open>The client library\<close>

record aws_credentials =
  access_key_id :: string
  secret_access_key :: string
  session_token :: string

text \<open>A request succeeds with a result, fails, or throws.\<close>

datatype 'a outcome = Success 'a | Failure | Thrown

text \<open>The functions take the history, the region, the credentials and the subject of the request.\<close>

record aws =
  creds_empty :: "aws_credentials \<Rightarrow> bool"
  caller_identity :: "event list \<Rightarrow> string \<Rightarrow> aws_credentials \<Rightarrow> string outcome"
  head_object :: "event list \<Rightarrow> string \<Rightarrow> aws_credentials \<Rightarrow> string \<Rightarrow> string \<Rightarrow> int outcome"
  get_object :: "event list \<Rightarrow> string \<Rightarrow> aws_credentials \<Rightarrow> string \<Rightarrow> string \<Rightarrow> string outcome"
  get_secret_value :: "event list \<Rightarrow> string \<Rightarrow> aws_credentials \<Rightarrow> string \<Rightarrow> string outcome"

definition aws_request :: "(event list \<Rightarrow> 'a outcome) \<Rightarrow> string \<Rightarrow> string \<Rightarrow> 'a outcome WM" where
  "aws_request f operation subject =
     (\<lambda>w. (Inr (f (evs w)), w\<lparr>evs := Aws_call operation subject # evs w\<rparr>))"

section \<open>The requests\<close>

definition get_credentials :: "string \<Rightarrow> string \<Rightarrow> string \<Rightarrow> aws_credentials" where
  "get_credentials accessKeyId secretKey sessionToken =
     \<lparr>access_key_id = accessKeyId, secret_access_key = secretKey, session_token = sessionToken\<rparr>"

definition get_caller_id :: "aws \<Rightarrow> string \<Rightarrow> aws_credentials \<Rightarrow> string WM" where
  "get_caller_id A region creds =
     (if creds_empty A creds then ret []
      else bindM (aws_request (\<lambda>h. caller_identity A h region creds) ''GetCallerIdentity'' []) (\<lambda>out.
        case out of Success callerId \<Rightarrow> ret callerId | _ \<Rightarrow> ret []))"

definition not_char :: "char \<Rightarrow> regex" where "not_char c = Cls (\<lambda>d. d \<noteq> c)"

text \<open>The dot of the grammar: any character but a line end.\<close>

definition any_char :: regex where "any_char = Cls (\<lambda>c. c \<noteq> newline \<and> c \<noteq> CHR 0x0D)"

text \<open>\<open>arn:([^:]+):s3:::([^/]+)/(.+)\<close>.\<close>

definition s3_arn_regex :: regex where
  "s3_arn_regex = Sequ (lits ''arn:'') (Sequ (Group (plus1 (not_char CHR '':''))) (Sequ (lits '':s3:::'')
     (Sequ (Group (plus1 (not_char CHR ''/''))) (Sequ (lit CHR ''/'') (Group (plus1 any_char))))))"

text \<open>Bucket and object of an ARN: the second and third group.\<close>

definition s3_object :: "string \<Rightarrow> (string \<times> string) option" where
  "s3_object s3_arn = (case regex_search s3_arn_regex s3_arn of
     Some [_, bucket, key] \<Rightarrow> Some (bucket, key)
   | _ \<Rightarrow> None)"

definition MAX_CREDSPEC_SIZE :: int where "MAX_CREDSPEC_SIZE = 4000"

definition check_file_size_s3 :: "aws \<Rightarrow> string \<Rightarrow> string \<Rightarrow> aws_credentials \<Rightarrow> bool \<Rightarrow> bool WM" where
  "check_file_size_s3 A s3_arn region creds test =
     (if creds_empty A creds then ret False
      else case s3_object s3_arn of
        None \<Rightarrow> ret False
      | Some (s3Bucket, objectName) \<Rightarrow>
          if test then ret True
          else bindM (aws_request (\<lambda>h. head_object A h region creds s3Bucket objectName) ''HeadObject'' s3_arn) (\<lambda>out.
            case out of
              Success objLen \<Rightarrow> ret (\<not> objLen > MAX_CREDSPEC_SIZE)
            | _ \<Rightarrow> ret False))"

definition retrieve_credspec_from_s3 :: "aws \<Rightarrow> string \<Rightarrow> string \<Rightarrow> aws_credentials \<Rightarrow> bool \<Rightarrow> string WM" where
  "retrieve_credspec_from_s3 A s3_arn region creds test =
     (if creds_empty A creds then ret []
      else case s3_object s3_arn of
        None \<Rightarrow> ret []
      | Some (s3Bucket, objectName) \<Rightarrow>
          if test then ret dummy_credspec
          else bindM (aws_request (\<lambda>h. get_object A h region creds s3Bucket objectName) ''GetObject'' s3_arn) (\<lambda>out.
            case out of
              Success response \<Rightarrow> ret response
            | _ \<Rightarrow> ret []))"

text \<open>\<open>root[a].asString()\<close>, or when it is empty \<open>root[b].asString()\<close>.\<close>

definition either_member :: "'j jsonlib \<Rightarrow> 'j \<Rightarrow> string \<Rightarrow> string \<Rightarrow> cpp_exn + string" where
  "either_member J root a b =
     bindE (string_member J root a) (\<lambda>s. if s = [] then string_member J root b else Inr s)"

text \<open>User name, password, domain, distinguished name.\<close>

type_synonym user_creds = "string \<times> string \<times> string \<times> string"

definition no_creds :: user_creds where "no_creds = ([], [], [], [])"

definition secret_user :: "'j jsonlib \<Rightarrow> string \<Rightarrow> cpp_exn + user_creds" where
  "secret_user J response =
     bindE (parse_stream J response) (\<lambda>(_, root).
     bindE (either_member J root ''username'' ''usernameOfStandardUserAccount'') (\<lambda>username.
     bindE (either_member J root ''password'' ''passwordOfStandardUserAccount'') (\<lambda>password.
     bindE (either_member J root ''distinguishedName'' ''distinguishedNameOfgMSA'') (\<lambda>dist.
     bindE (string_member J root ''domainName'') (\<lambda>dom. Inr (username, password, dom, dist))))))"

definition retrieve_credspec_from_secrets_manager ::
    "'j jsonlib \<Rightarrow> aws \<Rightarrow> string \<Rightarrow> string \<Rightarrow> aws_credentials \<Rightarrow> user_creds WM" where
  "retrieve_credspec_from_secrets_manager J A sm_arn region creds =
     (if creds_empty A creds then ret no_creds
      else bindM (aws_request (\<lambda>h. get_secret_value A h region creds sm_arn) ''GetSecretValue'' sm_arn) (\<lambda>out.
        case out of
          Success response \<Rightarrow> (case secret_user J response of Inl _ \<Rightarrow> ret no_creds | Inr u \<Rightarrow> ret u)
        | _ \<Rightarrow> ret no_creds))"

section \<open>Robustness\<close>

lemma aws_request_apply [simp]:
  "aws_request f op s w = (Inr (f (evs w)), w\<lparr>evs := Aws_call op s # evs w\<rparr>)"
  by (simp add: aws_request_def)

lemma check_file_size_returns: "\<exists>r w'. check_file_size_s3 A arn rg c t w = (Inr r, w') \<and> wfs w' = wfs w"
  by (auto simp: check_file_size_s3_def bindM_apply split: option.splits outcome.splits)

lemma retrieve_s3_returns: "\<exists>r w'. retrieve_credspec_from_s3 A arn rg c t w = (Inr r, w') \<and> wfs w' = wfs w"
  by (auto simp: retrieve_credspec_from_s3_def bindM_apply split: option.splits outcome.splits)

lemma retrieve_secret_returns:
  "\<exists>r w'. retrieve_credspec_from_secrets_manager J A arn rg c w = (Inr r, w') \<and> wfs w' = wfs w"
  by (auto simp: retrieve_credspec_from_secrets_manager_def bindM_apply no_creds_def
      split: option.splits outcome.splits sum.splits)

lemma lang_not_char: "lang (plus1 (not_char c)) = {w. w \<noteq> [] \<and> c \<notin> set w}"
  by (auto simp: not_char_def lang_plus1_Cls list_all_iff)

text \<open>The parts of an S3 ARN.\<close>

definition s3_parts :: "string \<Rightarrow> string \<Rightarrow> string \<Rightarrow> bool" where
  "s3_parts arn bucket key \<longleftrightarrow> (\<exists>pre partition post. arn = pre @ ''arn:'' @ partition @ '':s3:::'' @ bucket @
     ''/'' @ key @ post \<and> partition \<noteq> [] \<and> CHR '':'' \<notin> set partition \<and>
     bucket \<noteq> [] \<and> CHR ''/'' \<notin> set bucket \<and> key \<noteq> [] \<and> newline \<notin> set key \<and> CHR 0x0D \<notin> set key)"

lemma lang_any: "lang (plus1 any_char) = {w. w \<noteq> [] \<and> newline \<notin> set w \<and> CHR 0x0D \<notin> set w}"
  by (auto simp: any_char_def lang_plus1_Cls list_all_iff)

lemma no_group_parts [simp]: "no_group (plus1 (not_char c))" "no_group (plus1 any_char)" "no_group (lit c)"
  by (simp_all add: plus1_def not_char_def any_char_def lit_def)

lemma s3_groups:
  assumes "(rest, cs) \<in> set (steps s3_arn_regex (s, []))"
  shows "\<exists>p b k. cs = [p, b, k] \<and> s = ''arn:'' @ p @ '':s3:::'' @ b @ ''/'' @ k @ rest \<and> p \<noteq> [] \<and>
    CHR '':'' \<notin> set p \<and> b \<noteq> [] \<and> CHR ''/'' \<notin> set b \<and> k \<noteq> [] \<and> newline \<notin> set k \<and> CHR 0x0D \<notin> set k"
proof -
  obtain s1 c1 s2 c2 s3 c3 s4 c4 s5 c5 where
    st: "(s1, c1) \<in> set (steps (lits ''arn:'') (s, []))"
      "(s2, c2) \<in> set (steps (Group (plus1 (not_char CHR '':''))) (s1, c1))"
      "(s3, c3) \<in> set (steps (lits '':s3:::'') (s2, c2))"
      "(s4, c4) \<in> set (steps (Group (plus1 (not_char CHR ''/''))) (s3, c3))"
      "(s5, c5) \<in> set (steps (lit CHR ''/'') (s4, c4))"
      "(rest, cs) \<in> set (steps (Group (plus1 any_char)) (s5, c5))"
    using assms unfolding s3_arn_regex_def steps_Sequ by blast
  have 1: "c1 = []" "s = ''arn:'' @ s1"
    using steps_plain [OF no_group_lits st(1)] unfolding lang_lits by simp_all
  obtain p where 2: "p \<in> lang (plus1 (not_char CHR '':''))" "s1 = p @ s2" "c2 = c1 @ [p]"
    using steps_Group_plain [OF no_group_parts(1) st(2)] by blast
  have 3: "c3 = c2" "s2 = '':s3:::'' @ s3"
    using steps_plain [OF no_group_lits st(3)] unfolding lang_lits by simp_all
  obtain b where 4: "b \<in> lang (plus1 (not_char CHR ''/''))" "s3 = b @ s4" "c4 = c3 @ [b]"
    using steps_Group_plain [OF no_group_parts(1) st(4)] by blast
  have 5: "c5 = c4" "s4 = ''/'' @ s5"
    using steps_plain [OF no_group_parts(3) st(5)] unfolding lang_lit by simp_all
  obtain k where 6: "k \<in> lang (plus1 any_char)" "s5 = k @ rest" "cs = c5 @ [k]"
    using steps_Group_plain [OF no_group_parts(2) st(6)] by blast
  have "cs = [p, b, k]" using 1 2 3 4 5 6 by simp
  moreover have "s = ''arn:'' @ p @ '':s3:::'' @ b @ ''/'' @ k @ rest" using 1 2 3 4 5 6 by simp
  ultimately show ?thesis using 2(1) 4(1) 6(1) unfolding lang_not_char lang_any by blast
qed

lemma s3_lang:
  assumes "s3_parts arn b k"
  shows "\<exists>pre w post. arn = pre @ w @ post \<and> w \<in> lang s3_arn_regex"
proof -
  from assms obtain pre p post where arn: "arn = pre @ ''arn:'' @ p @ '':s3:::'' @ b @ ''/'' @ k @ post"
    and l: "p \<in> lang (Group (plus1 (not_char CHR '':'')))" "b \<in> lang (Group (plus1 (not_char CHR ''/'')))"
      "k \<in> lang (Group (plus1 any_char))"
    unfolding s3_parts_def lang.simps(6) lang_not_char lang_any by blast
  have c: "''arn:'' \<in> lang (lits ''arn:'')" "'':s3:::'' \<in> lang (lits '':s3:::'')" "''/'' \<in> lang (lit CHR ''/'')"
    unfolding lang_lits lang_lit by simp_all
  have "''arn:'' @ p @ '':s3:::'' @ b @ ''/'' @ k \<in> lang s3_arn_regex"
    unfolding s3_arn_regex_def by (intro lang_SequI l c)
  with arn show ?thesis by (intro exI [of _ pre] exI [of _ "''arn:'' @ p @ '':s3:::'' @ b @ ''/'' @ k"] exI [of _ post]) simp
qed

lemma s3_object_Some:
  assumes "s3_object arn = Some (b, k)"
  shows "s3_parts arn b k"
proof -
  from assms obtain p where "regex_search s3_arn_regex arn = Some [p, b, k]"
    by (auto simp: s3_object_def split: option.splits list.splits)
  from regex_search_Some [OF this] obtain pre rest here where
    h: "arn = pre @ here" "(rest, [p, b, k]) \<in> set (steps s3_arn_regex (here, []))" by blast
  from s3_groups [OF h(2)] h(1) show ?thesis unfolding s3_parts_def by auto
qed

lemma s3_object_None: "s3_object arn = None \<longleftrightarrow> \<not> (\<exists>b k. s3_parts arn b k)"
proof
  assume n: "s3_object arn = None"
  show "\<not> (\<exists>b k. s3_parts arn b k)"
  proof
    assume "\<exists>b k. s3_parts arn b k"
    then obtain b k pre w post where "arn = pre @ w @ post" "w \<in> lang s3_arn_regex"
      using s3_lang by blast
    then have "regex_search s3_arn_regex arn \<noteq> None" unfolding regex_search_None by blast
    then obtain cs where cs: "regex_search s3_arn_regex arn = Some cs" by blast
    from regex_search_Some [OF this] obtain pre' rest here where
      "(rest, cs) \<in> set (steps s3_arn_regex (here, []))" by blast
    from s3_groups [OF this] n cs show False by (auto simp: s3_object_def)
  qed
next
  assume "\<not> (\<exists>b k. s3_parts arn b k)"
  then show "s3_object arn = None" by (metis s3_object_Some not_None_eq surj_pair)
qed


section \<open>A concrete client\<close>

definition no_aws :: aws where
  "no_aws = \<lparr>creds_empty = (\<lambda>c. access_key_id c = []), caller_identity = (\<lambda>_ _ _. Failure),
     head_object = (\<lambda>_ _ _ _ _. Failure), get_object = (\<lambda>_ _ _ _ _. Failure),
     get_secret_value = (\<lambda>_ _ _ _. Failure)\<rparr>"


section \<open>What the requests keep\<close>

context world_inv begin

lemma keeps_aws_request: "keeps I (aws_request f op s)"
  by (simp add: keeps_def inv_event)

lemma keeps_case_outcome:
  "(\<And>x. keeps I (f x)) \<Longrightarrow> keeps I g \<Longrightarrow> keeps I h \<Longrightarrow>
   keeps I (case out of Success x \<Rightarrow> f x | Failure \<Rightarrow> g | Thrown \<Rightarrow> h)"
  by (cases out) simp_all

lemma keeps_s3: "keeps I (check_file_size_s3 A arn rg c t)" "keeps I (retrieve_credspec_from_s3 A arn rg c t)"
  unfolding check_file_size_s3_def retrieve_credspec_from_s3_def
  by (intro keeps_intros keeps_aws_request keeps_case_outcome)+

lemma keeps_secrets_manager: "keeps I (retrieve_credspec_from_secrets_manager J A arn rg c)"
  unfolding retrieve_credspec_from_secrets_manager_def
  by (intro keeps_intros keeps_aws_request keeps_case_outcome)

end

end
