(* ===== verification/Lease_Common.thy ===== *)
theory Lease_Common
  imports Krb Aws
begin

text \<open>
  What the lease handlers of api/src/gmsa_service.cpp share: the status of a reply, the making of a
  ticket cache for a ticket, the loop that makes the tickets of a lease and stops at the first
  trouble, the removal after a failure, and the limits on a user's credentials.
\<close>

datatype grpc_status = Grpc_OK | Grpc_internal string

section \<open>The ticket cache\<close>

definition make_directories :: "string \<Rightarrow> unit WM" where
  "make_directories p =
     bindM (getM (\<lambda>w. create_directories p (wfs w))) (\<lambda>r.
     bindM (liftM r) (\<lambda>F. modM (\<lambda>w. w\<lparr>wfs := F\<rparr>)))"

definition ccache_name :: "string \<Rightarrow> string" where
  "ccache_name dir = dir @ ''/krb5cc''"

text \<open>\<open>std::ofstream file( p ); file.close();\<close>\<close>

definition touch_file :: "string \<Rightarrow> unit WM" where
  "touch_file p = modM (\<lambda>w. w\<lparr>wfs := (case write_file p [] (wfs w) of None \<Rightarrow> wfs w | Some F \<Rightarrow> F)\<rparr>)"

text \<open>
  \<open>create_directories( krb_file_path )\<close>, then an empty \<open>krb5cc\<close> in it when there is none; only then
  the ticket's path becomes that of the cache.
\<close>

definition make_krb5cc :: "krb_ticket_info \<Rightarrow> (string \<times> krb_ticket_info) WM" where
  "make_krb5cc t =
     (let cc = ccache_name (krb_file_path t) in
      thenM (make_directories (krb_file_path t))
     (bindM (getM (\<lambda>w. fs_exists (wfs w) cc)) (\<lambda>ex.
        if \<not> ex then thenM (touch_file cc) (ret (cc, t\<lparr>krb_file_path := cc\<rparr>))
        else ret (cc, t))))"

section \<open>The loop over the tickets\<close>

text \<open>
  A round either makes a ticket in a directory, or leaves the loop with an error message, which
  may be empty. The tickets come back as the rounds changed them, those not reached unchanged.
\<close>

datatype round_result = Made string | Left string

text \<open>Making the cache and fetching the account's password into it.\<close>

definition gmsa_round ::
    "env \<Rightarrow> (krb_ticket_info \<Rightarrow> krb_ticket_info WM) \<Rightarrow> (krb_ticket_info \<Rightarrow> string) \<Rightarrow>
     (int \<times> string \<Rightarrow> string) \<Rightarrow> (int \<times> string \<Rightarrow> string) \<Rightarrow> krb_ticket_info \<Rightarrow>
     (round_result \<times> krb_ticket_info) WM" where
  "gmsa_round E prepare fetch_domain err_msg log_msg t =
     bindM (make_krb5cc t) (\<lambda>(krb_ccname_str, t1).
     bindM (prepare t1) (\<lambda>t2.
     bindM (fetch_gmsa_password_and_create_krb_ticket E (fetch_domain t2) t2 krb_ccname_str) (\<lambda>(res, t3).
       if fst res \<noteq> 0 then
         thenM (logger E LOG_ERR (log_msg res)) (ret (Left (err_msg res), t3))
       else
         thenM (logger E LOG_INFO (''gMSA ticket is at '' @ snd res))
           (ret (Made (krb_file_path t), t3)))))"

fun create_tickets ::
    "(krb_ticket_info \<Rightarrow> (round_result \<times> krb_ticket_info) WM) \<Rightarrow> krb_ticket_info list \<Rightarrow>
     (string \<times> krb_ticket_info list \<times> string list) WM" where
  "create_tickets one [] = ret ([], [], [])"
| "create_tickets one (t # ts) =
     bindM (one t) (\<lambda>(r, t').
       case r of
         Left err \<Rightarrow> ret (err, t' # ts, [])
       | Made path \<Rightarrow>
           bindM (create_tickets one ts) (\<lambda>(err, ts', paths). ret (err, t' # ts', path # paths)))"

definition remove_tickets :: "krb_ticket_info list \<Rightarrow> unit WM" where
  "remove_tickets ts = forM (\<lambda>t. modM (\<lambda>w. w\<lparr>wfs := remove_all (krb_file_path t) (wfs w)\<rparr>)) ts"

definition secureClearString :: "string \<Rightarrow> unit WM" where
  "secureClearString str = whenM (str \<noteq> []) (modM (\<lambda>w. w\<lparr>evs := Wiped str # evs w\<rparr>))"

lemma secureClearString_eq [simp]: "secureClearString = clearString"
  by (simp add: fun_eq_iff secureClearString_def clearString_def)

text \<open>
  The end of a request: the local copies of its secrets wiped, then the tickets removed after an error, their
  metadata written otherwise.
\<close>

definition finish_lease ::
    "'j jsonlib \<Rightarrow> string list \<Rightarrow> string \<Rightarrow> string \<Rightarrow> string \<Rightarrow> krb_ticket_info list \<Rightarrow> 'r \<Rightarrow> ('r \<times> grpc_status) WM" where
  "finish_lease J secrets krb_files_dir lease_id err_msg ts reply =
     thenM (forM secureClearString secrets)
     (if err_msg \<noteq> [] then
        thenM (remove_tickets ts) (ret (reply, Grpc_internal err_msg))
      else
        bindM (write_meta_data_json J ts lease_id krb_files_dir) (\<lambda>_. ret (reply, Grpc_OK)))"

text \<open>From the collected tickets to the reply: the loop, unless collecting failed, and the end.\<close>

definition run_lease ::
    "'j jsonlib \<Rightarrow> string list \<Rightarrow> string \<Rightarrow> string \<Rightarrow> (krb_ticket_info \<Rightarrow> (round_result \<times> krb_ticket_info) WM) \<Rightarrow>
     string \<Rightarrow> krb_ticket_info list \<Rightarrow> (string list \<Rightarrow> 'r) \<Rightarrow> ('r \<times> grpc_status) WM" where
  "run_lease J secrets krb_files_dir lease_id one err infos reply =
     bindM (if err = [] then create_tickets one infos else ret (err, infos, [])) (\<lambda>(err_msg, infos', paths).
       finish_lease J secrets krb_files_dir lease_id err_msg infos' (reply paths))"

section \<open>Limits on credentials\<close>

definition credentials_fit :: "string \<Rightarrow> string \<Rightarrow> string \<Rightarrow> bool" where
  "credentials_fit username password domain \<longleftrightarrow>
     username \<noteq> [] \<and> password \<noteq> [] \<and> domain \<noteq> [] \<and>
     length username < INPUT_CREDENTIALS_LENGTH \<and> length password < INPUT_CREDENTIALS_LENGTH \<and>
     length domain < DOMAIN_LENGTH"

definition names_valid :: "string \<Rightarrow> string \<Rightarrow> bool" where
  "names_valid username domain \<longleftrightarrow>
     isValidDomain domain \<and> \<not> contains_invalid_characters_in_ad_account_name username"

section \<open>Collecting the specifications\<close>

record lease_reply =
  reply_lease_id :: string
  created_kerberos_file_paths :: "string list"

definition ticket_dir :: "string \<Rightarrow> string \<Rightarrow> string \<Rightarrow> string" where
  "ticket_dir krb_files_dir lease_id account = krb_files_dir @ ''/'' @ lease_id @ ''/'' @ account"

text \<open>
  The loop over the specifications: the message it ends with and the tickets collected. A second
  account of the same name is dropped. \<open>check\<close> is what a handler tests before it parses: a message,
  or nothing.
\<close>

fun collect_specs ::
    "(string \<Rightarrow> string) \<Rightarrow> 'j jsonlib \<Rightarrow> string \<Rightarrow> string \<Rightarrow> string \<Rightarrow> string list \<Rightarrow> string list \<Rightarrow>
     krb_ticket_info list \<Rightarrow> string \<times> krb_ticket_info list" where
  "collect_specs check J kd lease user [] dirs infos = ([], infos)"
| "collect_specs check J kd lease user (content # contents) dirs infos =
     (if check content \<noteq> [] then (check content, infos)
      else case parse_cred_spec J content new_krb_ticket_info of (parse_result, info) \<Rightarrow>
        if parse_result \<noteq> 0 then (''ERROR: invalid credentialspec fields'', infos)
        else
          let path = ticket_dir kd lease (service_account_name info);
              info' = info\<lparr>krb_file_path := path, domainless_user := user\<rparr>
          in if path \<notin> set dirs
             then collect_specs check J kd lease user contents (path # dirs) (infos @ [info'])
             else collect_specs check J kd lease user contents dirs infos)"

lemma collect_specs_paths:
  "collect_specs check J kd lease user contents dirs infos = (err, infos') \<Longrightarrow>
   distinct (map krb_file_path infos) \<Longrightarrow> krb_file_path ` set infos \<subseteq> set dirs \<Longrightarrow>
   distinct (map krb_file_path infos') \<and>
   (\<forall>t \<in> set infos'. t \<in> set infos \<or> (domainless_user t = user \<and>
      krb_file_path t = ticket_dir kd lease (service_account_name t)))"
proof (induction check J kd lease user contents dirs infos rule: collect_specs.induct)
  case (2 check J kd lease user content contents dirs infos)
  obtain code info where p: "parse_cred_spec J content new_krb_ticket_info = (code, info)" by force
  let ?path = "ticket_dir kd lease (service_account_name info)"
  let ?info = "info\<lparr>krb_file_path := ?path, domainless_user := user\<rparr>"
  show ?case
  proof (cases "check content = [] \<and> code = 0")
    case True
    then have True: "check content = []" "code = 0" by auto
    note IH = "2.IH" [unfolded not_not, OF True(1) p [symmetric], unfolded not_not, OF True(2) refl refl]
    show ?thesis
    proof (cases "?path \<notin> set dirs")
      case new: True
      from "2.prems" p True new have
        "collect_specs check J kd lease user contents (?path # dirs) (infos @ [?info]) = (err, infos')"
        by (simp add: Let_def)
      moreover have "distinct (map krb_file_path (infos @ [?info]))" using "2.prems"(2,3) new by auto
      moreover have "krb_file_path ` set (infos @ [?info]) \<subseteq> set (?path # dirs)" using "2.prems"(3) by auto
      ultimately show ?thesis using IH(1) [OF new] by auto
    next
      case False
      with "2.prems" p True IH(2) show ?thesis by (simp add: Let_def)
    qed
  next
    case False
    with "2.prems" p show ?thesis by (auto simp: Let_def split: if_splits)
  qed
qed auto

text \<open>Any prefix of the collected directories is a list of different directories of the lease.\<close>

lemma collect_specs_listed:
  assumes "collect_specs check J kd lease user contents [] [] = (err, infos)"
    and "prefix paths (map krb_file_path infos)"
  shows "distinct paths \<and> (\<forall>p \<in> set paths. \<exists>account. p = ticket_dir kd lease account)"
  using collect_specs_paths [OF assms(1)] assms(2) set_mono_prefix [OF assms(2)]
  by (auto simp: prefix_def)

section \<open>Tickets that were made\<close>

text \<open>
  \<open>ticket_made dir w\<close>: the history has a \<open>kinit\<close> for some account, fed with 256 password bytes,
  whose ticket cache is the \<open>krb5cc\<close> of that directory.
\<close>

definition ticket_made :: "string \<Rightarrow> world \<Rightarrow> bool" where
  "ticket_made dir w \<longleftrightarrow> (\<exists>account domain bytes. length bytes = GMSA_PASSWORD_SIZE \<and>
     happened (Piped (c_str (gmsa_kinit_cmd account domain (ccache_name dir))) bytes) w)"

interpretation made: world_inv "ticket_made dir" for dir
  by unfold_locales (unfold ticket_made_def, (blast intro: hist.inv_event hist.inv_fs hist.inv_log)+)

lemma make_krb5cc_result:
  assumes "make_krb5cc t w = (Inr (cc, t'), w')"
  shows "cc = ccache_name (krb_file_path t) \<and>
    t' = (if krb_file_path t' = krb_file_path t then t else t\<lparr>krb_file_path := cc\<rparr>)"
  using assms by (auto simp: make_krb5cc_def Let_def thenM_eq_Inr bindM_eq_Inr split: if_splits)

text \<open>A round reports a directory only when \<open>kinit\<close> put a ticket into it.\<close>

lemma gmsa_round_made:
  assumes "gmsa_round E prepare fd em lm t w = (Inr (Made p, t'), w')"
  shows "p = krb_file_path t \<and> ticket_made p w'"
proof -
  from assms obtain cc t1 t2 t3 path w1 w2 w3 u w4 where
    1: "make_krb5cc t w = (Inr (cc, t1), w1)" and
    2: "fetch_gmsa_password_and_create_krb_ticket E (fd t2) t2 cc w2 = (Inr ((0, path), t3), w3)" and
    3: "logger E LOG_INFO (''gMSA ticket is at '' @ path) w3 = (Inr u, w4)" and
    4: "p = krb_file_path t" "w' = w4"
    unfolding gmsa_round_def
    by (clarsimp simp: bindM_eq_Inr thenM_eq_Inr split: if_splits)
  have "ticket_made p w3"
    using fetch_success [OF 2] make_krb5cc_result [OF 1] 4(1) unfolding ticket_made_def by blast
  with made.keeps_logger [of p E LOG_INFO "''gMSA ticket is at '' @ path"]
  have "ticket_made p (snd (logger E LOG_INFO (''gMSA ticket is at '' @ path) w3))" by (rule keepsD)
  with 3 4 show ?thesis by simp
qed

section \<open>The end of a request\<close>

lemma finish_lease_OK:
  "finish_lease J secrets kd lease err ts r w = (Inr (r', Grpc_OK), w') \<Longrightarrow>
   err = [] \<and> r' = r \<and> (\<exists>u. write_meta_data_json J ts lease kd (secrets_wiped secrets w) = (Inr u, w'))"
  by (auto simp: finish_lease_def clear_strings bindM_eq_Inr thenM_eq_Inr split: if_splits)

text \<open>The end of a request leaves the tickets where they are.\<close>

lemma made_after_end:
  assumes "ticket_made p w" and "write_meta_data_json J ts lease kd (secrets_wiped secrets w) = (Inr u, w')"
  shows "ticket_made p w'"
proof -
  have "keeps (ticket_made p) (forM clearString secrets)" by (intro keeps_intros made.keeps_clear)
  from keepsD [OF this assms(1)] have "ticket_made p (secrets_wiped secrets w)" by (simp add: clear_strings)
  from keepsD [OF made.keeps_write_meta, OF this, of J ts lease kd] assms(2) show ?thesis by simp
qed

section \<open>What the loop returns\<close>

text \<open>
  The contract of a round, whatever the kind of lease: the directory it reports is the ticket's, a
  \<open>kinit\<close> has put a ticket there, and no round undoes what another has made.
\<close>

locale lease_round =
  fixes one :: "krb_ticket_info \<Rightarrow> (round_result \<times> krb_ticket_info) WM"
  assumes round_made: "one t w = (Inr (Made p, t'), w') \<Longrightarrow> p = krb_file_path t \<and> ticket_made p w'"
    and round_keeps: "keeps (ticket_made p) (one t)"
begin

lemma keeps_tickets: "keeps (ticket_made p) (create_tickets one ts)"
proof (induction ts)
  case Nil
  show ?case unfolding create_tickets.simps by (rule keeps_ret)
next
  case (Cons t ts)
  have k: "keeps (ticket_made p) (case a of Made path \<Rightarrow> bindM (create_tickets one ts)
        (\<lambda>(err, ts', paths). ret (err, b # ts', path # paths)) | Left err \<Rightarrow> ret (err, b # ts, []))" for a b
    by (cases a) (auto intro!: keeps_intros Cons)
  show ?case unfolding create_tickets.simps by (intro keeps_intros round_keeps k)
qed

text \<open>The directories listed are those of the first tickets, in order, and each holds a ticket.\<close>

lemma tickets_listed:
  "create_tickets one ts w = (Inr (err, ts', paths), w') \<Longrightarrow>
   prefix paths (map krb_file_path ts) \<and> (\<forall>p \<in> set paths. ticket_made p w')"
proof (induction ts arbitrary: w ts' paths)
  case (Cons t ts)
  then obtain r t1 w1 where 1: "one t w = (Inr (r, t1), w1)"
    by (auto simp: bindM_eq_Inr)
  show ?case
  proof (cases r)
    case (Left e)
    with Cons.prems 1 show ?thesis by simp
  next
    case (Made p)
    with Cons.prems 1 obtain us ps where 2: "create_tickets one ts w1 = (Inr (err, us, ps), w')" and
      paths: "paths = p # ps" by (auto simp: bindM_eq_Inr)
    have p: "p = krb_file_path t" "ticket_made p w1" using round_made [OF 1 [unfolded Made]] by auto
    with keepsD [OF keeps_tickets, of p w1 ts] 2 have "ticket_made p w'" by simp
    with Cons.IH [OF 2] paths p(1) show ?thesis by simp
  qed
qed simp

lemma run_lease_OK:
  assumes "run_lease J secrets kd lease one err infos reply w = (Inr (r, Grpc_OK), w')"
  shows "err = [] \<and> (\<exists>paths. r = reply paths \<and> prefix paths (map krb_file_path infos) \<and>
    (\<forall>p \<in> set paths. ticket_made p w'))"
proof -
  from assms obtain err' infos' paths w2 where
    1: "(if err = [] then create_tickets one infos else ret (err, infos, [])) w = (Inr (err', infos', paths), w2)" and
    2: "finish_lease J secrets kd lease err' infos' (reply paths) w2 = (Inr (r, Grpc_OK), w')"
    unfolding run_lease_def by (auto simp: bindM_eq_Inr simp del: bindM_Inr)
  from finish_lease_OK [OF 2] obtain u where err': "err' = []" and r: "r = reply paths" and
    3: "write_meta_data_json J infos' lease kd (secrets_wiped secrets w2) = (Inr u, w')" by blast
  from 1 err' have err: "err = []" by (cases "err = []") auto
  with 1 have t: "create_tickets one infos w = (Inr (err', infos', paths), w2)" by simp
  have "ticket_made p w'" if "p \<in> set paths" for p
    using made_after_end [OF _ 3] tickets_listed [OF t] that by simp
  with tickets_listed [OF t] err r show ?thesis by auto
qed

end

context world_inv begin

lemma keeps_create_tickets: "(\<And>t. keeps I (one t)) \<Longrightarrow> keeps I (create_tickets one ts)"
proof (induction ts)
  case Nil
  show ?case unfolding create_tickets.simps by (rule keeps_ret)
next
  case (Cons t ts)
  have k: "keeps I (case a of Made path \<Rightarrow> bindM (create_tickets one ts)
        (\<lambda>(err, ts', paths). ret (err, b # ts', path # paths)) | Left err \<Rightarrow> ret (err, b # ts, []))" for a b
    by (cases a) (auto intro!: keeps_intros Cons)
  show ?case unfolding create_tickets.simps by (intro keeps_intros Cons k)
qed

lemma keeps_make_directories: "keeps I (make_directories p)"
  unfolding make_directories_def by (intro keeps_intros keeps_fs)

lemma keeps_make_krb5cc: "keeps I (make_krb5cc t)"
  unfolding make_krb5cc_def Let_def touch_file_def by (intro keeps_intros keeps_make_directories keeps_fs)

lemma keeps_gmsa_round: "(\<And>t. keeps I (prepare t)) \<Longrightarrow> keeps I (gmsa_round E prepare fd em lm t)"
  unfolding gmsa_round_def by (intro keeps_intros keeps_make_krb5cc keeps_fetch keeps_logger)

lemma keeps_remove_tickets: "keeps I (remove_tickets ts)"
  unfolding remove_tickets_def by (intro keeps_intros keeps_fs)

lemma keeps_secure_clear: "keeps I (secureClearString s)"
  unfolding secureClearString_eq by (rule keeps_clear)

lemma keeps_finish_lease: "keeps I (finish_lease J secrets kd lease err ts r)"
  unfolding finish_lease_def by (intro keeps_intros keeps_secure_clear keeps_remove_tickets keeps_write_meta)

end

section \<open>Rounds that leave only with an error\<close>

text \<open>A round that never leaves the loop silently: with no error at the end, every ticket was made.\<close>

locale strict_round = lease_round +
  assumes left_error: "one t w = (Inr (Left e, t'), w') \<Longrightarrow> e \<noteq> []"
begin

lemma tickets_all:
  "create_tickets one ts w = (Inr ([], ts', paths), w') \<Longrightarrow> paths = map krb_file_path ts"
proof (induction ts arbitrary: w ts' paths)
  case (Cons t ts)
  then obtain r t1 w1 where 1: "one t w = (Inr (r, t1), w1)"
    by (auto simp: bindM_eq_Inr)
  with Cons.prems Cons.IH round_made [of t w] left_error [of t w] show ?case
    by (cases r) (auto simp: bindM_eq_Inr)
qed simp

end

section \<open>A concrete specification\<close>

definition webapp_spec :: string where
  "webapp_spec = tree_write (spec_tree ''contoso.com'' ''webapp01'')"

definition webapp_ticket :: krb_ticket_info where
  "webapp_ticket = new_krb_ticket_info\<lparr>domain_name := ''contoso.com'', service_account_name := ''webapp01'',
     credential_arn := ''arn:1''\<rparr>"

lemma webapp_parsed: "parse_cred_spec tree_json webapp_spec new_krb_ticket_info = (0, webapp_ticket)"
proof -
  have ne: "tree_write (spec_tree ''contoso.com'' ''webapp01'') \<noteq> []" by (simp add: spec_tree_def spec_tree_arn_def)
  have cl: "contains_invalid_characters_in_ad_account_name ''webapp01'' = False" by code_simp
  show ?thesis
    using ne contoso_valid cl
    by (simp add: webapp_spec_def parse_cred_spec_def parse_cred_spec_try_def credspec_names_def spec_tree_parse
        spec_tree_names webapp_ticket_def del: json_path.simps)
qed

text \<open>A joined host with its tools, a directory that holds the password, and a \<open>kinit\<close> that accepts it.\<close>

definition lease_env :: env where
  "lease_env = gmsa_env\<lparr>random_byte := (\<lambda>_ _. 170),
     shell_run := (\<lambda>_ F c. (0, if take 6 c = ''which '' then ''/'' @ drop 6 c @ [newline]
       else if take 10 c = ''ldapsearch'' then ''msDS-ManagedPassword:: QUJD#'' else ''dc1'', F))\<rparr>"

definition host_world :: world where
  "host_world = joined_world\<lparr>wlog := set_log_level 7 init_logger\<rparr>"

definition host_ticket_dir :: string where "host_ticket_dir = ''/k/aaaaaaaaaaaaaaaaaaaa/webapp01''"

lemma lease_env_id: "generate_lease_id lease_env w = (Inr ''aaaaaaaaaaaaaaaaaaaa'', w)"
proof -
  have "concat (map (\<lambda>i. hex_byte (random_byte lease_env (evs w) i mod 256)) [0..<LEASE_ID_LENGTH]) =
      concat (replicate 10 (hex_byte 170))"
    by (simp add: lease_env_def LEASE_ID_LENGTH_def map_replicate_const [symmetric] del: upt_rec_numeral)
       (simp add: map_replicate_const)
  also have "\<dots> = ''aaaaaaaaaaaaaaaaaaaa''" by code_simp
  finally show ?thesis by (simp add: generate_lease_id_def)
qed

lemma alice_valid: "names_valid ''alice'' ''contoso.com'' \<and> credentials_fit ''alice'' ''pw'' ''contoso.com''"
proof -
  have "contains_invalid_characters_in_ad_account_name ''alice'' = False" by code_simp
  with contoso_valid show ?thesis
    by (simp add: names_valid_def credentials_fit_def INPUT_CREDENTIALS_LENGTH_def DOMAIN_LENGTH_def)
qed

end
