(* ===== verification/Lease_Joined.thy ===== *)
theory Lease_Joined
  imports Lease_Common
begin

text \<open>
  Leases on domain-joined hosts (api/src/gmsa_service.cpp): the processing step of
  \<open>CallDataCreateKerberosLease\<close>, and \<open>ProcessCredSpecFile\<close>, which makes one ticket for a credential
  specification file when the daemon is started with one.
\<close>

section \<open>CreateKerberosLease\<close>

definition secret_user_prefix :: string where "secret_user_prefix = ''awsdomainlessusersecret:''"

text \<open>The host's own ticket: from the secret store when one is named, else from the keytab.\<close>

definition host_ticket ::
    "'j jsonlib \<Rightarrow> env \<Rightarrow> string \<Rightarrow> krb_ticket_info \<Rightarrow> ((int \<times> string) \<times> krb_ticket_info) WM" where
  "host_ticket J E aws_sm_secret_name t =
     (if aws_sm_secret_name \<noteq> [] then
        bindM (generate_krb_ticket_using_secret_vault J E (domain_name t) aws_sm_secret_name) (\<lambda>status.
          ret (status, t\<lparr>domainless_user := secret_user_prefix @ aws_sm_secret_name\<rparr>))
      else
        bindM (generate_krb_ticket_from_machine_keytab E (domain_name t)) (\<lambda>status. ret (status, t)))"

definition create_joined_round ::
    "'j jsonlib \<Rightarrow> env \<Rightarrow> string \<Rightarrow> krb_ticket_info \<Rightarrow> (round_result \<times> krb_ticket_info) WM" where
  "create_joined_round J E aws_sm_secret_name t =
     bindM (host_ticket J E aws_sm_secret_name t) (\<lambda>(status, t1).
     if fst status < 0 then
       thenM (logger E LOG_ERR (''Error: '' @ to_string (fst status) @ '' Cannot get machine krb ticket '' @
           snd status))
         (ret (Left ''ERROR: cannot get machine krb ticket'', t1))
     else
       bindM (getM (\<lambda>w. fs_exists (wfs w) (krb_file_path t1))) (\<lambda>ex.
       if ex then
         thenM (logger E LOG_INFO (''Directory already exists: '' @ krb_file_path t1)) (ret (Left [], t1))
       else
         gmsa_round E ret domain_name (\<lambda>_. ''ERROR: Cannot get gMSA krb ticket'')
           (\<lambda>_. ''ERROR: Cannot get gMSA krb ticket '' @ to_string (fst status) @ '' '' @ snd status) t1))"

definition process_create_kerberos_lease ::
    "'j jsonlib \<Rightarrow> env \<Rightarrow> string \<Rightarrow> string \<Rightarrow> string list \<Rightarrow> (lease_reply \<times> grpc_status) WM" where
  "process_create_kerberos_lease J E krb_files_dir aws_sm_secret_name credspec_contents =
     bindM (generate_lease_id E) (\<lambda>lease_id.
     let (err, infos) = collect_specs (\<lambda>_. []) J krb_files_dir lease_id [] credspec_contents [] [] in
       run_lease J [] krb_files_dir lease_id (create_joined_round J E aws_sm_secret_name) err infos
         (\<lambda>paths. \<lparr>reply_lease_id = lease_id, created_kerberos_file_paths = paths\<rparr>))"

section \<open>ProcessCredSpecFile\<close>

definition CCACHE_MODE :: nat where "CCACHE_MODE = 256 + 128 + 32 + 4"

text \<open>From the machine's ticket to the account's: the error message, and the ticket as it is left.\<close>

definition credspec_file_ticket ::
    "env \<Rightarrow> int \<times> string \<Rightarrow> krb_ticket_info \<Rightarrow> (string \<times> krb_ticket_info) WM" where
  "credspec_file_ticket E status t =
     bindM (getM (\<lambda>w. fs_exists (wfs w) (krb_file_path t))) (\<lambda>ex.
     thenM (whenM ex
         (thenM (logger E LOG_INFO (''Deleting existing credential file directory '' @ krb_file_path t))
           (modM (\<lambda>w. w\<lparr>wfs := remove_all (krb_file_path t) (wfs w)\<rparr>))))
    (bindM (make_krb5cc t) (\<lambda>(krb_ccname_str, t1).
     bindM (fetch_gmsa_password_and_create_krb_ticket E (domain_name t1) t1 krb_ccname_str) (\<lambda>(res, t2).
     if fst res \<noteq> 0 then
       thenM (logger E LOG_ERR (''ERROR: Cannot get gMSA krb ticket '' @ to_string (fst status) @ '' '' @
           snd status))
         (ret (''ERROR: Cannot get gMSA krb ticket'', t2))
     else
       thenM (modM (\<lambda>w. w\<lparr>wfs := chmod krb_ccname_str CCACHE_MODE (wfs w)\<rparr>))
      (thenM (logger E LOG_INFO (''gMSA ticket is at '' @ snd res)) (ret ([], t2)))))))"

definition finish_credspec_file ::
    "'j jsonlib \<Rightarrow> env \<Rightarrow> string \<Rightarrow> string \<Rightarrow> string \<Rightarrow> krb_ticket_info \<Rightarrow> int WM" where
  "finish_credspec_file J E krb_files_dir lease_id err_msg t =
     (if err_msg \<noteq> [] then
        thenM (modM (\<lambda>w. w\<lparr>wfs := remove_all (krb_file_path t) (wfs w)\<rparr>))
       (thenM (logger E LOG_ERR err_msg) (ret EXIT_FAILURE))
      else bindM (write_meta_data_json1 J t lease_id krb_files_dir) (\<lambda>_. ret EXIT_SUCCESS))"

definition ProcessCredSpecFile ::
    "'j jsonlib \<Rightarrow> env \<Rightarrow> string \<Rightarrow> string \<Rightarrow> string \<Rightarrow> int WM" where
  "ProcessCredSpecFile J E krb_files_dir credspec_filepath cred_file_lease_id =
     thenM (logger E LOG_INFO (''Generating lease id '' @ cred_file_lease_id))
    (bindM (getM (\<lambda>w. (fs_exists (wfs w) credspec_filepath, read_file credspec_filepath (wfs w)))) (\<lambda>(ex, text).
     if \<not> ex then
       thenM (logger E LOG_ERR (''The credential spec file '' @ credspec_filepath @ '' was not found!''))
         (ret EXIT_FAILURE)
     else case text of
       None \<Rightarrow>
         thenM (logger E LOG_ERR (''Unable to open credential spec file: '' @ credspec_filepath)) (ret EXIT_FAILURE)
     | Some credspec_contents \<Rightarrow>
         (case parse_cred_spec J credspec_contents new_krb_ticket_info of (parse_result, info) \<Rightarrow>
            if parse_result \<noteq> 0 then
              finish_credspec_file J E krb_files_dir cred_file_lease_id
                ''Error: credential spec provided is not properly formatted'' info
            else
              let t = info\<lparr>krb_file_path := ticket_dir krb_files_dir cred_file_lease_id (service_account_name info),
                    domainless_user := [], credspec_info := []\<rparr> in
              bindM (generate_krb_ticket_from_machine_keytab E (domain_name t)) (\<lambda>status.
              if fst status < 0 then
                thenM (logger E LOG_ERR (''Error: '' @ to_string (fst status) @ '' '' @ snd status @
                    '' Cannot get machine krb ticket''))
                  (ret EXIT_FAILURE)
              else
                bindM (credspec_file_ticket E status t) (\<lambda>(err_msg, t').
                  finish_credspec_file J E krb_files_dir cred_file_lease_id err_msg t')))))"

section \<open>What a reply promises\<close>

lemma host_ticket_path:
  "host_ticket J E s t w = (Inr (st, t'), w') \<Longrightarrow> krb_file_path t' = krb_file_path t"
  by (auto simp: host_ticket_def bindM_eq_Inr split: if_splits)

context host_inv begin

lemma keeps_host_ticket: "keeps I (host_ticket J E s t)"
  unfolding host_ticket_def by (intro keeps_intros keeps_vault_ticket keeps_machine_keytab)

end

context world_inv begin

lemma keeps_joined_round: "keeps I (create_joined_round J E s t)"
  unfolding create_joined_round_def
  by (intro keeps_intros keeps_host_ticket keeps_gmsa_round keeps_logger)

end

lemma create_joined_round_made:
  assumes "create_joined_round J E s t w = (Inr (Made p, t'), w')"
  shows "p = krb_file_path t \<and> ticket_made p w'"
proof -
  from assms obtain st t1 w1 w2 where 1: "host_ticket J E s t w = (Inr (st, t1), w1)" and
    2: "gmsa_round E ret domain_name (\<lambda>_. ''ERROR: Cannot get gMSA krb ticket'')
      (\<lambda>_. ''ERROR: Cannot get gMSA krb ticket '' @ to_string (fst st) @ '' '' @ snd st) t1 w2 =
      (Inr (Made p, t'), w')"
    unfolding create_joined_round_def by (auto simp: bindM_eq_Inr thenM_eq_Inr split: if_splits)
  from gmsa_round_made [OF 2] host_ticket_path [OF 1] show ?thesis by auto
qed

interpretation joined: lease_round "create_joined_round J E s" for J E s
  by unfold_locales (rule create_joined_round_made made.keeps_joined_round; assumption?)+

lemma create_lease_OK:
  assumes "process_create_kerberos_lease J E kd secret contents w = (Inr (reply, Grpc_OK), w')"
  shows "generate_lease_id E w = (Inr (reply_lease_id reply), w)" and "distinct (created_kerberos_file_paths reply)"
    and "\<forall>p \<in> set (created_kerberos_file_paths reply).
       (\<exists>account. p = ticket_dir kd (reply_lease_id reply) account) \<and> ticket_made p w'"
proof -
  obtain lease where g: "generate_lease_id E w = (Inr lease, w)"
    by (simp add: generate_lease_id_def)
  obtain err infos where c: "collect_specs (\<lambda>_. []) J kd lease [] contents [] [] = (err, infos)" by force
  with g have "run_lease J [] kd lease (create_joined_round J E secret) err infos
      (\<lambda>paths. \<lparr>reply_lease_id = lease, created_kerberos_file_paths = paths\<rparr>) w = (Inr (reply, Grpc_OK), w')"
    using assms by (simp add: process_create_kerberos_lease_def)
  from joined.run_lease_OK [OF this] obtain paths where
    r: "reply = \<lparr>reply_lease_id = lease, created_kerberos_file_paths = paths\<rparr>" and
    p: "prefix paths (map krb_file_path infos)" "\<forall>p \<in> set paths. ticket_made p w'" by blast
  show "generate_lease_id E w = (Inr (reply_lease_id reply), w)" using g r by simp
  show "distinct (created_kerberos_file_paths reply)" using collect_specs_listed [OF c p(1)] r by simp
  show "\<forall>p \<in> set (created_kerberos_file_paths reply).
       (\<exists>account. p = ticket_dir kd (reply_lease_id reply) account) \<and> ticket_made p w'"
    using collect_specs_listed [OF c p(1)] p(2) r by simp
qed

text \<open>
  C2: A lease on a domain-joined host that is answered with OK lists pairwise different
  directories, each of the form ticket directory, lease, account, and for each of them the
  history holds a \<open>kinit\<close> that was fed a 256-byte password and put its ticket into that directory.
\<close>
theorem create_lease_lists_made_tickets:
  assumes "process_create_kerberos_lease J E kd secret contents w = (Inr (reply, Grpc_OK), w')"
  shows "distinct (created_kerberos_file_paths reply) \<and>
    (\<forall>p \<in> set (created_kerberos_file_paths reply).
       (\<exists>account. p = ticket_dir kd (reply_lease_id reply) account) \<and> ticket_made p w')"
  using create_lease_OK [OF assms] by blast

section \<open>A concrete lease\<close>

lemma webapp_tickets_made:
  "map_sum id (\<lambda>(err, ts, paths). (err, paths)) (fst (create_tickets (create_joined_round tree_json lease_env [])
     [webapp_ticket\<lparr>krb_file_path := host_ticket_dir, domainless_user := []\<rparr>] host_world)) =
   Inr ([], [host_ticket_dir])"
  by code_simp

lemma webapp_lease_created:
  "\<exists>w'. process_create_kerberos_lease tree_json lease_env ''/k'' [] [webapp_spec] host_world =
     (Inr (\<lparr>reply_lease_id = ''aaaaaaaaaaaaaaaaaaaa'', created_kerberos_file_paths = [host_ticket_dir]\<rparr>, Grpc_OK), w')"
proof -
  let ?t = "webapp_ticket\<lparr>krb_file_path := host_ticket_dir, domainless_user := []\<rparr>"
  have c: "collect_specs (\<lambda>_. []) tree_json ''/k'' ''aaaaaaaaaaaaaaaaaaaa'' [] [webapp_spec] [] [] = ([], [?t])"
    by (simp add: webapp_parsed ticket_dir_def host_ticket_dir_def webapp_ticket_def)
  obtain ts w1 where t: "create_tickets (create_joined_round tree_json lease_env []) [?t] host_world =
      (Inr ([], ts, [host_ticket_dir]), w1)"
    using webapp_tickets_made
    by (cases "create_tickets (create_joined_round tree_json lease_env []) [?t] host_world"; cases "fst
      (create_tickets (create_joined_round tree_json lease_env []) [?t] host_world)") auto
  from write_meta_data_returns obtain r w2 where
    "write_meta_data_json tree_json ts ''aaaaaaaaaaaaaaaaaaaa'' ''/k'' w1 = (Inr r, w2)" by blast
  with c t show ?thesis
    unfolding process_create_kerberos_lease_def
    by (simp add: lease_env_id run_lease_def finish_lease_def del: create_tickets.simps collect_specs.simps)
qed

theorem create_lease_lists_made_tickets_witness:
  "ticket_made host_ticket_dir
     (snd (process_create_kerberos_lease tree_json lease_env ''/k'' [] [webapp_spec] host_world))"
proof -
  from webapp_lease_created obtain w' where
    w': "process_create_kerberos_lease tree_json lease_env ''/k'' [] [webapp_spec] host_world =
      (Inr (\<lparr>reply_lease_id = ''aaaaaaaaaaaaaaaaaaaa'', created_kerberos_file_paths = [host_ticket_dir]\<rparr>, Grpc_OK), w')"
    by blast
  from create_lease_lists_made_tickets [OF w'] w' show ?thesis by simp
qed

end
