(* ===== verification/Lease_Domainless.thy ===== *)
theory Lease_Domainless
  imports Lease_Common
begin

text \<open>
  Leases with a domain user's credentials (api/src/gmsa_service.cpp): the processing steps of
  \<open>CallDataAddNonDomainJoinedKerberosLease\<close>, \<open>CallDataRenewNonDomainJoinedKerberosLease\<close> and
  \<open>CallDataDeleteKerberosLease\<close>.
\<close>

section \<open>AddNonDomainJoinedKerberosLease\<close>

record domainless_request =
  req_username :: string
  req_password :: string
  req_domain :: string
  req_credspec_contents :: "string list"

definition err_credentials :: string where
  "err_credentials = ''Error: domainless AD user credentials is not valid/ credentials should not be '' @
     ''more than 256 charaters''"

definition err_names :: string where "err_names = ''Error: invalid domainName/username''"

definition check_content :: "string \<Rightarrow> string" where
  "check_content content =
     (if content = [] then ''Error: credentialspec content shouldn't be empty formatted'' else [])"

text \<open>The tests of the request, then the loop over its specifications.\<close>

definition collect_domainless ::
    "'j jsonlib \<Rightarrow> string \<Rightarrow> string \<Rightarrow> domainless_request \<Rightarrow> string \<times> krb_ticket_info list" where
  "collect_domainless J krb_files_dir lease_id q =
     (if names_valid (req_username q) (req_domain q) then
        if credentials_fit (req_username q) (req_password q) (req_domain q) \<and> req_credspec_contents q \<noteq> [] then
          collect_specs check_content J krb_files_dir lease_id (req_username q) (req_credspec_contents q) [] []
        else (err_credentials, [])
      else (err_names, []))"

definition lease_id_set :: "domainless_request \<Rightarrow> bool" where
  "lease_id_set q \<longleftrightarrow> names_valid (req_username q) (req_domain q) \<and>
     credentials_fit (req_username q) (req_password q) (req_domain q) \<and> req_credspec_contents q \<noteq> []"

text \<open>The distinguished name from \<open>ecs.config\<close>, else from the secret the specification names.\<close>

definition choose_distinguished_name :: "'j jsonlib \<Rightarrow> env \<Rightarrow> krb_ticket_info \<Rightarrow> krb_ticket_info WM" where
  "choose_distinguished_name J E t =
     bindM (retrieve_variable_from_ecs_config ENV_CF_DISTINGUISHED_NAME) (\<lambda>dn.
     bindM (if dn = [] then
              bindM (get_base_dn_from_secret J E (credential_arn t)) (\<lambda>v.
                ret (if fst v = 0 then snd v else dn))
            else ret dn) (\<lambda>dn'.
       ret (t\<lparr>distinguished_name := dn'\<rparr>)))"

definition domainless_round ::
    "'j jsonlib \<Rightarrow> env \<Rightarrow> string \<Rightarrow> string \<Rightarrow> string \<Rightarrow> krb_ticket_info \<Rightarrow>
     (round_result \<times> krb_ticket_info) WM" where
  "domainless_round J E domain username password t =
     (if username = [] \<or> password = [] then
        thenM (logger E LOG_ERR (''Invalid credentials for domainless user '' @ username))
          (ret (Left ''ERROR: Invalid credentials for domainless user'', t))
      else
        bindM (generate_krb_ticket_using_username_and_password E domain username password) (\<lambda>status.
        if fst status < 0 then
          let err_msg = ''ERROR: '' @ to_string (fst status) @ '': cannot retrieve domainless user kerberos tickets''
          in thenM (logger E LOG_ERR err_msg) (ret (Left err_msg, t))
        else
          bindM (getM (\<lambda>w. fs_exists (wfs w) (krb_file_path t))) (\<lambda>ex.
          if ex then
            thenM (logger E LOG_INFO (''Directory already exists: '' @ krb_file_path t)) (ret (Left [], t))
          else
            gmsa_round E (choose_distinguished_name J E) (\<lambda>_. domain)
              (\<lambda>res. ''ERROR: Cannot get gMSA krb ticket '' @ snd res)
              (\<lambda>res. ''ERROR: Cannot get gMSA krb ticket '' @ snd res) t)))"

definition process_add_non_domain_joined ::
    "'j jsonlib \<Rightarrow> env \<Rightarrow> string \<Rightarrow> domainless_request \<Rightarrow> (lease_reply \<times> grpc_status) WM" where
  "process_add_non_domain_joined J E krb_files_dir q =
     bindM (generate_lease_id E) (\<lambda>lease_id.
     let (err, infos) = collect_domainless J krb_files_dir lease_id q in
       run_lease J [req_username q, req_password q] krb_files_dir lease_id
         (domainless_round J E (req_domain q) (req_username q) (req_password q)) err infos
         (\<lambda>paths. \<lparr>reply_lease_id = (if lease_id_set q then lease_id else []),
                   created_kerberos_file_paths = paths\<rparr>))"

section \<open>RenewNonDomainJoinedKerberosLease\<close>

definition process_renew_non_domain_joined ::
    "'j jsonlib \<Rightarrow> env \<Rightarrow> string \<Rightarrow> domainless_request \<Rightarrow> (string list \<times> grpc_status) WM" where
  "process_renew_non_domain_joined J E krb_files_dir q =
     (let username = req_username q; password = req_password q; domain = req_domain q in
      bindM
       (if names_valid username domain then
          if credentials_fit username password domain then
            bindM (renew_kerberos_tickets_domainless J E krb_files_dir domain username password) (\<lambda>paths.
              ret (paths, Grpc_OK))
          else ret ([], Grpc_internal err_credentials)
        else ret ([], Grpc_internal err_names)) (\<lambda>answer.
       thenM (secureClearString username)
      (thenM (secureClearString password)
         (ret answer))))"

section \<open>DeleteKerberosLease\<close>

record delete_reply =
  deleted_lease_id :: string
  deleted_kerberos_file_paths :: "string list"

definition process_delete_kerberos_lease ::
    "'j jsonlib \<Rightarrow> env \<Rightarrow> string \<Rightarrow> string \<Rightarrow> (delete_reply \<times> grpc_status) WM" where
  "process_delete_kerberos_lease J E krb_files_dir lease_id =
     (if lease_id \<noteq> [] then
        bindM (delete_krb_tickets J E krb_files_dir lease_id) (\<lambda>paths.
          ret (\<lparr>deleted_lease_id = lease_id, deleted_kerberos_file_paths = paths\<rparr>, Grpc_OK))
      else ret (\<lparr>deleted_lease_id = [], deleted_kerberos_file_paths = []\<rparr>,
                Grpc_internal ''Error: lease_id is not valid''))"

section \<open>What the routines keep\<close>

context world_inv begin

lemma keeps_choose_distinguished_name: "keeps I (choose_distinguished_name J E t)"
  unfolding choose_distinguished_name_def by (intro keeps_intros keeps_ecs keeps_base_dn_secret)

lemma keeps_domainless_round: "keeps I (domainless_round J E d u p t)"
  unfolding domainless_round_def Let_def
  by (intro keeps_intros keeps_user_ticket keeps_gmsa_round keeps_choose_distinguished_name keeps_logger)

end

lemma domainless_round_made:
  assumes "domainless_round J E d u p t w = (Inr (Made path, t'), w')"
  shows "path = krb_file_path t \<and> ticket_made path w'"
proof -
  from assms obtain w2 where
    "gmsa_round E (choose_distinguished_name J E) (\<lambda>_. d) (\<lambda>res. ''ERROR: Cannot get gMSA krb ticket '' @ snd res)
      (\<lambda>res. ''ERROR: Cannot get gMSA krb ticket '' @ snd res) t w2 = (Inr (Made path, t'), w')"
    unfolding domainless_round_def
    by (auto simp: bindM_eq_Inr thenM_eq_Inr Let_def split: if_splits)
  from gmsa_round_made [OF this] show ?thesis .
qed

interpretation domainless: lease_round "domainless_round J E d u p" for J E d u p
  by unfold_locales (rule domainless_round_made made.keeps_domainless_round; assumption?)+

section \<open>Properties\<close>

lemma wiped_both: "thenM (clearString u) (thenM (clearString p) (ret x)) w = (Inr x, secrets_wiped [u, p] w)"
  by (simp add: clearString_then secrets_wiped_def)

lemma rejected_request:
  assumes "\<not> (names_valid (req_username q) (req_domain q) \<and>
      credentials_fit (req_username q) (req_password q) (req_domain q))"
  shows "\<exists>msg. msg \<noteq> [] \<and>
    process_add_non_domain_joined J E kd q w =
      (Inr (\<lparr>reply_lease_id = [], created_kerberos_file_paths = []\<rparr>, Grpc_internal msg),
       secrets_wiped [req_username q, req_password q] w) \<and>
    process_renew_non_domain_joined J E kd q w =
      (Inr ([], Grpc_internal msg), secrets_wiped [req_username q, req_password q] w)"
proof -
  let ?msg = "if names_valid (req_username q) (req_domain q) then err_credentials else err_names"
  have "?msg \<noteq> []" by (simp add: err_credentials_def err_names_def)
  moreover have "collect_domainless J kd l q = (?msg, [])" for l
    using assms by (simp add: collect_domainless_def)
  moreover have "\<not> lease_id_set q" using assms by (auto simp: lease_id_set_def)
  ultimately show ?thesis using assms
    by (intro exI [of _ ?msg])
       (auto simp: process_add_non_domain_joined_def process_renew_non_domain_joined_def run_lease_def
          finish_lease_def remove_tickets_def generate_lease_id_def Let_def bindM_apply clear_strings wiped_both)
qed

text \<open>
  A request that fails the tests on domain, user name or credentials changes nothing on the
  host, neither files, log nor commands, beyond the wiping of the two secrets, and is answered with an
  error and an empty reply, by the handler that adds a lease as by the one that renews tickets.
\<close>
theorem rejected_credentials_change_nothing:
  assumes "\<not> (names_valid (req_username q) (req_domain q) \<and>
      credentials_fit (req_username q) (req_password q) (req_domain q))"
  shows "\<exists>msg. msg \<noteq> [] \<and>
    process_add_non_domain_joined J E kd q w =
      (Inr (\<lparr>reply_lease_id = [], created_kerberos_file_paths = []\<rparr>, Grpc_internal msg),
       secrets_wiped [req_username q, req_password q] w) \<and>
    process_renew_non_domain_joined J E kd q w =
      (Inr ([], Grpc_internal msg), secrets_wiped [req_username q, req_password q] w)"
  using assms by (rule rejected_request)

lemma add_lease_OK:
  assumes "process_add_non_domain_joined J E kd q w = (Inr (reply, Grpc_OK), w')"
  shows "lease_id_set q \<and> generate_lease_id E w = (Inr (reply_lease_id reply), w) \<and> distinct (created_kerberos_file_paths reply) \<and>
    (\<forall>p \<in> set (created_kerberos_file_paths reply).
       (\<exists>account. p = ticket_dir kd (reply_lease_id reply) account) \<and> ticket_made p w')"
proof -
  let ?reply = "\<lambda>lease paths. \<lparr>reply_lease_id = (if lease_id_set q then lease else []),
    created_kerberos_file_paths = paths\<rparr>"
  obtain lease where g: "generate_lease_id E w = (Inr lease, w)" by (simp add: generate_lease_id_def)
  obtain err infos where c: "collect_domainless J kd lease q = (err, infos)" by force
  with g have "run_lease J [req_username q, req_password q] kd lease (domainless_round J E (req_domain q) (req_username q) (req_password q))
      err infos (?reply lease) w = (Inr (reply, Grpc_OK), w')"
    using assms by (simp add: process_add_non_domain_joined_def)
  from domainless.run_lease_OK [OF this] obtain paths where err: "err = []" and r: "reply = ?reply lease paths"
    and p: "prefix paths (map krb_file_path infos)" "\<forall>p \<in> set paths. ticket_made p w'" by blast
  from c err have set: "lease_id_set q"
    by (auto simp: collect_domainless_def lease_id_set_def err_credentials_def err_names_def split: if_splits)
  with c have "collect_specs check_content J kd lease (req_username q) (req_credspec_contents q) [] [] = (err, infos)"
    by (simp add: collect_domainless_def lease_id_set_def)
  from collect_specs_listed [OF this p(1)] p(2) r set g show ?thesis by simp
qed


text \<open>
  C30: The limits on the credentials do not protect the Kerberos client's buffers: a request that
  passes every test, whose user name and domain together have 255 characters or more, overruns the
  client's 256-byte name buffer as soon as the first ticket is made.
\<close>
theorem accepted_credentials_overflow:
  assumes "lease_id_set q" and "NUL \<notin> set (req_username q)"
    and "255 \<le> length (req_username q) + length (req_domain q)"
    and "generate_lease_id E w = (Inr lease, w)" and "collect_domainless J kd lease q = ([], t # ts)"
    and "is_kinit_cmd_present E w = (Inr (0, k), w1)" and "is_ldapsearch_cmd_present E w1 = (Inr (0, l), w2)"
  shows "fst (process_add_non_domain_joined J E kd q w) = Inl (Undef BufferOverflow)"
proof -
  let ?u = "req_username q @ ''@'' @ upcase (req_domain q)"
  from assms(1) have v: "isValidDomain (req_domain q)" and
    ne: "req_username q \<noteq> []" "req_password q \<noteq> []"
    by (auto simp: lease_id_set_def names_valid_def credentials_fit_def)
  have "NUL \<notin> set (upcase (req_domain q))"
    using isValidDomain_chars [OF v, of NUL] by (intro NUL_upcase) (auto simp: ldh_def isalnum_def NUL_def)
  then have "c_str ?u = ?u" using assms(2) by (intro c_str_id) (auto simp: NUL_def)
  then have "256 \<le> length (c_str ?u)" using assms(3) by (simp add: length_upcase)
  from call_my_kinit_overflow [OF this]
  have "generate_krb_ticket_using_username_and_password E (req_domain q) (req_username q) (req_password q) w =
      (Inl (Undef BufferOverflow), w2\<lparr>evs := Kinit_as (c_str ?u) (c_str (req_password q)) # evs w2\<rparr>)"
    using assms(6,7) by (simp add: generate_krb_ticket_using_username_and_password_def bindM_apply)
  then show ?thesis
    using ne assms(4,5)
    by (simp add: process_add_non_domain_joined_def run_lease_def domainless_round_def bindM_apply)
qed

text \<open>
  C33: The \<open>CredentialArn\<close> of a specification reaches the shell as it is: nothing in the parser or
  in the handler restricts it, and with no distinguished name in \<open>ecs.config\<close> the handler runs the
  AWS client with the text spliced, unquoted, into the command line.
\<close>
theorem credential_arn_reaches_shell:
  assumes "retrieve_variable_from_ecs_config ENV_CF_DISTINGUISHED_NAME w = (Inr [], w)"
    and "parse_cred_spec J content new_krb_ticket_info = (0, t)" and "credential_arn t \<noteq> []"
  shows "Ran (c_str (install_path_for_aws_cli @ '' secretsmanager get-secret-value --secret-id '' @ credential_arn t @
      '' --query '' @ quoted ''SecretString'' @ '' --output text''))
    \<in> set (evs (snd (choose_distinguished_name J E (t\<lparr>krb_file_path := p\<rparr>) w)))"
proof -
  let ?e = "Ran (c_str (aws_secret_cmd (credential_arn t)))"
  note after = after_bindM [where I = "happened ?e"]
  have run: "happened ?e (snd (exec_shell_cmd E (aws_secret_cmd (credential_arn t)) w))"
    by (auto simp: exec_shell_cmd_def Let_def happened_def split: if_splits prod.splits)
  have "happened ?e (snd (get_secret_from_secrets_manager J E (credential_arn t) w))"
    unfolding get_secret_from_secrets_manager_def by (rule after, rule run, intro keeps_intros)
  then have "happened ?e (snd (get_base_dn_from_secret J E (credential_arn t) w))"
    unfolding get_base_dn_from_secret_def if_P [OF assms(3)]
    by (rule after) (intro keeps_intros)
  then have "happened ?e (snd (bindM (bindM (get_base_dn_from_secret J E (credential_arn t))
      (\<lambda>v. ret (if fst v = 0 then snd v else []))) (\<lambda>dn'. ret (t\<lparr>krb_file_path := p, distinguished_name := dn'\<rparr>)) w))"
    by (intro after) (assumption | rule keeps_ret)+
  then have "happened ?e (snd (choose_distinguished_name J E (t\<lparr>krb_file_path := p\<rparr>) w))"
    using assms(1) by (simp add: choose_distinguished_name_def)
  then show ?thesis by (simp add: happened_def aws_secret_cmd_def)
qed

text \<open>
  A renewal that is answered with OK names no renewed ticket, whatever it renewed, and was
  asked for with valid names and credentials within the limits.
\<close>
theorem renew_reply_lists_nothing:
  assumes "process_renew_non_domain_joined J E kd q w = (Inr (paths, Grpc_OK), w')"
  shows "paths = [] \<and> names_valid (req_username q) (req_domain q) \<and>
    credentials_fit (req_username q) (req_password q) (req_domain q)"
  using assms
  by (auto simp: process_renew_non_domain_joined_def Let_def bindM_eq_Inr wiped_both split: if_splits
      dest: renew_domainless_reports_nothing)

section \<open>Concrete requests\<close>

definition alice_request :: domainless_request where
  "alice_request = \<lparr>req_username = ''alice'', req_password = ''pw'', req_domain = ''contoso.com'',
     req_credspec_contents = [webapp_spec]\<rparr>"

lemma webapp_spec_nonempty: "webapp_spec \<noteq> []"
  by (simp add: webapp_spec_def spec_tree_def spec_tree_arn_def)

lemma webapp_collected:
  "collect_specs check_content tree_json kd l u [webapp_spec] [] [] =
     ([], [webapp_ticket\<lparr>krb_file_path := ticket_dir kd l ''webapp01'', domainless_user := u\<rparr>])"
  by (simp add: webapp_parsed check_content_def webapp_spec_nonempty Let_def) (simp add: webapp_ticket_def)

lemma alice_collected:
  "collect_domainless tree_json kd l alice_request =
     ([], [webapp_ticket\<lparr>krb_file_path := ticket_dir kd l ''webapp01'', domainless_user := ''alice''\<rparr>])"
  using alice_valid by (simp add: collect_domainless_def alice_request_def webapp_collected del: collect_specs.simps)

theorem rejected_credentials_change_nothing_witness:
  "\<exists>msg. process_add_non_domain_joined tree_json quiet_env ''/k''
      (alice_request\<lparr>req_password := replicate 104 CHR ''x''\<rparr>) start_world =
    (Inr (\<lparr>reply_lease_id = [], created_kerberos_file_paths = []\<rparr>, Grpc_internal msg),
     start_world\<lparr>evs := [Wiped (replicate 104 CHR ''x''), Wiped ''alice'']\<rparr>)"
proof -
  let ?q = "alice_request\<lparr>req_password := replicate 104 CHR ''x''\<rparr>"
  have "\<not> (names_valid (req_username ?q) (req_domain ?q) \<and>
      credentials_fit (req_username ?q) (req_password ?q) (req_domain ?q))"
    by (simp add: credentials_fit_def INPUT_CREDENTIALS_LENGTH_def)
  from rejected_credentials_change_nothing [OF this, of tree_json quiet_env "''/k''" start_world]
  show ?thesis by (auto simp: secrets_wiped_def alice_request_def start_world_def)
qed

lemma alice_tickets_made:
  "map_sum id (\<lambda>(err, ts, paths). (err, paths)) (fst (create_tickets
     (domainless_round tree_json lease_env ''contoso.com'' ''alice'' ''pw'')
     [webapp_ticket\<lparr>krb_file_path := host_ticket_dir, domainless_user := ''alice''\<rparr>] host_world)) =
   Inr ([], [host_ticket_dir])"
  by code_simp

lemma alice_lease_created:
  "\<exists>w'. process_add_non_domain_joined tree_json lease_env ''/k'' alice_request host_world =
     (Inr (\<lparr>reply_lease_id = ''aaaaaaaaaaaaaaaaaaaa'', created_kerberos_file_paths = [host_ticket_dir]\<rparr>, Grpc_OK), w')"
proof -
  let ?t = "webapp_ticket\<lparr>krb_file_path := host_ticket_dir, domainless_user := ''alice''\<rparr>"
  let ?one = "domainless_round tree_json lease_env ''contoso.com'' ''alice'' ''pw''"
  have c: "collect_domainless tree_json ''/k'' ''aaaaaaaaaaaaaaaaaaaa'' alice_request = ([], [?t])"
    by (simp add: alice_collected ticket_dir_def host_ticket_dir_def)
  have s: "lease_id_set alice_request"
    using alice_valid by (simp add: lease_id_set_def alice_request_def)
  obtain ts w1 where t: "create_tickets ?one [?t] host_world = (Inr ([], ts, [host_ticket_dir]), w1)"
    using alice_tickets_made
    by (cases "create_tickets ?one [?t] host_world"; cases "fst (create_tickets ?one [?t] host_world)") auto
  from write_meta_data_returns obtain r w2 where
    "write_meta_data_json tree_json ts ''aaaaaaaaaaaaaaaaaaaa'' ''/k'' (secrets_wiped [''alice'', ''pw''] w1) = (Inr r, w2)"
    by blast
  with c t s show ?thesis
    unfolding process_add_non_domain_joined_def
    by (simp add: lease_env_id run_lease_def finish_lease_def alice_request_def clear_strings del: create_tickets.simps forM.simps)
qed


text \<open>Three labels of sixty characters, and a user name of 103.\<close>

definition long_domain :: string where
  "long_domain = join CHR ''.'' (replicate 3 (replicate 60 CHR ''a''))"

definition long_request :: domainless_request where
  "long_request = \<lparr>req_username = replicate 103 CHR ''u'', req_password = ''pw'', req_domain = long_domain,
     req_credspec_contents = [webapp_spec]\<rparr>"

lemma long_domain_valid: "isValidDomain long_domain" "length long_domain = 182"
proof -
  have "valid_label (replicate 60 CHR ''a'')"
    by (simp add: valid_label_def isalnum_def ldh_def list_all_iff)
  then show "isValidDomain long_domain"
    unfolding isValidDomain_labels long_domain_def
    by (intro exI [of _ "replicate 3 (replicate 60 CHR ''a'')"]) simp
  show "length long_domain = 182" by (simp add: long_domain_def numeral_3_eq_3)
qed

theorem accepted_credentials_overflow_witness:
  "fst (process_add_non_domain_joined tree_json tools_env ''/k'' long_request tools_world) =
     Inl (Undef BufferOverflow)"
proof -
  have u: "\<not> contains_invalid_characters_in_ad_account_name (replicate 103 CHR ''u'')"
    by (simp add: adbl.dirty_iff invalid_characters_ad_name_def)
  have s: "lease_id_set long_request"
    using long_domain_valid u
    by (auto simp: lease_id_set_def long_request_def names_valid_def credentials_fit_def
        INPUT_CREDENTIALS_LENGTH_def DOMAIN_LENGTH_def)
  obtain l where l: "generate_lease_id tools_env tools_world = (Inr l, tools_world)"
    by (simp add: generate_lease_id_def)
  have c: "collect_domainless tree_json ''/k'' l long_request =
      ([], [webapp_ticket\<lparr>krb_file_path := ticket_dir ''/k'' l ''webapp01'',
         domainless_user := replicate 103 CHR ''u''\<rparr>])"
    using s by (simp add: collect_domainless_def lease_id_set_def del: collect_specs.simps)
      (simp add: long_request_def webapp_collected del: collect_specs.simps)
  have n: "NUL \<notin> set (req_username long_request)"
    "255 \<le> length (req_username long_request) + length (req_domain long_request)"
    using long_domain_valid(2) by (simp_all add: long_request_def NUL_def)
  show ?thesis by (rule accepted_credentials_overflow [OF s n l c tools_found])
qed

theorem credential_arn_reaches_shell_witness:
  "\<exists>t. parse_cred_spec tree_json (tree_write (spec_tree_arn ''x; reboot #'' ''contoso.com'' ''webapp01''))
       new_krb_ticket_info = (0, t) \<and>
     Ran (install_path_for_aws_cli @ '' secretsmanager get-secret-value --secret-id x; reboot # --query '' @
       quoted ''SecretString'' @ '' --output text'')
     \<in> set (evs (snd (choose_distinguished_name tree_json quiet_env (t\<lparr>krb_file_path := ''/k/krb5cc''\<rparr>) start_world)))"
proof -
  let ?t = "new_krb_ticket_info\<lparr>domain_name := ''contoso.com'', service_account_name := ''webapp01'',
     credential_arn := ''x; reboot #''\<rparr>"
  have ne: "tree_write (spec_tree_arn ''x; reboot #'' ''contoso.com'' ''webapp01'') \<noteq> []"
    by (simp add: spec_tree_arn_def)
  have cl: "contains_invalid_characters_in_ad_account_name ''webapp01'' = False" by code_simp
  have p: "parse_cred_spec tree_json (tree_write (spec_tree_arn ''x; reboot #'' ''contoso.com'' ''webapp01''))
      new_krb_ticket_info = (0, ?t)"
    using ne contoso_valid cl
    by (simp add: parse_cred_spec_def parse_cred_spec_try_def credspec_names_def spec_tree_parse
        spec_tree_arn_names del: json_path.simps)
  have r: "retrieve_variable_from_ecs_config ENV_CF_DISTINGUISHED_NAME start_world = (Inr [], start_world)"
  proof -
    have "read_file ecs_config_file_name (wfs start_world) = None" by code_simp
    then show ?thesis by (simp add: retrieve_variable_from_ecs_config_def)
  qed
  have a: "credential_arn ?t \<noteq> []" by simp
  have e: "c_str (install_path_for_aws_cli @ '' secretsmanager get-secret-value --secret-id '' @ credential_arn ?t @
      '' --query '' @ quoted ''SecretString'' @ '' --output text'') =
    install_path_for_aws_cli @ '' secretsmanager get-secret-value --secret-id x; reboot # --query '' @
       quoted ''SecretString'' @ '' --output text''"
    by (subst c_str_id) (simp_all add: NUL_def install_path_for_aws_cli_def quoted_def squote_def)
  from credential_arn_reaches_shell [OF r p a, of quiet_env "''/k/krb5cc''"] p show ?thesis
    unfolding e by blast
qed

theorem renew_reply_lists_nothing_witness:
  "fst (process_renew_non_domain_joined tree_json quiet_env ''/'' alice_request start_world) = Inr ([], Grpc_OK) \<and>
   names_valid ''alice'' ''contoso.com''"
proof -
  obtain w' where w': "process_renew_non_domain_joined tree_json quiet_env ''/'' alice_request start_world =
      (Inr ([], Grpc_OK), w')"
    using renew_domainless_quiet [of "''contoso.com''" "''alice''" "''pw''"] alice_valid
    by (auto simp: process_renew_non_domain_joined_def alice_request_def Let_def wiped_both)
  from renew_reply_lists_nothing [OF w'] w' show ?thesis by (simp add: alice_request_def)
qed

end
