(* ===== verification/Lease_Arn.thy ===== *)
theory Lease_Arn
  imports Lease_Common
begin

text \<open>
  Leases from credential specifications in S3 with users from the secrets manager
  (api/src/gmsa_service.cpp): the processing steps of \<open>CallDataCreateKerberosArnLease\<close> and
  \<open>CallDataRenewKerberosArnLease\<close>.
\<close>

section \<open>CreateKerberosArnLease\<close>

record arn_request =
  req_access_key_id :: string
  req_secret_access_key :: string
  req_session_token :: string
  req_region :: string
  req_credspec_arns :: "string list"

text \<open>The variables the loop over the ARNs shares with what follows it.\<close>

record arn_state =
  as_lease_id :: string
  as_creds :: user_creds
  as_test :: bool
  as_infos :: "krb_ticket_info list"
  as_mappings :: "krb_ticket_arn_mapping list"
  as_dirs :: "string list"

definition new_arn_state :: arn_state where
  "new_arn_state = \<lparr>as_lease_id = [], as_creds = no_creds, as_test = False, as_infos = [],
     as_mappings = [], as_dirs = []\<rparr>"

definition err_arn_credentials :: string where
  "err_arn_credentials = ''ERROR: domainless AD user credentials is not valid/ credentials should not be '' @
     ''more than 256 charaters''"

definition err_arn_names :: string where "err_arn_names = ''ERROR: invalid domainName/username''"

text \<open>The ticket of one ARN joins the lists, unless its path is taken.\<close>

definition add_arn_ticket ::
    "string \<Rightarrow> string \<Rightarrow> user_creds \<Rightarrow> krb_ticket_info \<Rightarrow> krb_ticket_arn_mapping \<Rightarrow> arn_state \<Rightarrow>
     string \<times> arn_state" where
  "add_arn_ticket krb_files_dir mount creds info mapping s =
     (case creds of (username, password, domain, distinguished) \<Rightarrow>
        if \<not> names_valid username domain then (err_arn_names, s)
        else if \<not> credentials_fit username password domain then (err_arn_credentials, s)
        else
          let krb_files_path = krb_files_dir @ ''/'' @ mount;
              s' = s\<lparr>as_lease_id := hd (split_string mount CHR ''/'')\<rparr>;
              info' = info\<lparr>krb_file_path := krb_files_path, domainless_user := username,
                distinguished_name := distinguished\<rparr>;
              mapping' = mapping\<lparr>arn_krb_file_path := krb_files_path\<rparr>
          in if krb_files_path \<notin> set (as_dirs s) then
               ([], s'\<lparr>as_dirs := krb_files_path # as_dirs s, as_infos := as_infos s @ [info'],
                  as_mappings := as_mappings s @ [mapping']\<rparr>)
             else (''ERROR: found duplicate mount paths'', s'))"

text \<open>One ARN that is not a test: the specification, then the user, then the ticket.\<close>

definition collect_real_arn ::
    "'j jsonlib \<Rightarrow> aws \<Rightarrow> string \<Rightarrow> arn_request \<Rightarrow> string \<Rightarrow> string \<Rightarrow> arn_state \<Rightarrow> (string \<times> arn_state) WM" where
  "collect_real_arn J A krb_files_dir q arn mount s =
     (let creds = get_credentials (req_access_key_id q) (req_secret_access_key q) (req_session_token q) in
      bindM (check_file_size_s3 A arn (req_region q) creds False) (\<lambda>isObjectValid.
      if \<not> isObjectValid then ret (''ERROR: invalid object for credentialspec in s3'', s)
      else
      bindM (retrieve_credspec_from_s3 A arn (req_region q) creds False) (\<lambda>response.
      if response = [] then ret (''ERROR: credentialspec cannot be retrieved from s3'', s)
      else
        (case parse_cred_spec_domainless J response new_krb_ticket_info
                (new_krb_ticket_arn_mapping\<lparr>credential_spec_arn := arn\<rparr>) of (parse_result, info, mapping) \<Rightarrow>
           if parse_result \<noteq> 0 then ret (''ERROR: invalid credentialspec fields'', s)
           else if credential_domainless_user_arn mapping = [] then
             ret (''ERROR: invalid secrets manager arn'', s)
           else
             bindM (retrieve_credspec_from_secrets_manager J A (credential_domainless_user_arn mapping)
                 (req_region q) creds) (\<lambda>userCreds.
               ret (add_arn_ticket krb_files_dir mount userCreds info mapping (s\<lparr>as_creds := userCreds\<rparr>)))))))"

text \<open>An ARN of the functional tests gets a directory and an empty cache.\<close>

definition collect_test_arn :: "string \<Rightarrow> string \<Rightarrow> arn_state \<Rightarrow> (string \<times> arn_state) WM" where
  "collect_test_arn krb_files_dir mount s =
     (let krb_files_path = krb_files_dir @ ''/'' @ mount in
      thenM (make_directories krb_files_path)
     (thenM (touch_file (ccache_name krb_files_path))
        (ret ([], s\<lparr>as_lease_id := hd (split_string mount CHR ''/'')\<rparr>))))"

definition collect_arn ::
    "'j jsonlib \<Rightarrow> aws \<Rightarrow> string \<Rightarrow> arn_request \<Rightarrow> string \<Rightarrow> arn_state \<Rightarrow> (string \<times> arn_state) WM" where
  "collect_arn J A krb_files_dir q credspecarn s =
     (if credspecarn = [] then ret (''ERROR: credentialspec arn should not be empty'', s)
      else
        (case split_string credspecarn CHR ''#'' of
           [arn, mount] \<Rightarrow>
             if length (split_string mount CHR ''/'') \<noteq> 2 \<or> contains_invalid_characters_in_credentials mount then
               ret (''ERROR: mount path is invalid'', s)
             else
               let s' = s\<lparr>as_test := IsTestInvocationForUnitTests arn\<rparr> in
               if \<not> IsTestInvocationForUnitTests arn then collect_real_arn J A krb_files_dir q arn mount s'
               else collect_test_arn krb_files_dir mount s'
         | _ \<Rightarrow> ret (''ERROR: credentialspec arn is not valid'', s)))"

fun collect_arns ::
    "'j jsonlib \<Rightarrow> aws \<Rightarrow> string \<Rightarrow> arn_request \<Rightarrow> string list \<Rightarrow> arn_state \<Rightarrow> (string \<times> arn_state) WM" where
  "collect_arns J A krb_files_dir q [] s = ret ([], s)"
| "collect_arns J A krb_files_dir q (c # cs) s =
     bindM (collect_arn J A krb_files_dir q c s) (\<lambda>(err, s').
       if err \<noteq> [] then ret (err, s') else collect_arns J A krb_files_dir q cs s')"

definition collect_arn_request ::
    "'j jsonlib \<Rightarrow> aws \<Rightarrow> string \<Rightarrow> arn_request \<Rightarrow> (string \<times> arn_state) WM" where
  "collect_arn_request J A krb_files_dir q =
     (if req_access_key_id q \<noteq> [] \<and> req_secret_access_key q \<noteq> [] \<and> req_session_token q \<noteq> [] \<and>
         req_region q \<noteq> [] \<and> req_credspec_arns q \<noteq> [] then
        collect_arns J A krb_files_dir q (req_credspec_arns q) new_arn_state
      else ret (''Error: access credentials should not be empty'', new_arn_state))"

text \<open>A round; it makes the directory whether or not it is there.\<close>

definition arn_round :: "env \<Rightarrow> user_creds \<Rightarrow> krb_ticket_info \<Rightarrow> (round_result \<times> krb_ticket_info) WM" where
  "arn_round E creds t =
     (case creds of (username, password, domain, _) \<Rightarrow>
      if username = [] \<or> password = [] then
        thenM (logger E LOG_ERR (''Invalid credentials for domainless user '' @ username))
          (ret (Left ''ERROR: Invalid credentials for domainless user'', t))
      else
        bindM (generate_krb_ticket_using_username_and_password E domain username password) (\<lambda>status.
        if fst status < 0 then
          let err_msg = ''ERROR :'' @ to_string (fst status) @ '': Cannot retrieve domainless user kerberos tickets''
          in thenM (logger E LOG_ERR (err_msg @ '' Status: '' @ to_string (fst status) @ '' '' @ snd status))
               (ret (Left err_msg, t))
        else
          gmsa_round E ret (\<lambda>_. domain)
            (\<lambda>_. ''ERROR: '' @ to_string (fst status) @ '': Cannot get gMSA krb ticket'')
            (\<lambda>_. ''ERROR: '' @ to_string (fst status) @ '': Cannot get gMSA krb ticket'') t))"

record arn_reply =
  arn_lease_id :: string
  krb_ticket_response_map :: "(string \<times> string) list"

text \<open>The handlers' local copies of secrets, in the order in which they are wiped.\<close>

definition arn_secrets :: "arn_request \<Rightarrow> string \<Rightarrow> string \<Rightarrow> string list" where
  "arn_secrets q username password =
     [username, password, req_access_key_id q, req_session_token q, req_secret_access_key q]"

text \<open>
  The end of a request with the loop's message and its tickets: nothing is wiped, removed, listed or
  written when the last ARN looked at was a test.
\<close>

definition finish_arn_lease ::
    "'j jsonlib \<Rightarrow> string \<Rightarrow> arn_request \<Rightarrow> arn_state \<Rightarrow> string \<Rightarrow> krb_ticket_info list \<Rightarrow>
     (arn_reply \<times> grpc_status) WM" where
  "finish_arn_lease J krb_files_dir q s err_msg infos =
     (if as_test s then ret (\<lparr>arn_lease_id = as_lease_id s, krb_ticket_response_map = []\<rparr>, Grpc_OK)
      else
        finish_lease J (arn_secrets q (fst (as_creds s)) (fst (snd (as_creds s)))) krb_files_dir (as_lease_id s)
          err_msg infos
          \<lparr>arn_lease_id = as_lease_id s,
           krb_ticket_response_map =
             (if err_msg = [] then map (\<lambda>m. (credential_spec_arn m, arn_krb_file_path m)) (as_mappings s)
              else [])\<rparr>)"

definition process_create_arn_lease ::
    "'j jsonlib \<Rightarrow> aws \<Rightarrow> env \<Rightarrow> string \<Rightarrow> arn_request \<Rightarrow> (arn_reply \<times> grpc_status) WM" where
  "process_create_arn_lease J A E krb_files_dir q =
     bindM (collect_arn_request J A krb_files_dir q) (\<lambda>(err, s).
     bindM (if err = [] \<and> \<not> as_test s then create_tickets (arn_round E (as_creds s)) (as_infos s)
            else ret (err, as_infos s, [])) (\<lambda>(err_msg, infos, _).
       finish_arn_lease J krb_files_dir q s err_msg infos))"

section \<open>RenewKerberosArnLease\<close>

text \<open>
  One metadata file's tickets; the scratch ticket and mapping of the file serve all of them. The
  value is the error message the file ends with and the user name and password last fetched.
\<close>

fun renew_arn_tickets ::
    "'j jsonlib \<Rightarrow> aws \<Rightarrow> env \<Rightarrow> arn_request \<Rightarrow> krb_ticket_info \<Rightarrow> krb_ticket_arn_mapping \<Rightarrow>
     krb_ticket_info list \<Rightarrow> string \<times> string \<Rightarrow> (string \<times> string \<times> string) WM" where
  "renew_arn_tickets J A E q info mapping [] user = ret ([], user)"
| "renew_arn_tickets J A E q info mapping (t # ts) user =
     (if credspec_info t = [] then renew_arn_tickets J A E q info mapping ts user
      else
        let creds = get_credentials (req_access_key_id q) (req_secret_access_key q) (req_session_token q) in
        bindM (retrieve_credspec_from_s3 A (credspec_info t) (req_region q) creds False) (\<lambda>response.
        if response = [] then ret (''ERROR: credentialspec cannot be retrieved from s3'', user)
        else
          (case parse_cred_spec_domainless J response info mapping of (parse_result, info', mapping') \<Rightarrow>
             if parse_result \<noteq> 0 then ret (''ERROR: invalid credentialspec fields'', user)
             else if credential_domainless_user_arn mapping' = [] then
               ret (''ERROR: invalid secrets manager arn'', user)
             else
               bindM (retrieve_credspec_from_secrets_manager J A (credential_domainless_user_arn mapping')
                   (req_region q) creds) (\<lambda>(username, password, domain, _).
               if \<not> names_valid username domain then ret (err_arn_names, username, password)
               else if \<not> credentials_fit username password domain then
                 ret (err_arn_credentials, username, password)
               else
                 bindM (renew_gmsa_ticket E t domain username password) (\<lambda>_.
                   renew_arn_tickets J A E q info' mapping' ts (username, password))))))"

text \<open>A file that ends well leaves the message of an earlier one standing.\<close>

definition renew_arn_file ::
    "'j jsonlib \<Rightarrow> aws \<Rightarrow> env \<Rightarrow> arn_request \<Rightarrow> string \<times> string \<times> string \<Rightarrow> string \<Rightarrow>
     (string \<times> string \<times> string) WM" where
  "renew_arn_file J A E q st file_path =
     bindM (read_meta_data_json J file_path) (\<lambda>ts.
     bindM (renew_arn_tickets J A E q new_krb_ticket_info new_krb_ticket_arn_mapping ts (snd st)) (\<lambda>(err, user).
       ret (if err \<noteq> [] then err else fst st, user)))"

definition process_renew_arn_lease ::
    "'j jsonlib \<Rightarrow> aws \<Rightarrow> env \<Rightarrow> string \<Rightarrow> arn_request \<Rightarrow> (string \<times> grpc_status) WM" where
  "process_renew_arn_lease J A E krb_files_dir q =
     bindM (if req_access_key_id q \<noteq> [] \<and> req_secret_access_key q \<noteq> [] \<and> req_session_token q \<noteq> [] \<and>
               req_region q \<noteq> [] then
              bindM (get_meta_data_file_paths krb_files_dir) (foldM (renew_arn_file J A E q) ([], [], []))
            else ret (''ERROR: invalid credentials/region'', [], [])) (\<lambda>(err_msg, username, password).
     thenM (forM secureClearString (arn_secrets q username password))
       (if err_msg \<noteq> [] then ret (''failed'', Grpc_internal err_msg) else ret (''successful'', Grpc_OK)))"

section \<open>The rounds\<close>

context world_inv begin

lemma keeps_arn_round: "keeps I (arn_round E c t)"
  unfolding arn_round_def Let_def
  by (intro keeps_intros keeps_user_ticket keeps_gmsa_round keeps_logger)

end

lemma gmsa_round_left:
  assumes "gmsa_round E prepare fd em lm t w = (Inr (Left e, t'), w')" and "\<And>r. em r \<noteq> []"
  shows "e \<noteq> []"
  using assms unfolding gmsa_round_def by (auto simp: bindM_eq_Inr thenM_eq_Inr split: if_splits prod.splits)

lemma arn_round_cases:
  assumes "arn_round E c t w = (Inr (r, t'), w')"
  shows "(\<exists>e. r = Left e \<and> e \<noteq> []) \<or>
    (\<exists>d m w2. gmsa_round E ret (\<lambda>_. d) (\<lambda>_. ''ERROR: '' @ m) (\<lambda>_. ''ERROR: '' @ m) t w2 = (Inr (r, t'), w'))"
proof -
  obtain u p d x where c: "c = (u, p, d, x)" by (cases c) auto
  show ?thesis
  proof (cases "u = [] \<or> p = []")
    case True
    with assms c show ?thesis by (auto simp: arn_round_def thenM_eq_Inr)
  next
    case False
    let ?rest = "\<lambda>status :: int \<times> string. if fst status < 0 then
          let err_msg = ''ERROR :'' @ to_string (fst status) @ '': Cannot retrieve domainless user kerberos tickets''
          in thenM (logger E LOG_ERR (err_msg @ '' Status: '' @ to_string (fst status) @ '' '' @ snd status))
               (ret (Left err_msg, t))
        else gmsa_round E ret (\<lambda>_. d)
            (\<lambda>_. ''ERROR: '' @ to_string (fst status) @ '': Cannot get gMSA krb ticket'')
            (\<lambda>_. ''ERROR: '' @ to_string (fst status) @ '': Cannot get gMSA krb ticket'') t"
    from assms c False have "bindM (generate_krb_ticket_using_username_and_password E d u p) ?rest w = (Inr (r, t'), w')"
      by (simp add: arn_round_def)
    then obtain status w1 where 1: "?rest status w1 = (Inr (r, t'), w')"
      unfolding bindM_eq_Inr by blast
    show ?thesis
    proof (cases "fst status < 0")
      case True
      with 1 show ?thesis by (auto simp: thenM_eq_Inr Let_def)
    next
      case False
      with 1 show ?thesis by auto
    qed
  qed
qed

lemma arn_round_made:
  assumes "arn_round E c t w = (Inr (Made p, t'), w')"
  shows "p = krb_file_path t \<and> ticket_made p w'"
  using arn_round_cases [OF assms] gmsa_round_made by blast

lemma arn_round_left: "arn_round E c t w = (Inr (Left e, t'), w') \<Longrightarrow> e \<noteq> []"
  by (drule arn_round_cases) (auto dest: gmsa_round_left)

interpretation arn: strict_round "arn_round E c" for E c
  by unfold_locales (rule arn_round_made made.keeps_arn_round arn_round_left; assumption?)+

section \<open>The collected tickets\<close>

text \<open>
  A mount path that is let through consists of two parts, neither with a dot in it, so that the
  ticket's directory lies below the daemon's.
\<close>

definition arn_path :: "string \<Rightarrow> string \<Rightarrow> bool" where
  "arn_path kd p \<longleftrightarrow> (\<exists>mount. p = kd @ ''/'' @ mount \<and> CHR ''.'' \<notin> set mount \<and>
     length (split_string mount CHR ''/'') = 2)"

definition arn_ok :: "string \<Rightarrow> arn_state \<Rightarrow> bool" where
  "arn_ok kd s \<longleftrightarrow> map arn_krb_file_path (as_mappings s) = map krb_file_path (as_infos s) \<and>
     distinct (map krb_file_path (as_infos s)) \<and>
     (\<forall>t \<in> set (as_infos s). krb_file_path t \<in> set (as_dirs s) \<and> arn_path kd (krb_file_path t))"

lemma arn_ok_new: "arn_ok kd new_arn_state"
  by (simp add: arn_ok_def new_arn_state_def)

lemma arn_ok_update [simp]:
  "arn_ok kd (s\<lparr>as_test := b\<rparr>) = arn_ok kd s" "arn_ok kd (s\<lparr>as_creds := c\<rparr>) = arn_ok kd s"
  "arn_ok kd (s\<lparr>as_lease_id := l\<rparr>) = arn_ok kd s"
  by (simp_all add: arn_ok_def)

lemma add_arn_ticket_ok:
  assumes "add_arn_ticket kd mount c info m s = (err, s')" and "arn_ok kd s"
    and "length (split_string mount CHR ''/'') = 2" and "\<not> contains_invalid_characters_in_credentials mount"
  shows "arn_ok kd s'"
proof -
  have "CHR ''.'' \<notin> set mount"
    using assms(4) credbl.clean_char [of mount "CHR ''.''"] by (auto simp: invalid_characters_def)
  with assms(3) have "arn_path kd (kd @ ''/'' @ mount)" by (auto simp: arn_path_def)
  with assms(1,2) show ?thesis
    by (cases c) (auto simp: add_arn_ticket_def arn_ok_def Let_def split: if_splits)
qed

lemma collect_real_arn_cases:
  assumes "collect_real_arn J A kd q arn mount s w = (Inr (err, s'), w')"
  shows "s' = s \<or> (\<exists>c info m. add_arn_ticket kd mount c info m (s\<lparr>as_creds := c\<rparr>) = (err, s'))"
proof -
  let ?c = "get_credentials (req_access_key_id q) (req_secret_access_key q) (req_session_token q)"
  obtain v w1 where v: "check_file_size_s3 A arn (req_region q) ?c False w = (Inr v, w1)"
    using check_file_size_returns by blast
  obtain response w2 where r: "retrieve_credspec_from_s3 A arn (req_region q) ?c False w1 = (Inr response, w2)"
    using retrieve_s3_returns by blast
  obtain code info m where m: "parse_cred_spec_domainless J response new_krb_ticket_info
      (new_krb_ticket_arn_mapping\<lparr>credential_spec_arn := arn\<rparr>) = (code, info, m)"
    by (rule prod_cases3)
  obtain u w3 where u: "retrieve_credspec_from_secrets_manager J A (credential_domainless_user_arn m)
      (req_region q) ?c w2 = (Inr u, w3)"
    using retrieve_secret_returns by blast
  from assms v r m u show ?thesis
    by (cases u) (auto simp: collect_real_arn_def Let_def split: if_splits)
qed

lemma collect_arn_ok:
  assumes "collect_arn J A kd q c s w = (Inr (err, s'), w')" and "arn_ok kd s"
  shows "arn_ok kd s'"
proof -
  have real: "arn_ok kd s2"
    if "collect_real_arn J A kd q arn mount s1 w = (Inr (err, s2), w')" and "arn_ok kd s1"
      and "length (split_string mount CHR ''/'') = 2" and "\<not> contains_invalid_characters_in_credentials mount"
    for arn mount s1 s2
    using collect_real_arn_cases [OF that(1)] that(2-4) by (auto intro: add_arn_ticket_ok)
  have test: "arn_ok kd s2"
    if "collect_test_arn kd mount s1 w = (Inr (err, s2), w')" and "arn_ok kd s1" for mount s1 s2
    using that by (auto simp: collect_test_arn_def Let_def thenM_eq_Inr)
  consider "s' = s" | arn mount b where
    "length (split_string mount CHR ''/'') = 2" "\<not> contains_invalid_characters_in_credentials mount"
    "collect_real_arn J A kd q arn mount (s\<lparr>as_test := b\<rparr>) w = (Inr (err, s'), w') \<or>
     collect_test_arn kd mount (s\<lparr>as_test := b\<rparr>) w = (Inr (err, s'), w')"
    using assms(1) unfolding collect_arn_def Let_def
    by (auto split: if_splits list.splits)
  then show ?thesis
    using real test assms(2) by cases (auto)
qed

lemma collect_arns_ok:
  "collect_arns J A kd q cs s w = (Inr (err, s'), w') \<Longrightarrow> arn_ok kd s \<Longrightarrow> arn_ok kd s'"
proof (induction cs arbitrary: s w)
  case (Cons c cs)
  then obtain e s1 w1 where 1: "collect_arn J A kd q c s w = (Inr (e, s1), w1)"
    by (auto simp: bindM_eq_Inr)
  with Cons.prems Cons.IH [of s1 w1] collect_arn_ok [OF 1] show ?case
    by (auto split: if_splits)
qed simp

lemma collect_arn_request_ok:
  "collect_arn_request J A kd q w = (Inr (err, s), w') \<Longrightarrow> arn_ok kd s"
  by (auto simp: collect_arn_request_def arn_ok_new intro: collect_arns_ok split: if_splits)

section \<open>Properties\<close>

text \<open>What an answer with OK rests on, unless the last ARN was a test: all tickets were made, then listed.\<close>

lemma arn_lease_OK:
  assumes "process_create_arn_lease J A E kd q w = (Inr (reply, Grpc_OK), w')"
  shows "\<exists>s. arn_ok kd s \<and> (krb_ticket_response_map reply = [] \<or>
    krb_ticket_response_map reply = map (\<lambda>m. (credential_spec_arn m, arn_krb_file_path m)) (as_mappings s) \<and>
    (\<forall>t \<in> set (as_infos s). ticket_made (krb_file_path t) w'))"
proof -
  let ?make = "\<lambda>err s. if err = [] \<and> \<not> as_test s then create_tickets (arn_round E (as_creds s)) (as_infos s)
    else ret (err, as_infos s, [])"
  from assms obtain err s w1 err' infos paths w2 where c: "collect_arn_request J A kd q w = (Inr (err, s), w1)" and
    t: "?make err s w1 = (Inr (err', infos, paths), w2)" and
    f: "finish_arn_lease J kd q s err' infos w2 = (Inr (reply, Grpc_OK), w')"
    unfolding process_create_arn_lease_def by (auto simp: bindM_eq_Inr simp del: bindM_Inr)
  note ok = collect_arn_request_ok [OF c]
  show ?thesis
  proof (cases "as_test s")
    case True
    with f ok show ?thesis by (auto simp: finish_arn_lease_def)
  next
    case False
    with f have "finish_lease J (arn_secrets q (fst (as_creds s)) (fst (snd (as_creds s)))) kd (as_lease_id s) err' infos
        \<lparr>arn_lease_id = as_lease_id s, krb_ticket_response_map =
           (if err' = [] then map (\<lambda>m. (credential_spec_arn m, arn_krb_file_path m)) (as_mappings s) else [])\<rparr> w2 =
      (Inr (reply, Grpc_OK), w')" by (simp add: finish_arn_lease_def)
    from finish_lease_OK [OF this] obtain u where e: "err' = []" and
      r: "krb_ticket_response_map reply = map (\<lambda>m. (credential_spec_arn m, arn_krb_file_path m)) (as_mappings s)" and
      m: "write_meta_data_json J infos (as_lease_id s) kd
        (secrets_wiped (arn_secrets q (fst (as_creds s)) (fst (snd (as_creds s)))) w2) = (Inr u, w')"
      by auto
    from t e False have t: "create_tickets (arn_round E (as_creds s)) (as_infos s) w1 = (Inr ([], infos, paths), w2)"
      by (cases "err = []") auto
    have "ticket_made p w'" if "p \<in> set (map krb_file_path (as_infos s))" for p
      using made_after_end [OF _ m] that arn.tickets_listed [OF t] arn.tickets_all [OF t] by auto
    with ok r show ?thesis by (intro exI [of _ s]) auto
  qed
qed

lemma arn_lease_made:
  assumes "process_create_arn_lease J A E kd q w = (Inr (reply, Grpc_OK), w')"
  shows "distinct (map snd (krb_ticket_response_map reply)) \<and>
    (\<forall>(arn, p) \<in> set (krb_ticket_response_map reply). arn_path kd p \<and> ticket_made p w')"
proof -
  from arn_lease_OK [OF assms] obtain s where ok: "arn_ok kd s" and
    "krb_ticket_response_map reply = [] \<or>
      krb_ticket_response_map reply = map (\<lambda>m. (credential_spec_arn m, arn_krb_file_path m)) (as_mappings s) \<and>
      (\<forall>t \<in> set (as_infos s). ticket_made (krb_file_path t) w')"
    by blast
  then consider "krb_ticket_response_map reply = []" |
    "map snd (krb_ticket_response_map reply) = map krb_file_path (as_infos s)"
    "\<forall>t \<in> set (as_infos s). ticket_made (krb_file_path t) w'"
    by (auto simp: arn_ok_def comp_def)
  then show ?thesis
  proof cases
    case 2
    have "arn_path kd p \<and> ticket_made p w'" if "(arn, p) \<in> set (krb_ticket_response_map reply)" for arn p
    proof -
      from that have "p \<in> set (map snd (krb_ticket_response_map reply))" by force
      then show ?thesis using ok 2(2) unfolding 2(1) by (auto simp: arn_ok_def)
    qed
    with 2 ok show ?thesis by (auto simp: arn_ok_def)
  qed simp
qed


text \<open>What the handler answers depends on whether the last ARN it looked at is one of the functional tests.\<close>

lemma last_test_decides:
  "collect_arn_request J A kd q w = (Inr (err, s), w1) \<Longrightarrow> as_test s \<Longrightarrow> process_create_arn_lease J A E kd q w =
    (Inr (\<lparr>arn_lease_id = as_lease_id s, krb_ticket_response_map = []\<rparr>, Grpc_OK), w1)"
  by (simp add: process_create_arn_lease_def finish_arn_lease_def)

lemma collect_arns_append:
  "collect_arns J A kd q cs s w = (Inr ([], s'), w') \<Longrightarrow>
   collect_arns J A kd q (cs @ ds) s w = collect_arns J A kd q ds s' w'"
proof (induction cs arbitrary: s w)
  case (Cons c cs)
  then obtain e s1 w1 where 1: "collect_arn J A kd q c s w = (Inr (e, s1), w1)"
    by (auto simp: bindM_eq_Inr simp del: bindM_Inr)
  with Cons.prems have "e = []" by (cases "e = []") auto
  with 1 Cons show ?case by simp
qed simp

lemma malformed_arn:
  "length (split_string c CHR ''#'') \<noteq> 2 \<Longrightarrow> \<exists>err. err \<noteq> [] \<and> collect_arn J A kd q c s = ret (err, s)"
  by (cases "split_string c CHR ''#''" rule: remdups_adj.cases)
     (auto simp: collect_arn_def split: list.splits)

text \<open>
  C37: A functional-test ARN at the end of a request, or before a malformed one, hides all the request asked for:
  however many ARNs before it were accepted, the answer is OK with an empty map, the lease takes the name the test ARN
  gives, and no command is run, so that none of the tickets is made. The test ARN is taken from the client.
\<close>
theorem test_arn_hides_everything:
  assumes "req_access_key_id q \<noteq> []" and "req_secret_access_key q \<noteq> []" and "req_session_token q \<noteq> []"
    and "req_region q \<noteq> []" and "req_credspec_arns q = before @ test # after"
    and "collect_arns J A kd q before new_arn_state w = (Inr ([], s), w1)"
    and "split_string test CHR ''#'' = [arn, mount]" and "IsTestInvocationForUnitTests arn"
    and "split_string mount CHR ''/'' = [task, volume]" and "\<not> contains_invalid_characters_in_credentials mount"
    and "create_directories (kd @ ''/'' @ mount) (wfs w1) = Inr F"
    and "after = [] \<or> length (split_string (hd after) CHR ''#'') \<noteq> 2"
  shows "\<exists>w'. process_create_arn_lease J A E kd q w =
      (Inr (\<lparr>arn_lease_id = task, krb_ticket_response_map = []\<rparr>, Grpc_OK), w') \<and> evs w' = evs w1"
proof -
  let ?s = "s\<lparr>as_test := True, as_lease_id := task\<rparr>"
  have "test \<noteq> []" using assms(7) by (auto simp: split_string_def)
  with assms(7-11) obtain w2 where t: "collect_arn J A kd q test s w1 = (Inr ([], ?s), w2)" "evs w2 = evs w1"
    by (simp add: collect_arn_def collect_test_arn_def make_directories_def touch_file_def Let_def thenM_def bindM_apply)
  have "\<exists>err. collect_arns J A kd q after ?s w2 = (Inr (err, ?s), w2)"
  proof (cases after)
    case (Cons c cs)
    with assms(12) malformed_arn [of c J A kd q ?s] obtain err where
      "err \<noteq> []" "collect_arn J A kd q c ?s = ret (err, ?s)" by auto
    with Cons show ?thesis by simp
  qed simp
  then obtain err where "collect_arns J A kd q (test # after) s w1 = (Inr (err, ?s), w2)"
    using t(1) by auto
  with collect_arns_append [OF assms(6), of "test # after"] assms(1-5) have
    "collect_arn_request J A kd q w = (Inr (err, ?s), w2)"
    by (simp add: collect_arn_request_def)
  from last_test_decides [OF this, of E] t(2) show ?thesis by simp
qed

section \<open>Concrete requests\<close>

definition test_request :: arn_request where
  "test_request = \<lparr>req_access_key_id = ''a'', req_secret_access_key = ''s'', req_session_token = ''t'',
     req_region = ''us-west-2'', req_credspec_arns = [''arn:functionaltestcfspec#task/web'', ''broken'']\<rparr>"

theorem test_arn_hides_everything_witness:
  "fst (process_create_arn_lease tree_json no_aws quiet_env ''/k'' test_request start_world) =
     Inr (\<lparr>arn_lease_id = ''task'', krb_ticket_response_map = []\<rparr>, Grpc_OK)"
proof -
  have 1: "split_string ''arn:functionaltestcfspec#task/web'' CHR ''#'' = [''arn:functionaltestcfspec'', ''task/web'']"
    "IsTestInvocationForUnitTests ''arn:functionaltestcfspec''"
    "split_string ''task/web'' CHR ''/'' = [''task'', ''web'']"
    "\<not> contains_invalid_characters_in_credentials ''task/web''"
    and 2: "length (split_string ''broken'' CHR ''#'') \<noteq> 2"
    by code_simp+
  have 3: "create_directories (''/k'' @ ''/'' @ ''task/web'') (wfs start_world) =
      Inr [([''k''], new_dir), ([''k'', ''task''], new_dir), ([''k'', ''task'', ''web''], new_dir)]"
    by code_simp
  have 4: "collect_arns tree_json no_aws ''/k'' test_request [] new_arn_state start_world = (Inr ([], new_arn_state), start_world)"
    by simp
  have 5: "req_access_key_id test_request \<noteq> []" "req_secret_access_key test_request \<noteq> []"
    "req_session_token test_request \<noteq> []" "req_region test_request \<noteq> []"
    "req_credspec_arns test_request = [] @ ''arn:functionaltestcfspec#task/web'' # [''broken'']"
    by (simp_all add: test_request_def)
  have 6: "[''broken''] = [] \<or> length (split_string (hd [''broken'']) CHR ''#'') \<noteq> 2" using 2 by simp
  from test_arn_hides_everything [OF 5 4 1 3 6, of quiet_env] show ?thesis by (auto simp: prod_eq_iff)
qed

text \<open>An S3 object with the specification of \<open>webapp01\<close>, and a secret with the user \<open>alice\<close>.\<close>

definition alice_secret :: string where
  "alice_secret = tree_write (TObj [(''username'', TStr ''alice''), (''password'', TStr ''pw''),
     (''distinguishedName'', TStr ''CN=webapp01''), (''domainName'', TStr ''contoso.com'')])"

definition web_aws :: aws where
  "web_aws = no_aws\<lparr>head_object := (\<lambda>_ _ _ _ _. Success 400), get_object := (\<lambda>_ _ _ _ _. Success webapp_spec),
     get_secret_value := (\<lambda>_ _ _ _. Success alice_secret)\<rparr>"

definition web_request :: arn_request where
  "web_request = test_request\<lparr>req_credspec_arns := [''arn:aws:s3:::b/k#task/web'']\<rparr>"

definition web_mapping :: krb_ticket_arn_mapping where
  "web_mapping = \<lparr>arn_krb_file_path = [], credential_spec_arn = ''arn:aws:s3:::b/k'',
     credential_domainless_user_arn = ''arn:1''\<rparr>"

definition web_info :: krb_ticket_info where
  "web_info = new_krb_ticket_info\<lparr>domain_name := ''contoso.com'', service_account_name := ''webapp01'',
     credspec_info := ''arn:aws:s3:::b/k''\<rparr>"

lemma webapp_domainless:
  "parse_cred_spec_domainless tree_json webapp_spec new_krb_ticket_info
     (new_krb_ticket_arn_mapping\<lparr>credential_spec_arn := ''arn:aws:s3:::b/k''\<rparr>) = (0, web_info, web_mapping)"
proof -
  have ne: "tree_write (spec_tree ''contoso.com'' ''webapp01'') \<noteq> []" by (simp add: spec_tree_def spec_tree_arn_def)
  have cl: "contains_invalid_characters_in_ad_account_name ''webapp01'' = False" by code_simp
  show ?thesis
    using ne contoso_valid cl
    by (simp add: webapp_spec_def parse_cred_spec_domainless_def parse_cred_spec_domainless_try_def
        credspec_names_def spec_tree_parse spec_tree_names del: json_path.simps)
       (simp add: web_info_def web_mapping_def new_krb_ticket_info_def new_krb_ticket_arn_mapping_def)
qed

lemma alice_secret_user:
  "secret_user tree_json alice_secret = Inr (''alice'', ''pw'', ''contoso.com'', ''CN=webapp01'')"
  unfolding secret_user_def alice_secret_def spec_tree_parse
  by (simp add: either_member_def string_member_def tree_json_def)

definition web_ticket :: krb_ticket_info where
  "web_ticket = web_info\<lparr>krb_file_path := ''/k/task/web'', domainless_user := ''alice'',
     distinguished_name := ''CN=webapp01''\<rparr>"

definition web_state :: arn_state where
  "web_state = \<lparr>as_lease_id = ''task'', as_creds = (''alice'', ''pw'', ''contoso.com'', ''CN=webapp01''), as_test = False,
     as_infos = [web_ticket], as_mappings = [web_mapping\<lparr>arn_krb_file_path := ''/k/task/web''\<rparr>],
     as_dirs = [''/k/task/web'']\<rparr>"

definition web_world :: world where
  "web_world = host_world\<lparr>evs := [Aws_call ''GetSecretValue'' ''arn:1'', Aws_call ''GetObject'' ''arn:aws:s3:::b/k'',
     Aws_call ''HeadObject'' ''arn:aws:s3:::b/k'']\<rparr>"

lemma web_collected: "collect_arn_request tree_json web_aws ''/k'' web_request host_world = (Inr ([], web_state), web_world)"
proof -
  have 1: "split_string ''arn:aws:s3:::b/k#task/web'' CHR ''#'' = [''arn:aws:s3:::b/k'', ''task/web'']"
    "split_string ''task/web'' CHR ''/'' = [''task'', ''web'']"
    "contains_invalid_characters_in_credentials ''task/web'' = False"
    "IsTestInvocationForUnitTests ''arn:aws:s3:::b/k'' = False"
    "s3_object ''arn:aws:s3:::b/k'' = Some (''b'', ''k'')"
    by code_simp+
  have 2: "webapp_spec \<noteq> []" by (simp add: webapp_spec_def spec_tree_def spec_tree_arn_def)
  have 3: "evs host_world = []" by (simp add: host_world_def joined_world_def start_world_def)
  show ?thesis
    using alice_valid
    by (simp add: collect_arn_request_def web_request_def test_request_def collect_arn_def collect_real_arn_def
        1 2 3 check_file_size_s3_def retrieve_credspec_from_s3_def retrieve_credspec_from_secrets_manager_def
        web_aws_def no_aws_def get_credentials_def aws_request_def bindM_apply webapp_domainless
        alice_secret_user MAX_CREDSPEC_SIZE_def add_arn_ticket_def web_mapping_def Let_def
        web_state_def web_ticket_def web_world_def new_arn_state_def)
qed

lemma web_tickets_made:
  "map_sum id (\<lambda>(err, ts, paths). (err, paths)) (fst (create_tickets
     (arn_round lease_env (''alice'', ''pw'', ''contoso.com'', ''CN=webapp01'')) [web_ticket] web_world)) =
   Inr ([], [''/k/task/web''])"
  by code_simp


end
