(* ===== verification/Grpc_Server.thy ===== *)
theory Grpc_Server
  imports Lease_Joined Lease_Domainless Lease_Arn
begin

text \<open>
  The asynchronous server of api/src/gmsa_service.cpp: the \<open>CallData\<close> objects with their little
  state machines, \<open>HandleRpcs\<close>, which hands every completed operation to all classes in turn,
  \<open>RunGrpcServer\<close>, and the client side of the health check. The gRPC runtime is the environment:
  it completes operations that are pending, in any order.
\<close>

section \<open>Calls\<close>

text \<open>One constructor per class; it stands for the class's cookie.\<close>

datatype rpc = CallDataCreateKerberosLease | CallDataAddNonDomainJoinedKerberosLease
  | CallDataRenewNonDomainJoinedKerberosLease | CallDataDeleteKerberosLease | CallDataHealthCheck
  | CallDataCreateKerberosArnLease | CallDataRenewKerberosArnLease

datatype call_status = CREATE | PROCESS | FINISH

record call_data =
  cookie :: rpc
  call_status :: call_status

datatype rpc_reply = Lease_reply lease_reply | Paths_reply "string list" | Delete_reply delete_reply
  | Arn_reply arn_reply | Status_reply string

text \<open>What a client may have sent.\<close>

record rpc_input =
  in_contents :: "string list"
  in_user :: domainless_request
  in_lease :: string
  in_arn :: arn_request

text \<open>
  The objects by address, the next address the allocator gives out, the operations the runtime has
  been asked for (a request to wait for, or an answer to send), the answers given, and the host.
\<close>

record server =
  objects :: "nat \<Rightarrow> call_data option"
  next_tag :: nat
  pending :: "nat list"
  answers :: "(nat \<times> rpc_reply \<times> grpc_status) list"
  host :: world

type_synonym 'a SM = "(server, 'a) M"

definition on_host :: "'a WM \<Rightarrow> 'a SM" where
  "on_host m = (\<lambda>s. case m (host s) of (r, w) \<Rightarrow> (r, s\<lparr>host := w\<rparr>))"

text \<open>Reading through a tag whose object has been deleted is undefined.\<close>

definition read_call :: "nat \<Rightarrow> call_data SM" where
  "read_call tag = (\<lambda>s. case objects s tag of None \<Rightarrow> (Inl (Undef UseAfterFree), s) | Some c \<Rightarrow> (Inr c, s))"

definition set_status :: "nat \<Rightarrow> call_status \<Rightarrow> unit SM" where
  "set_status tag st = modM (\<lambda>s. s\<lparr>objects := (objects s)(tag := map_option (call_status_update (\<lambda>_. st)) (objects s tag))\<rparr>)"

definition start_operation :: "nat \<Rightarrow> unit SM" where
  "start_operation tag = modM (\<lambda>s. s\<lparr>pending := pending s @ [tag]\<rparr>)"

text \<open>The branch of \<open>Proceed\<close> for a fresh object: it asks for a request of its kind.\<close>

definition request_call :: "nat \<Rightarrow> unit SM" where
  "request_call tag = thenM (set_status tag PROCESS) (start_operation tag)"

text \<open>The constructor: an object with the class's cookie, on which \<open>Proceed()\<close> is called.\<close>

definition alloc_call :: "rpc \<Rightarrow> nat SM" where
  "alloc_call K = (\<lambda>s. (Inr (next_tag s), s\<lparr>objects := (objects s)(next_tag s \<mapsto> \<lparr>cookie = K, call_status = CREATE\<rparr>),
     next_tag := Suc (next_tag s)\<rparr>))"

definition new_call :: "rpc \<Rightarrow> unit SM" where
  "new_call K = bindM (alloc_call K) request_call"

definition answer_call :: "nat \<Rightarrow> rpc_reply \<Rightarrow> grpc_status \<Rightarrow> unit SM" where
  "answer_call tag reply st =
     thenM (set_status tag FINISH)
    (thenM (modM (\<lambda>s. s\<lparr>answers := answers s @ [(tag, reply, st)]\<rparr>)) (start_operation tag))"

definition delete_call :: "nat \<Rightarrow> unit SM" where
  "delete_call tag = modM (\<lambda>s. s\<lparr>objects := (objects s)(tag := None)\<rparr>)"

text \<open>
  \<open>Proceed\<close> of class \<open>K\<close>, with the class's processing step as an argument. It returns at once when
  the object is of another class.
\<close>

definition proceed ::
    "(rpc \<Rightarrow> 'q \<Rightarrow> (rpc_reply \<times> grpc_status) WM) \<Rightarrow> 'q \<Rightarrow> nat \<Rightarrow> rpc \<Rightarrow> unit SM" where
  "proceed handle q tag K =
     bindM (read_call tag) (\<lambda>c.
       if cookie c \<noteq> K then ret ()
       else (case call_status c of
           CREATE \<Rightarrow> request_call tag
         | PROCESS \<Rightarrow>
             thenM (new_call K)
            (bindM (on_host (handle K q)) (\<lambda>(reply, st). answer_call tag reply st))
         | FINISH \<Rightarrow> delete_call tag))"

section \<open>The processing steps\<close>

definition rpc_handle ::
    "'j jsonlib \<Rightarrow> aws \<Rightarrow> env \<Rightarrow> string \<Rightarrow> string \<Rightarrow> rpc \<Rightarrow> rpc_input \<Rightarrow> (rpc_reply \<times> grpc_status) WM" where
  "rpc_handle J A E krb_files_dir aws_sm_secret_name K q =
     (case K of
        CallDataCreateKerberosLease \<Rightarrow>
          bindM (process_create_kerberos_lease J E krb_files_dir aws_sm_secret_name (in_contents q))
            (\<lambda>(r, st). ret (Lease_reply r, st))
      | CallDataAddNonDomainJoinedKerberosLease \<Rightarrow>
          bindM (process_add_non_domain_joined J E krb_files_dir (in_user q)) (\<lambda>(r, st). ret (Lease_reply r, st))
      | CallDataRenewNonDomainJoinedKerberosLease \<Rightarrow>
          bindM (process_renew_non_domain_joined J E krb_files_dir (in_user q)) (\<lambda>(r, st). ret (Paths_reply r, st))
      | CallDataDeleteKerberosLease \<Rightarrow>
          bindM (process_delete_kerberos_lease J E krb_files_dir (in_lease q)) (\<lambda>(r, st). ret (Delete_reply r, st))
      | CallDataHealthCheck \<Rightarrow> ret (Status_reply ''OK'', Grpc_OK)
      | CallDataCreateKerberosArnLease \<Rightarrow>
          bindM (process_create_arn_lease J A E krb_files_dir (in_arn q)) (\<lambda>(r, st). ret (Arn_reply r, st))
      | CallDataRenewKerberosArnLease \<Rightarrow>
          bindM (process_renew_arn_lease J A E krb_files_dir (in_arn q)) (\<lambda>(r, st). ret (Status_reply r, st)))"

text \<open>The canned answers of \<open>Proceed()\<close> without arguments.\<close>

definition canned_lease :: lease_reply where
  "canned_lease = \<lparr>reply_lease_id = ''12345'', created_kerberos_file_paths = []\<rparr>"

definition canned_handle :: "rpc \<Rightarrow> unit \<Rightarrow> (rpc_reply \<times> grpc_status) WM" where
  "canned_handle K q =
     ret (case K of
        CallDataCreateKerberosLease \<Rightarrow> Lease_reply canned_lease
      | CallDataAddNonDomainJoinedKerberosLease \<Rightarrow> Lease_reply canned_lease
      | CallDataRenewNonDomainJoinedKerberosLease \<Rightarrow> Paths_reply [''/var/credentials-fetcher/krb5cc'']
      | CallDataDeleteKerberosLease \<Rightarrow>
          Delete_reply \<lparr>deleted_lease_id = ''12345'', deleted_kerberos_file_paths = []\<rparr>
      | CallDataHealthCheck \<Rightarrow> Status_reply ''OK''
      | CallDataCreateKerberosArnLease \<Rightarrow> Arn_reply \<lparr>arn_lease_id = ''12345'', krb_ticket_response_map = []\<rparr>
      | CallDataRenewKerberosArnLease \<Rightarrow> Status_reply ''Successful'', Grpc_OK)"

section \<open>The Proceed methods\<close>

text \<open>
  One method per class for the events of the queue, and one without arguments, which only the
  constructors call.
\<close>

definition Proceed_CreateKerberosLease ::
    "'j jsonlib \<Rightarrow> aws \<Rightarrow> env \<Rightarrow> string \<Rightarrow> string \<Rightarrow> rpc_input \<Rightarrow> nat \<Rightarrow> unit SM" where
  "Proceed_CreateKerberosLease J A E krb_files_dir aws_sm_secret_name q tag =
     proceed (rpc_handle J A E krb_files_dir aws_sm_secret_name) q tag CallDataCreateKerberosLease"

definition Proceed_AddNonDomainJoinedKerberosLease ::
    "'j jsonlib \<Rightarrow> aws \<Rightarrow> env \<Rightarrow> string \<Rightarrow> string \<Rightarrow> rpc_input \<Rightarrow> nat \<Rightarrow> unit SM" where
  "Proceed_AddNonDomainJoinedKerberosLease J A E krb_files_dir aws_sm_secret_name q tag =
     proceed (rpc_handle J A E krb_files_dir aws_sm_secret_name) q tag CallDataAddNonDomainJoinedKerberosLease"

definition Proceed_RenewNonDomainJoinedKerberosLease ::
    "'j jsonlib \<Rightarrow> aws \<Rightarrow> env \<Rightarrow> string \<Rightarrow> string \<Rightarrow> rpc_input \<Rightarrow> nat \<Rightarrow> unit SM" where
  "Proceed_RenewNonDomainJoinedKerberosLease J A E krb_files_dir aws_sm_secret_name q tag =
     proceed (rpc_handle J A E krb_files_dir aws_sm_secret_name) q tag CallDataRenewNonDomainJoinedKerberosLease"

definition Proceed_DeleteKerberosLease ::
    "'j jsonlib \<Rightarrow> aws \<Rightarrow> env \<Rightarrow> string \<Rightarrow> string \<Rightarrow> rpc_input \<Rightarrow> nat \<Rightarrow> unit SM" where
  "Proceed_DeleteKerberosLease J A E krb_files_dir aws_sm_secret_name q tag =
     proceed (rpc_handle J A E krb_files_dir aws_sm_secret_name) q tag CallDataDeleteKerberosLease"

definition Proceed_HealthCheck ::
    "'j jsonlib \<Rightarrow> aws \<Rightarrow> env \<Rightarrow> string \<Rightarrow> string \<Rightarrow> rpc_input \<Rightarrow> nat \<Rightarrow> unit SM" where
  "Proceed_HealthCheck J A E krb_files_dir aws_sm_secret_name q tag =
     proceed (rpc_handle J A E krb_files_dir aws_sm_secret_name) q tag CallDataHealthCheck"

definition Proceed_CreateKerberosArnLease ::
    "'j jsonlib \<Rightarrow> aws \<Rightarrow> env \<Rightarrow> string \<Rightarrow> string \<Rightarrow> rpc_input \<Rightarrow> nat \<Rightarrow> unit SM" where
  "Proceed_CreateKerberosArnLease J A E krb_files_dir aws_sm_secret_name q tag =
     proceed (rpc_handle J A E krb_files_dir aws_sm_secret_name) q tag CallDataCreateKerberosArnLease"

definition Proceed_RenewKerberosArnLease ::
    "'j jsonlib \<Rightarrow> aws \<Rightarrow> env \<Rightarrow> string \<Rightarrow> string \<Rightarrow> rpc_input \<Rightarrow> nat \<Rightarrow> unit SM" where
  "Proceed_RenewKerberosArnLease J A E krb_files_dir aws_sm_secret_name q tag =
     proceed (rpc_handle J A E krb_files_dir aws_sm_secret_name) q tag CallDataRenewKerberosArnLease"

definition Proceed0_CreateKerberosLease :: "nat \<Rightarrow> unit SM" where
  "Proceed0_CreateKerberosLease tag = proceed canned_handle () tag CallDataCreateKerberosLease"

definition Proceed0_AddNonDomainJoinedKerberosLease :: "nat \<Rightarrow> unit SM" where
  "Proceed0_AddNonDomainJoinedKerberosLease tag = proceed canned_handle () tag CallDataAddNonDomainJoinedKerberosLease"

definition Proceed0_RenewNonDomainJoinedKerberosLease :: "nat \<Rightarrow> unit SM" where
  "Proceed0_RenewNonDomainJoinedKerberosLease tag = proceed canned_handle () tag CallDataRenewNonDomainJoinedKerberosLease"

definition Proceed0_DeleteKerberosLease :: "nat \<Rightarrow> unit SM" where
  "Proceed0_DeleteKerberosLease tag = proceed canned_handle () tag CallDataDeleteKerberosLease"

definition Proceed0_HealthCheck :: "nat \<Rightarrow> unit SM" where
  "Proceed0_HealthCheck tag = proceed canned_handle () tag CallDataHealthCheck"

definition Proceed0_CreateKerberosArnLease :: "nat \<Rightarrow> unit SM" where
  "Proceed0_CreateKerberosArnLease tag = proceed canned_handle () tag CallDataCreateKerberosArnLease"

definition Proceed0_RenewKerberosArnLease :: "nat \<Rightarrow> unit SM" where
  "Proceed0_RenewKerberosArnLease tag = proceed canned_handle () tag CallDataRenewKerberosArnLease"

lemmas proceed_methods = Proceed_CreateKerberosLease_def
  Proceed_AddNonDomainJoinedKerberosLease_def
  Proceed_RenewNonDomainJoinedKerberosLease_def
  Proceed_DeleteKerberosLease_def
  Proceed_HealthCheck_def
  Proceed_CreateKerberosArnLease_def
  Proceed_RenewKerberosArnLease_def

lemmas proceed0_methods = Proceed0_CreateKerberosLease_def
  Proceed0_AddNonDomainJoinedKerberosLease_def
  Proceed0_RenewNonDomainJoinedKerberosLease_def
  Proceed0_DeleteKerberosLease_def
  Proceed0_HealthCheck_def
  Proceed0_CreateKerberosArnLease_def
  Proceed0_RenewKerberosArnLease_def

section \<open>HandleRpcs\<close>

text \<open>The classes in the order of the calls; the last two only on Amazon Linux.\<close>

definition open_source_classes :: "rpc list" where
  "open_source_classes = [CallDataCreateKerberosLease, CallDataAddNonDomainJoinedKerberosLease,
     CallDataRenewNonDomainJoinedKerberosLease, CallDataDeleteKerberosLease, CallDataHealthCheck]"

definition amazon_linux_classes :: "rpc list" where
  "amazon_linux_classes =
     open_source_classes @ [CallDataCreateKerberosArnLease, CallDataRenewKerberosArnLease]"

text \<open>\<open>cq_->Next( &got_tag, &ok )\<close> gives a completed operation, a failed one, or nothing more.\<close>

datatype 'q queue_event = Ready nat 'q | Not_ok nat | Queue_down

definition dispatch ::
    "(rpc \<Rightarrow> 'q \<Rightarrow> (rpc_reply \<times> grpc_status) WM) \<Rightarrow> rpc list \<Rightarrow> 'q \<Rightarrow> nat \<Rightarrow> unit SM" where
  "dispatch handle classes q tag = forM (proceed handle q tag) classes"

text \<open>
  The constructors run \<open>Proceed()\<close> of their class, and \<open>HandleRpcs\<close> offers a tag to the methods in
  this order.
\<close>

lemma new_call_proceeds: "new_call K = bindM (alloc_call K) (\<lambda>tag. proceed canned_handle () tag K)"
  by (simp add: new_call_def proceed_def read_call_def alloc_call_def bindM_def fun_eq_iff)

lemma handle_rpcs_calls:
  "dispatch (rpc_handle J A E kd secret) amazon_linux_classes q tag =
     thenM (Proceed_CreateKerberosLease J A E kd secret q tag)
     (thenM (Proceed_AddNonDomainJoinedKerberosLease J A E kd secret q tag)
     (thenM (Proceed_RenewNonDomainJoinedKerberosLease J A E kd secret q tag)
     (thenM (Proceed_DeleteKerberosLease J A E kd secret q tag)
     (thenM (Proceed_HealthCheck J A E kd secret q tag)
     (thenM (Proceed_CreateKerberosArnLease J A E kd secret q tag)
     (thenM (Proceed_RenewKerberosArnLease J A E kd secret q tag)
     (ret ())))))))"
  by (simp add: dispatch_def amazon_linux_classes_def open_source_classes_def proceed_methods)

fun handle_event ::
    "(rpc \<Rightarrow> 'q \<Rightarrow> (rpc_reply \<times> grpc_status) WM) \<Rightarrow> rpc list \<Rightarrow> 'q queue_event \<Rightarrow> unit SM" where
  "handle_event handle classes (Ready tag q) =
     thenM (modM (\<lambda>s. s\<lparr>pending := remove1 tag (pending s)\<rparr>)) (dispatch handle classes q tag)"
| "handle_event handle classes (Not_ok tag) = raise Abort"
| "handle_event handle classes Queue_down = raise Abort"

text \<open>Each turn reads the shutdown signal, then waits for an event.\<close>

fun serve ::
    "(rpc \<Rightarrow> 'q \<Rightarrow> (rpc_reply \<times> grpc_status) WM) \<Rightarrow> rpc list \<Rightarrow> (bool \<times> 'q queue_event) list \<Rightarrow> unit SM" where
  "serve handle classes [] = ret ()"
| "serve handle classes ((shutdown, e) # es) =
     (if shutdown then ret () else thenM (handle_event handle classes e) (serve handle classes es))"

definition handle_rpcs ::
    "(rpc \<Rightarrow> 'q \<Rightarrow> (rpc_reply \<times> grpc_status) WM) \<Rightarrow> rpc list \<Rightarrow> (bool \<times> 'q queue_event) list \<Rightarrow> unit SM" where
  "handle_rpcs handle classes es = thenM (forM new_call classes) (serve handle classes es)"

definition empty_server :: "world \<Rightarrow> server" where
  "empty_server w = \<lparr>objects = (\<lambda>_. None), next_tag = 0, pending = [], answers = [], host = w\<rparr>"

text \<open>\<open>RunGrpcServer\<close> returns 0 when the loop ends.\<close>

definition RunGrpcServer ::
    "'j jsonlib \<Rightarrow> aws \<Rightarrow> env \<Rightarrow> rpc list \<Rightarrow> string \<Rightarrow> string \<Rightarrow> (bool \<times> rpc_input queue_event) list \<Rightarrow> int SM" where
  "RunGrpcServer J A E classes krb_files_dir aws_sm_secret_name es =
     thenM (handle_rpcs (rpc_handle J A E krb_files_dir aws_sm_secret_name) classes es) (ret 0)"

text \<open>The client: 0 when the call succeeds, 1 when it fails or throws.\<close>

definition HealthCheck :: "(string \<Rightarrow> string outcome) \<Rightarrow> string \<Rightarrow> int" where
  "HealthCheck stub serviceName = (case stub serviceName of Success _ \<Rightarrow> 0 | Failure \<Rightarrow> 1 | Thrown \<Rightarrow> 1)"

section \<open>Steps\<close>

text \<open>A step of the running server: the runtime completes some pending operation.\<close>

inductive server_step ::
    "(rpc \<Rightarrow> 'q \<Rightarrow> (rpc_reply \<times> grpc_status) WM) \<Rightarrow> rpc list \<Rightarrow> server \<Rightarrow> server \<Rightarrow> bool"
  for handle :: "rpc \<Rightarrow> 'q \<Rightarrow> (rpc_reply \<times> grpc_status) WM" and classes :: "rpc list" where
  ready: "tag \<in> set (pending s) \<Longrightarrow> handle_event handle classes (Ready tag q) s = (Inr (), t) \<Longrightarrow>
     server_step handle classes s t"

inductive_cases server_stepE: "server_step handle classes s t"

inductive server_reach ::
    "(rpc \<Rightarrow> 'q \<Rightarrow> (rpc_reply \<times> grpc_status) WM) \<Rightarrow> rpc list \<Rightarrow> server \<Rightarrow> bool"
  for handle :: "rpc \<Rightarrow> 'q \<Rightarrow> (rpc_reply \<times> grpc_status) WM" and classes :: "rpc list" where
  start: "forM new_call classes (empty_server w) = (Inr (), s) \<Longrightarrow> server_reach handle classes s"
| step: "server_reach handle classes s \<Longrightarrow> server_step handle classes s t \<Longrightarrow> server_reach handle classes t"

section \<open>What one event does\<close>

lemma forM_append: "forM f (xs @ ys) = thenM (forM f xs) (forM f ys)"
  by (induction xs) (simp_all add: thenM_def bindM_assoc)

lemma forM_skip: "(\<And>x. x \<in> set xs \<Longrightarrow> f x s = (Inr (), s)) \<Longrightarrow> forM f xs s = (Inr (), s)"
  by (induction xs) simp_all

lemma read_call_Some [simp]: "objects s tag = Some c \<Longrightarrow> read_call tag s = (Inr c, s)"
  by (simp add: read_call_def)

lemma read_call_None [simp]: "objects s tag = None \<Longrightarrow> read_call tag s = (Inl (Undef UseAfterFree), s)"
  by (simp add: read_call_def)

lemma proceed_other [simp]:
  "objects s tag = Some c \<Longrightarrow> cookie c \<noteq> K \<Longrightarrow> proceed handle q tag K s = (Inr (), s)"
  by (simp add: proceed_def)

definition with_call :: "rpc \<Rightarrow> server \<Rightarrow> server" where
  "with_call K s = s\<lparr>objects := (objects s)(next_tag s \<mapsto> \<lparr>cookie = K, call_status = PROCESS\<rparr>),
     next_tag := Suc (next_tag s), pending := pending s @ [next_tag s]\<rparr>"

lemma new_call_apply: "new_call K s = (Inr (), with_call K s)"
  by (simp add: new_call_def alloc_call_def request_call_def set_status_def start_operation_def with_call_def
      bindM_apply thenM_def)

text \<open>The state after a request of class \<open>K\<close> has been answered.\<close>

definition answered :: "rpc \<Rightarrow> nat \<Rightarrow> rpc_reply \<Rightarrow> grpc_status \<Rightarrow> world \<Rightarrow> server \<Rightarrow> server" where
  "answered K tag reply st w s =
     s\<lparr>objects := (objects s)(next_tag s \<mapsto> \<lparr>cookie = K, call_status = PROCESS\<rparr>,
                              tag \<mapsto> \<lparr>cookie = K, call_status = FINISH\<rparr>),
       next_tag := Suc (next_tag s), pending := pending s @ [next_tag s, tag],
       answers := answers s @ [(tag, reply, st)], host := w\<rparr>"

lemma proceed_process:
  assumes "objects s tag = Some \<lparr>cookie = K, call_status = PROCESS\<rparr>" and "tag < next_tag s"
  shows "handle K q (host s) = (Inr (reply, st), w) \<Longrightarrow>
      proceed handle q tag K s = (Inr (), answered K tag reply st w s)"
    and "handle K q (host s) = (Inl e, w) \<Longrightarrow>
      proceed handle q tag K s = (Inl e, (with_call K s)\<lparr>host := w\<rparr>)"
proof -
  have h: "host (with_call K s) = host s" by (simp add: with_call_def)
  {
    assume "handle K q (host s) = (Inr (reply, st), w)"
    then have "on_host (handle K q) (with_call K s) = (Inr (reply, st), (with_call K s)\<lparr>host := w\<rparr>)"
      by (simp add: on_host_def h)
    with assms show "proceed handle q tag K s = (Inr (), answered K tag reply st w s)"
      by (simp add: proceed_def new_call_apply answer_call_def set_status_def start_operation_def
          thenM_def answered_def) (simp add: with_call_def)
  }
  assume "handle K q (host s) = (Inl e, w)"
  then have "on_host (handle K q) (with_call K s) = (Inl e, (with_call K s)\<lparr>host := w\<rparr>)"
    by (simp add: on_host_def h)
  with assms show "proceed handle q tag K s = (Inl e, (with_call K s)\<lparr>host := w\<rparr>)"
    by (simp add: proceed_def new_call_apply)
qed

lemma proceed_finish:
  "objects s tag = Some \<lparr>cookie = K, call_status = FINISH\<rparr> \<Longrightarrow>
   proceed handle q tag K s = (Inr (), s\<lparr>objects := (objects s)(tag := None)\<rparr>)"
  by (simp add: proceed_def delete_call_def)

text \<open>
  What the classes of a server are relied on for: no class is listed twice. Everything about events
  and reachable states is proved from that, for any processing steps.
\<close>

locale rpc_service =
  fixes handle :: "rpc \<Rightarrow> 'q \<Rightarrow> (rpc_reply \<times> grpc_status) WM" and classes :: "rpc list"
  assumes classes_distinct: "distinct classes"
begin

lemma class_split:
  assumes "K \<in> set classes"
  obtains xs ys where "classes = xs @ K # ys" "K \<notin> set xs" "K \<notin> set ys"
  using assms classes_distinct by (auto dest: split_list)

text \<open>A request is handled by the step of its own class and no other.\<close>

lemma dispatch_process:
  assumes "objects s tag = Some \<lparr>cookie = K, call_status = PROCESS\<rparr>" and "tag < next_tag s"
    and "K \<in> set classes"
  shows "handle K q (host s) = (Inr (reply, st), w) \<Longrightarrow>
      dispatch handle classes q tag s = (Inr (), answered K tag reply st w s)"
    and "handle K q (host s) = (Inl e, w) \<Longrightarrow>
      dispatch handle classes q tag s = (Inl e, (with_call K s)\<lparr>host := w\<rparr>)"
proof -
  obtain xs ys where c: "classes = xs @ K # ys" "K \<notin> set xs" "K \<notin> set ys"
    using class_split [OF assms(3)] .
  have pre: "forM (proceed handle q tag) xs s = (Inr (), s)"
    using assms(1) c(2) by (intro forM_skip proceed_other) auto
  {
    assume h: "handle K q (host s) = (Inr (reply, st), w)"
    have "objects (answered K tag reply st w s) tag = Some \<lparr>cookie = K, call_status = FINISH\<rparr>"
      by (simp add: answered_def)
    then have "forM (proceed handle q tag) ys (answered K tag reply st w s) = (Inr (), answered K tag reply st w s)"
      using c(3) by (intro forM_skip proceed_other) auto
    with pre proceed_process(1) [of s tag K handle q, OF assms(1,2) h]
    show "dispatch handle classes q tag s = (Inr (), answered K tag reply st w s)"
      by (simp add: dispatch_def c(1) forM_append)
  }
  assume "handle K q (host s) = (Inl e, w)"
  with pre proceed_process(2) [of s tag K handle q, OF assms(1,2)]
  show "dispatch handle classes q tag s = (Inl e, (with_call K s)\<lparr>host := w\<rparr>)"
    by (simp add: dispatch_def c(1) forM_append)
qed

text \<open>An answer that has been sent deletes the object, and the next class reads it.\<close>

lemma dispatch_finish:
  assumes "objects s tag = Some \<lparr>cookie = K, call_status = FINISH\<rparr>" and "K \<in> set classes"
  shows "dispatch handle classes q tag s =
    (if K = last classes then Inr () else Inl (Undef UseAfterFree), s\<lparr>objects := (objects s)(tag := None)\<rparr>)"
proof -
  obtain xs ys where c: "classes = xs @ K # ys" "K \<notin> set xs" "K \<notin> set ys"
    using class_split [OF assms(2)] .
  have pre: "forM (proceed handle q tag) xs s = (Inr (), s)"
    using assms(1) c(2) by (intro forM_skip proceed_other) auto
  let ?t = "s\<lparr>objects := (objects s)(tag := None)\<rparr>"
  have "dispatch handle classes q tag s = forM (proceed handle q tag) ys ?t"
    using pre proceed_finish [of s tag K handle q, OF assms(1)]
    by (simp add: dispatch_def c(1) forM_append)
  moreover have "proceed handle q tag K' ?t = (Inl (Undef UseAfterFree), ?t)" for K'
    by (simp add: proceed_def)
  moreover have "K = last classes \<longleftrightarrow> ys = []"
    using c by (cases ys rule: rev_cases) auto
  ultimately show ?thesis by (cases ys) simp_all
qed

end

section \<open>The invariant of the server\<close>

definition awaiting :: "rpc \<Rightarrow> server \<Rightarrow> nat \<Rightarrow> bool" where
  "awaiting K s tag \<longleftrightarrow> objects s tag = Some \<lparr>cookie = K, call_status = PROCESS\<rparr>"

text \<open>
  Every object has one operation pending and none is pending without an object, an object waits
  for a request or for its answer to be sent, it has been answered in the second case only, and
  each class has one object waiting.
\<close>

definition objects_ok :: "rpc list \<Rightarrow> server \<Rightarrow> bool" where
  "objects_ok classes s \<longleftrightarrow>
     (\<forall>tag c. objects s tag = Some c \<longrightarrow> tag < next_tag s \<and> cookie c \<in> set classes \<and> call_status c \<noteq> CREATE \<and>
        (call_status c = FINISH \<longleftrightarrow> tag \<in> fst ` set (answers s)))"

definition answers_ok :: "server \<Rightarrow> bool" where
  "answers_ok s \<longleftrightarrow> distinct (map fst (answers s)) \<and> (\<forall>tag \<in> fst ` set (answers s). tag < next_tag s)"

definition server_ok :: "rpc list \<Rightarrow> server \<Rightarrow> bool" where
  "server_ok classes s \<longleftrightarrow> objects_ok classes s \<and> answers_ok s \<and> distinct (pending s) \<and>
     set (pending s) = dom (objects s) \<and> (\<forall>K \<in> set classes. \<exists>!tag. awaiting K s tag)"

lemma objects_okD:
  assumes "objects_ok classes s" and "objects s tag = Some \<lparr>cookie = K, call_status = st\<rparr>"
  shows "tag < next_tag s" and "K \<in> set classes" and "st \<noteq> CREATE"
    and "st = FINISH \<longleftrightarrow> tag \<in> fst ` set (answers s)"
  using assms unfolding objects_ok_def by fastforce+

lemma new_calls_ok:
  "server_ok made s \<Longrightarrow> distinct (made @ ks) \<Longrightarrow> answers s = [] \<Longrightarrow>
   \<exists>t. forM new_call ks s = (Inr (), t) \<and> server_ok (made @ ks) t"
proof (induction ks arbitrary: made s)
  case (Cons k ks)
  let ?n = "next_tag s"
  have o: "\<forall>tag c. objects s tag = Some c \<longrightarrow> tag < ?n \<and> cookie c \<in> set made \<and> call_status c = PROCESS"
    using Cons.prems(1,3) by (auto simp: server_ok_def objects_ok_def) (metis call_status.exhaust)
  have free: "objects s ?n = None" using o by (cases "objects s ?n") auto
  have new: "objects_ok (made @ [k]) (with_call k s)"
    using o Cons.prems(3) by (auto simp: objects_ok_def with_call_def less_Suc_eq split: if_splits)
  have pend: "distinct (pending (with_call k s)) \<and> set (pending (with_call k s)) = dom (objects (with_call k s))"
    using Cons.prems(1) free by (auto simp: server_ok_def with_call_def)
  have "\<exists>!tag. awaiting K (with_call k s) tag" if "K \<in> set (made @ [k])" for K
  proof (cases "K = k")
    case True
    have "\<not> awaiting k s tag" for tag
      using o Cons.prems(2) by (fastforce simp: awaiting_def)
    with True show ?thesis
      by (intro ex1I [of _ ?n]) (auto simp: awaiting_def with_call_def split: if_splits)
  next
    case False
    with that Cons.prems(1) have "\<exists>!tag. awaiting K s tag" by (simp add: server_ok_def)
    moreover have "awaiting K (with_call k s) tag \<longleftrightarrow> awaiting K s tag" for tag
      using False free by (auto simp: awaiting_def with_call_def)
    ultimately show ?thesis by simp
  qed
  with new pend Cons.prems(3) have "server_ok (made @ [k]) (with_call k s)"
    by (simp add: server_ok_def answers_ok_def with_call_def)
  moreover have "answers (with_call k s) = []" using Cons.prems(3) by (simp add: with_call_def)
  ultimately obtain t where "forM new_call ks (with_call k s) = (Inr (), t)" "server_ok ((made @ [k]) @ ks) t"
    using Cons.IH [of "made @ [k]" "with_call k s"] Cons.prems(2) by auto
  moreover have "forM new_call (k # ks) s = forM new_call ks (with_call k s)"
    by (simp only: forM.simps) (rule thenM_Inr, rule new_call_apply)
  ultimately show ?case by auto
qed simp

lemma start_ok:
  assumes "distinct classes"
  shows "\<exists>s. forM new_call classes (empty_server w) = (Inr (), s) \<and> server_ok classes s"
  using new_calls_ok [of "[]" "empty_server w" classes] assms
  by (simp add: server_ok_def objects_ok_def answers_ok_def empty_server_def awaiting_def)

lemma answered_ok:
  assumes ok: "server_ok classes s" and tag: "objects s tag = Some \<lparr>cookie = K, call_status = PROCESS\<rparr>"
  shows "server_ok classes (answered K tag reply st w (s\<lparr>pending := remove1 tag (pending s)\<rparr>))"
proof -
  let ?s = "answered K tag reply st w (s\<lparr>pending := remove1 tag (pending s)\<rparr>)"
  let ?n = "next_tag s"
  have o: "objects_ok classes s" and a: "answers_ok s" and p: "distinct (pending s)" "set (pending s) = dom (objects s)"
    and u: "\<forall>K \<in> set classes. \<exists>!tag. awaiting K s tag"
    using ok by (auto simp: server_ok_def)
  have t: "tag < ?n" "K \<in> set classes" "tag \<notin> fst ` set (answers s)"
    using objects_okD [OF o tag] by simp_all
  have free: "objects s ?n = None" using o by (cases "objects s ?n") (auto simp: objects_ok_def)
  have n: "?n \<notin> fst ` set (answers s)" using a by (auto simp: answers_ok_def)
  have obj: "objects ?s = (objects s)(?n \<mapsto> \<lparr>cookie = K, call_status = PROCESS\<rparr>,
      tag \<mapsto> \<lparr>cookie = K, call_status = FINISH\<rparr>)"
    by (simp add: answered_def)
  have "objects_ok classes ?s"
    unfolding objects_ok_def obj
    using o t n by (auto simp: objects_ok_def answered_def less_Suc_eq split: if_splits)
  moreover have "answers_ok ?s"
    using a t by (auto simp: answers_ok_def answered_def less_Suc_eq)
  moreover have "distinct (pending ?s) \<and> set (pending ?s) = dom (objects ?s)"
    using p free tag t(1) by (auto simp: answered_def set_remove1_eq)
  moreover have "\<exists>!tag. awaiting K' ?s tag" if "K' \<in> set classes" for K'
  proof (cases "K' = K")
    case True
    have "\<forall>x. awaiting K s x \<longrightarrow> x = tag" using u t(2) tag by (auto simp: awaiting_def)
    with True t(1) show ?thesis
      by (intro ex1I [of _ ?n]) (auto simp: awaiting_def obj split: if_splits)
  next
    case False
    then have "awaiting K' ?s x \<longleftrightarrow> awaiting K' s x" for x
      using free tag by (auto simp: awaiting_def obj)
    with u that show ?thesis by simp
  qed
  ultimately show ?thesis by (simp add: server_ok_def)
qed

lemma deleted_ok:
  assumes ok: "server_ok classes s" and tag: "objects s tag = Some \<lparr>cookie = K, call_status = FINISH\<rparr>"
  shows "server_ok classes (s\<lparr>pending := remove1 tag (pending s), objects := (objects s)(tag := None)\<rparr>)"
proof -
  let ?s = "s\<lparr>pending := remove1 tag (pending s), objects := (objects s)(tag := None)\<rparr>"
  have "awaiting K' ?s x \<longleftrightarrow> awaiting K' s x" for K' x
    using tag by (auto simp: awaiting_def)
  with ok show ?thesis
    by (auto simp: server_ok_def objects_ok_def answers_ok_def set_remove1_eq split: if_splits)
qed

section \<open>What the server promises\<close>

text \<open>
  The service as a client sees it, without objects, tags and queues: the host, and the answers given
  so far. A step serves one request of one class in a single action, or nothing is seen to happen.
\<close>

type_synonym service = "(rpc_reply \<times> grpc_status) list \<times> world"

inductive service_step ::
    "(rpc \<Rightarrow> 'q \<Rightarrow> (rpc_reply \<times> grpc_status) WM) \<Rightarrow> rpc list \<Rightarrow> service \<Rightarrow> service \<Rightarrow> bool"
  for handle :: "rpc \<Rightarrow> 'q \<Rightarrow> (rpc_reply \<times> grpc_status) WM" and classes :: "rpc list" where
  serve_one: "K \<in> set classes \<Longrightarrow> handle K q w = (Inr a, w') \<Longrightarrow> service_step handle classes (rs, w) (rs @ [a], w')"
| unseen: "service_step handle classes x x"

definition abs_server :: "server \<Rightarrow> service" where
  "abs_server s = (map snd (answers s), host s)"

context rpc_service begin

lemma step_sound:
  assumes "server_step handle classes s t" and ok: "server_ok classes s"
  shows "server_ok classes t \<and> service_step handle classes (abs_server s) (abs_server t)"
  using assms(1)
proof cases
  case (ready tag q)
  let ?s = "s\<lparr>pending := remove1 tag (pending s)\<rparr>"
  from ready(2) have d: "dispatch handle classes q tag ?s = (Inr (), t)"
    by (simp add: thenM_def)
  from ready(1) ok obtain c where c: "objects s tag = Some c" by (auto simp: server_ok_def)
  obtain K st where K: "c = \<lparr>cookie = K, call_status = st\<rparr>" by (cases c) auto
  from ok have "objects_ok classes s" by (simp add: server_ok_def)
  with c have o: "tag < next_tag s" "K \<in> set classes" "st \<noteq> CREATE"
    using objects_okD [of classes s tag K st] by (simp_all add: K)
  then consider "st = PROCESS" | "st = FINISH" by (cases st) auto
  then show ?thesis
  proof cases
    case 1
    obtain r w where h: "handle K q (host s) = (r, w)" by force
    show ?thesis
    proof (cases r)
      case (Inl e)
      with dispatch_process(2) [of ?s tag K] d c K o 1 h show ?thesis by simp
    next
      case (Inr v)
      obtain reply g where "v = (reply, g)" by force
      with dispatch_process(1) [of ?s tag K q reply g w] d c K o 1 h Inr
      have "t = answered K tag reply g w ?s" by simp
      moreover from h Inr \<open>v = (reply, g)\<close> have "service_step handle classes (abs_server s) (abs_server (answered K tag reply g w ?s))"
        using serve_one [where handle = handle and K = K and q = q, OF o(2)] by (auto simp: abs_server_def answered_def)
      ultimately show ?thesis using answered_ok [OF ok] c K 1 by simp
    qed
  next
    case 2
    with dispatch_finish [of ?s tag K q] d c K o have "t = ?s\<lparr>objects := (objects s)(tag := None)\<rparr>"
      by (simp split: if_splits)
    with deleted_ok [OF ok] c K 2 show ?thesis by (simp add: abs_server_def unseen)
  qed
qed

lemmas step_ok = step_sound [THEN conjunct1]

lemma reach_ok: "server_reach handle classes s \<Longrightarrow> server_ok classes s"
proof (induction rule: server_reach.induct)
  case (start w s)
  with start_ok [OF classes_distinct, of w] show ?case by auto
next
  case (step s t)
  then show ?case by (blast intro: step_ok)
qed

end

lemma open_source_distinct: "distinct open_source_classes"
  by (simp add: open_source_classes_def)

lemma amazon_linux_distinct: "distinct amazon_linux_classes"
  by (simp add: amazon_linux_classes_def open_source_classes_def)

interpretation open_source: rpc_service "rpc_handle J A E kd secret" open_source_classes for J A E kd secret
  by unfold_locales (rule open_source_distinct)

interpretation amazon_linux: rpc_service "rpc_handle J A E kd secret" amazon_linux_classes for J A E kd secret
  by unfold_locales (rule amazon_linux_distinct)

section \<open>Properties\<close>

definition build_classes :: "rpc list \<Rightarrow> bool" where
  "build_classes classes \<longleftrightarrow> classes = open_source_classes \<or> classes = amazon_linux_classes"

lemma build_reach_ok:
  "server_reach (rpc_handle J A E kd secret) classes s \<Longrightarrow> build_classes classes \<Longrightarrow> server_ok classes s"
  using open_source.reach_ok amazon_linux.reach_ok by (auto simp: build_classes_def)

lemma ok_step:
  assumes "server_ok classes s" and "build_classes classes"
    and "server_step (rpc_handle J A E kd secret) classes s t"
  shows "server_ok classes t \<and> service_step (rpc_handle J A E kd secret) classes (abs_server s) (abs_server t)"
  using assms(2) open_source.step_sound [of J A E kd secret s t] amazon_linux.step_sound [of J A E kd secret s t]
    assms(1,3)
  by (auto simp: build_classes_def)

lemma build_step:
  assumes "server_reach (rpc_handle J A E kd secret) classes s" and "build_classes classes"
    and "server_step (rpc_handle J A E kd secret) classes s t"
  shows "service_step (rpc_handle J A E kd secret) classes (abs_server s) (abs_server t)"
  using ok_step [OF build_reach_ok [OF assms(1,2)] assms(2,3)] by blast

lemma build_event:
  assumes "build_classes classes" and "objects s tag = Some \<lparr>cookie = K, call_status = PROCESS\<rparr>"
    and "tag < next_tag s" and "K \<in> set classes" and "rpc_handle J A E kd secret K q (host s) = (Inr (reply, st), w)"
  shows "handle_event (rpc_handle J A E kd secret) classes (Ready tag q) s =
    (Inr (), answered K tag reply st w (s\<lparr>pending := remove1 tag (pending s)\<rparr>))"
proof -
  let ?s = "s\<lparr>pending := remove1 tag (pending s)\<rparr>"
  have "dispatch (rpc_handle J A E kd secret) classes q tag ?s = (Inr (), answered K tag reply st w ?s)"
    using assms open_source.dispatch_process(1) [of ?s tag K J A E kd secret q reply st w]
      amazon_linux.dispatch_process(1) [of ?s tag K J A E kd secret q reply st w]
    by (auto simp: build_classes_def)
  then show ?thesis by (simp add: thenM_def)
qed

text \<open>
  C7: In every state the server can reach, for every class it serves exactly one object waits for
  a request of that kind, and the runtime has been asked for it: no class is ever left without a
  listener, and none gets a second one.
\<close>
theorem server_always_listens:
  assumes "server_reach (rpc_handle J A E kd secret) classes s" and "build_classes classes" and "K \<in> set classes"
  shows "\<exists>!tag. awaiting K s tag \<and> tag \<in> set (pending s)"
proof -
  from build_reach_ok [OF assms(1,2)] assms(3) have 1: "\<exists>!tag. awaiting K s tag" and
    2: "set (pending s) = dom (objects s)" by (auto simp: server_ok_def)
  from 2 have "awaiting K s tag \<Longrightarrow> tag \<in> set (pending s)" for tag by (auto simp: awaiting_def)
  with 1 show ?thesis by metis
qed

text \<open>
  C8: No call is answered twice: in every state the server can reach the answers belong to
  different calls, a call has been answered exactly when its object waits for the answer to be
  sent, and an operation is pending for exactly the objects that exist.
\<close>
theorem answered_at_most_once:
  assumes "server_reach (rpc_handle J A E kd secret) classes s" and "build_classes classes"
  shows "distinct (map fst (answers s)) \<and> distinct (pending s) \<and> set (pending s) = dom (objects s) \<and>
    (\<forall>tag K st. objects s tag = Some \<lparr>cookie = K, call_status = st\<rparr> \<longrightarrow>
       (st = FINISH \<longleftrightarrow> tag \<in> fst ` set (answers s)))"
  using build_reach_ok [OF assms] objects_okD(4) [of classes s]
  by (auto simp: server_ok_def answers_ok_def simp del: split_paired_All)

text \<open>
  C5: The server implements the service: seen from outside, every step of the running server either
  serves one request by the processing step of its class, in one action on the host with one answer,
  or changes neither the host nor the answers.
\<close>
theorem server_refines_service:
  assumes "server_reach (rpc_handle J A E kd secret) classes s" and "build_classes classes"
    and "server_step (rpc_handle J A E kd secret) classes s t"
  shows "service_step (rpc_handle J A E kd secret) classes (abs_server s) (abs_server t)"
  using build_step [OF assms] .

text \<open>
  C14: A request is answered by the processing step of its own class and by no other, although
  every event is offered to all classes: the answer and the host's state are what that step gives,
  and a new object of the class waits for the next request.
\<close>
theorem request_served_by_own_class:
  assumes "server_reach (rpc_handle J A E kd secret) classes s" and "build_classes classes" and "awaiting K s tag"
    and "rpc_handle J A E kd secret K q (host s) = (Inr (reply, st), w)"
  shows "\<exists>t. handle_event (rpc_handle J A E kd secret) classes (Ready tag q) s = (Inr (), t) \<and>
    answers t = answers s @ [(tag, reply, st)] \<and> host t = w \<and> awaiting K t (next_tag s) \<and>
    server_reach (rpc_handle J A E kd secret) classes t"
proof -
  have ok: "server_ok classes s" by (rule build_reach_ok [OF assms(1,2)])
  then have o: "objects_ok classes s" and p: "set (pending s) = dom (objects s)" by (auto simp: server_ok_def)
  note tag = objects_okD [OF o assms(3) [unfolded awaiting_def]]
  let ?t = "answered K tag reply st w (s\<lparr>pending := remove1 tag (pending s)\<rparr>)"
  have e: "handle_event (rpc_handle J A E kd secret) classes (Ready tag q) s = (Inr (), ?t)"
    by (rule build_event [OF assms(2) assms(3) [unfolded awaiting_def] tag(1,2) assms(4)])
  moreover have "tag \<in> set (pending s)" using p assms(3) by (auto simp: awaiting_def)
  then have "server_step (rpc_handle J A E kd secret) classes s ?t" using e by (rule server_step.ready)
  with assms(1) have "server_reach (rpc_handle J A E kd secret) classes ?t" by (rule server_reach.step)
  ultimately show ?thesis using tag(1) by (intro exI [of _ ?t]) (auto simp: answered_def awaiting_def)
qed

text \<open>
  C34: When an answer has been sent, the object deletes itself and the event is then offered to the
  next class in the list, which reads the deleted object: for every class but the last, the end of
  a call is a use after free.
\<close>
theorem sent_answer_use_after_free:
  assumes "server_reach (rpc_handle J A E kd secret) classes s" and "build_classes classes"
    and "objects s tag = Some \<lparr>cookie = K, call_status = FINISH\<rparr>" and "K \<noteq> last classes"
  shows "fst (handle_event (rpc_handle J A E kd secret) classes (Ready tag q) s) = Inl (Undef UseAfterFree)"
proof -
  let ?s = "s\<lparr>pending := remove1 tag (pending s)\<rparr>"
  have "objects_ok classes s" using build_reach_ok [OF assms(1,2)] by (simp add: server_ok_def)
  from objects_okD(2) [OF this assms(3)] have "K \<in> set classes" .
  then have "fst (dispatch (rpc_handle J A E kd secret) classes q tag ?s) = Inl (Undef UseAfterFree)"
    using assms(2-4) open_source.dispatch_finish [of ?s tag K J A E kd secret q]
      amazon_linux.dispatch_finish [of ?s tag K J A E kd secret q]
    by (auto simp: build_classes_def)
  then show ?thesis by (simp add: thenM_def)
qed

text \<open>
  A health check is always possible: in every state the server can reach, some waiting object
  takes the request, and one event later it has been answered with OK, the host as it was.
\<close>
theorem health_check_answered:
  assumes "server_reach (rpc_handle J A E kd secret) classes s" and "build_classes classes"
  shows "\<exists>tag t. tag \<in> set (pending s) \<and>
    handle_event (rpc_handle J A E kd secret) classes (Ready tag q) s = (Inr (), t) \<and>
    answers t = answers s @ [(tag, Status_reply ''OK'', Grpc_OK)] \<and> host t = host s"
proof -
  have ok: "server_ok classes s" by (rule build_reach_ok [OF assms])
  have "CallDataHealthCheck \<in> set classes"
    using assms(2) by (auto simp: build_classes_def open_source_classes_def amazon_linux_classes_def)
  with ok obtain tag where a: "awaiting CallDataHealthCheck s tag" by (auto simp: server_ok_def)
  from ok have o: "objects_ok classes s" and p: "set (pending s) = dom (objects s)" by (auto simp: server_ok_def)
  note tag = objects_okD [OF o a [unfolded awaiting_def]]
  have "rpc_handle J A E kd secret CallDataHealthCheck q (host s) = (Inr (Status_reply ''OK'', Grpc_OK), host s)"
    by (simp add: rpc_handle_def)
  from build_event [OF assms(2) a [unfolded awaiting_def] tag(1,2) this] p a show ?thesis
    by (intro exI [of _ tag]) (auto simp: awaiting_def answered_def)
qed

section \<open>A server at work\<close>

definition idle_input :: rpc_input where
  "idle_input = \<lparr>in_contents = [], in_user = alice_request, in_lease = ''webapp'', in_arn = web_request\<rparr>"

lemma quiet_start:
  "\<exists>s. server_reach (rpc_handle tree_json no_aws quiet_env ''/k'' []) amazon_linux_classes s \<and>
     server_ok amazon_linux_classes s"
  using start_ok [OF amazon_linux_distinct, of start_world] server_reach.start by blast

lemma health_class: "CallDataHealthCheck \<in> set amazon_linux_classes" "build_classes amazon_linux_classes"
  "CallDataHealthCheck \<noteq> last amazon_linux_classes"
  by (simp_all add: amazon_linux_classes_def open_source_classes_def build_classes_def)

lemma quiet_health:
  "rpc_handle tree_json no_aws quiet_env ''/k'' [] CallDataHealthCheck q w = (Inr (Status_reply ''OK'', Grpc_OK), w)"
  by (simp add: rpc_handle_def)

text \<open>A state in which a health check has been answered.\<close>

lemma quiet_answered:
  "\<exists>s tag. server_reach (rpc_handle tree_json no_aws quiet_env ''/k'' []) amazon_linux_classes s \<and>
     objects s tag = Some \<lparr>cookie = CallDataHealthCheck, call_status = FINISH\<rparr> \<and> answers s \<noteq> []"
proof -
  let ?h = "rpc_handle tree_json no_aws quiet_env ''/k'' []"
  obtain s where s: "server_reach ?h amazon_linux_classes s" "server_ok amazon_linux_classes s"
    using quiet_start by blast
  from s(2) health_class(1) obtain tag where a: "awaiting CallDataHealthCheck s tag" by (auto simp: server_ok_def)
  from s(2) have o: "objects_ok amazon_linux_classes s" and p: "tag \<in> set (pending s)"
    using a by (auto simp: server_ok_def awaiting_def)
  note tag = objects_okD [OF o a [unfolded awaiting_def]]
  let ?t = "answered CallDataHealthCheck tag (Status_reply ''OK'') Grpc_OK (host s) (s\<lparr>pending := remove1 tag (pending s)\<rparr>)"
  have "handle_event ?h amazon_linux_classes (Ready tag q) s = (Inr (), ?t)" for q
    by (rule build_event [OF health_class(2) a [unfolded awaiting_def] tag(1,2) quiet_health])
  then have "server_reach ?h amazon_linux_classes ?t"
    using s(1) p by (blast intro: server_reach.step server_step.ready)
  then show ?thesis by (intro exI [of _ ?t] exI [of _ tag]) (simp add: answered_def)
qed

theorem server_always_listens_witness:
  "\<exists>s tag. server_reach (rpc_handle tree_json no_aws quiet_env ''/k'' []) amazon_linux_classes s \<and>
     awaiting CallDataHealthCheck s tag \<and> tag \<in> set (pending s)"
proof -
  obtain s where s: "server_reach (rpc_handle tree_json no_aws quiet_env ''/k'' []) amazon_linux_classes s"
    using quiet_start by blast
  from server_always_listens [OF s health_class(2,1)] s show ?thesis by blast
qed

theorem answered_at_most_once_witness:
  "\<exists>s. server_reach (rpc_handle tree_json no_aws quiet_env ''/k'' []) amazon_linux_classes s \<and>
     answers s \<noteq> [] \<and> distinct (map fst (answers s))"
proof -
  obtain s tag where s: "server_reach (rpc_handle tree_json no_aws quiet_env ''/k'' []) amazon_linux_classes s"
    "answers s \<noteq> []" using quiet_answered by blast
  with answered_at_most_once [OF s(1) health_class(2)] show ?thesis by blast
qed

lemma quiet_step:
  "\<exists>s t. server_reach (rpc_handle tree_json no_aws quiet_env ''/k'' []) amazon_linux_classes s \<and>
     server_step (rpc_handle tree_json no_aws quiet_env ''/k'' []) amazon_linux_classes s t \<and>
     map snd (answers t) = map snd (answers s) @ [(Status_reply ''OK'', Grpc_OK)]"
proof -
  let ?h = "rpc_handle tree_json no_aws quiet_env ''/k'' []"
  obtain s where s: "server_reach ?h amazon_linux_classes s" "server_ok amazon_linux_classes s"
    using quiet_start by blast
  then obtain tag where a: "awaiting CallDataHealthCheck s tag"
    using health_class(1) by (auto simp: server_ok_def)
  from s(2) have o: "objects_ok amazon_linux_classes s" and p: "tag \<in> set (pending s)"
    using a by (auto simp: server_ok_def awaiting_def)
  note tag = objects_okD [OF o a [unfolded awaiting_def]]
  note e = build_event [OF health_class(2) a [unfolded awaiting_def] tag(1,2) quiet_health [of idle_input]]
  from server_step.ready [OF p e] s(1) show ?thesis by (fastforce simp: answered_def)
qed

theorem server_refines_service_witness:
  "\<exists>s t. service_step (rpc_handle tree_json no_aws quiet_env ''/k'' []) amazon_linux_classes (abs_server s) (abs_server t) \<and>
     fst (abs_server t) = fst (abs_server s) @ [(Status_reply ''OK'', Grpc_OK)]"
proof -
  obtain s t where "server_reach (rpc_handle tree_json no_aws quiet_env ''/k'' []) amazon_linux_classes s"
    "server_step (rpc_handle tree_json no_aws quiet_env ''/k'' []) amazon_linux_classes s t"
    and a: "map snd (answers t) = map snd (answers s) @ [(Status_reply ''OK'', Grpc_OK)]"
    using quiet_step by blast
  from server_refines_service [OF this(1) health_class(2) this(2)] a show ?thesis
    by (intro exI [of _ s] exI [of _ t]) (simp add: abs_server_def)
qed

theorem request_served_by_own_class_witness:
  "\<exists>s tag t. handle_event (rpc_handle tree_json no_aws quiet_env ''/k'' []) amazon_linux_classes (Ready tag idle_input) s = (Inr (), t) \<and>
     answers t = answers s @ [(tag, Status_reply ''OK'', Grpc_OK)]"
proof -
  obtain s where s: "server_reach (rpc_handle tree_json no_aws quiet_env ''/k'' []) amazon_linux_classes s"
    "server_ok amazon_linux_classes s" using quiet_start by blast
  then obtain tag where a: "awaiting CallDataHealthCheck s tag"
    using health_class(1) by (auto simp: server_ok_def)
  from request_served_by_own_class [OF s(1) health_class(2) a quiet_health [of idle_input]] show ?thesis by blast
qed

theorem sent_answer_use_after_free_witness:
  "\<exists>s tag. server_reach (rpc_handle tree_json no_aws quiet_env ''/k'' []) amazon_linux_classes s \<and>
     fst (handle_event (rpc_handle tree_json no_aws quiet_env ''/k'' []) amazon_linux_classes (Ready tag idle_input) s) =
       Inl (Undef UseAfterFree)"
proof -
  obtain s tag where s: "server_reach (rpc_handle tree_json no_aws quiet_env ''/k'' []) amazon_linux_classes s"
    "objects s tag = Some \<lparr>cookie = CallDataHealthCheck, call_status = FINISH\<rparr>" using quiet_answered by blast
  from sent_answer_use_after_free [OF s(1) health_class(2) s(2) health_class(3), where q = idle_input] s(1) show ?thesis by blast
qed

theorem health_check_answered_witness:
  "\<exists>s t tag. handle_event (rpc_handle tree_json no_aws quiet_env ''/k'' []) amazon_linux_classes (Ready tag idle_input) s = (Inr (), t) \<and>
     answers t = answers s @ [(tag, Status_reply ''OK'', Grpc_OK)]"
proof -
  obtain s where s: "server_reach (rpc_handle tree_json no_aws quiet_env ''/k'' []) amazon_linux_classes s"
    using quiet_start by blast
  from health_check_answered [OF s health_class(2), where q = idle_input] show ?thesis by blast
qed

end
