(* ===== verification/Daemon_State.thy ===== *)
theory Daemon_State
  imports World "HOL-Library.Word"
begin

text \<open>
  The daemon's global object, class \<open>Daemon\<close> of common/daemon.h, and the paths the build fixes.
  Its member \<open>cf_logger\<close> is the logger of the state the routines thread through.
\<close>

record daemon =
  watchdog_interval_usecs :: "64 word"
  krb_files_dir :: string
  cred_file :: string
  unix_socket_dir :: string
  logging_dir :: string
  daemon_domain_name :: string
  gmsa_account_name :: string
  run_diagnostic :: bool
  aws_sm_secret_name :: string
  krb_ticket_handle_interval :: "64 word"
  got_systemd_shutdown_signal :: int

text \<open>The object as its initialisers and static storage leave it: ten minutes between renewals.\<close>

definition new_daemon :: daemon where
  "new_daemon = \<lparr>watchdog_interval_usecs = 0, krb_files_dir = [], cred_file = [], unix_socket_dir = [],
     logging_dir = [], daemon_domain_name = [], gmsa_account_name = [], run_diagnostic = False,
     aws_sm_secret_name = [], krb_ticket_handle_interval = 10, got_systemd_shutdown_signal = 0\<rparr>"

text \<open>\<open>int interval = cf_daemon.krb_ticket_handle_interval;\<close>\<close>

definition interval_minutes :: "daemon \<Rightarrow> int" where
  "interval_minutes d = sint (ucast (krb_ticket_handle_interval d) :: 32 word)"

lemma new_daemon_interval: "interval_minutes new_daemon = 10"
  by (simp add: interval_minutes_def new_daemon_def)

end
