(* ===== verification/Config.thy ===== *)
theory Config
  imports Grpc_Server Daemon_State
begin

text \<open>
  The command line (configuration/src/config.cpp): \<open>print_help\<close> and \<open>parse_options\<close>, with the part of
  the C library's \<open>getopt_long\<close> they use: short options in clusters, long options with unambiguous
  abbreviations, arguments that are no options skipped.
\<close>

section \<open>getopt_long\<close>

datatype has_arg = No_argument | Required_argument

type_synonym long_option = "string \<times> has_arg \<times> char"

definition question :: char where "question = CHR ''?''"

text \<open>The entry of an option character in a string like \<open>htv:s:n\<close>.\<close>

fun short_kind :: "string \<Rightarrow> char \<Rightarrow> has_arg option" where
  "short_kind [] c = None"
| "short_kind (o1 # os) c =
     (if o1 = c \<and> c \<noteq> CHR '':'' then
        Some (if os \<noteq> [] \<and> hd os = CHR '':'' then Required_argument else No_argument)
      else short_kind os c)"

text \<open>The options in one cluster, with the arguments that follow it; the arguments left are returned.\<close>

fun short_cluster :: "string \<Rightarrow> string \<Rightarrow> string list \<Rightarrow> (char \<times> string) list \<times> string list" where
  "short_cluster optstring [] as = ([], as)"
| "short_cluster optstring (c # cs) as =
     (case short_kind optstring c of
        None \<Rightarrow> (case short_cluster optstring cs as of (r, as') \<Rightarrow> ((question, []) # r, as'))
      | Some No_argument \<Rightarrow> (case short_cluster optstring cs as of (r, as') \<Rightarrow> ((c, []) # r, as'))
      | Some Required_argument \<Rightarrow>
          if cs \<noteq> [] then ([(c, cs)], as)
          else (case as of [] \<Rightarrow> ([(question, [])], []) | a # as' \<Rightarrow> ([(c, a)], as')))"

text \<open>An exact name wins; otherwise the name must begin exactly one option.\<close>

definition long_match :: "long_option list \<Rightarrow> string \<Rightarrow> long_option option" where
  "long_match longs name =
     (case filter (\<lambda>(n, _). n = name) longs of
        o1 # _ \<Rightarrow> Some o1
      | [] \<Rightarrow> (case filter (\<lambda>(n, _). take (length name) n = name) longs of [o1] \<Rightarrow> Some o1 | _ \<Rightarrow> None))"

definition long_arg :: "long_option list \<Rightarrow> string \<Rightarrow> string list \<Rightarrow> (char \<times> string) \<times> string list" where
  "long_arg longs text as =
     (let name = takeWhile (\<lambda>c. c \<noteq> CHR ''='') text; rest = dropWhile (\<lambda>c. c \<noteq> CHR ''='') text in
      case long_match longs name of
        None \<Rightarrow> ((question, []), as)
      | Some (_, No_argument, c) \<Rightarrow> ((if rest = [] then (c, []) else (question, [])), as)
      | Some (_, Required_argument, c) \<Rightarrow>
          if rest \<noteq> [] then ((c, tl rest), as)
          else (case as of [] \<Rightarrow> ((question, []), []) | a # as' \<Rightarrow> ((c, a), as')))"

lemma short_cluster_length: "length (snd (short_cluster os cs as)) \<le> length as"
  by (induction cs) (auto split: option.splits has_arg.splits prod.splits list.splits)

lemma long_arg_length: "length (snd (long_arg longs text as)) \<le> length as"
  by (auto simp: long_arg_def Let_def split: option.splits has_arg.splits prod.splits list.splits)

text \<open>The values the calls return before -1, with what \<open>optarg\<close> points to.\<close>

function getopt_long :: "string \<Rightarrow> long_option list \<Rightarrow> string list \<Rightarrow> (char \<times> string) list" where
  "getopt_long optstring longs [] = []"
| "getopt_long optstring longs (a # as) =
     (if a = ''--'' then []
      else if take 2 a = ''--'' then
        fst (long_arg longs (drop 2 a) as) # getopt_long optstring longs (snd (long_arg longs (drop 2 a) as))
      else if take 1 a = ''-'' \<and> a \<noteq> ''-'' then
        fst (short_cluster optstring (tl a) as) @ getopt_long optstring longs (snd (short_cluster optstring (tl a) as))
      else getopt_long optstring longs as)"
  by pat_completeness auto

termination
  by (relation "measure (\<lambda>(_, _, as). length as)")
     (simp_all add: less_Suc_eq_le long_arg_length short_cluster_length)

section \<open>The options\<close>

definition optstring :: string where "optstring = ''htv:s:n''"

definition long_options :: "long_option list" where
  "long_options = [(''help'', No_argument, CHR ''h''), (''self_test'', No_argument, CHR ''t''),
     (''verbosity'', Required_argument, CHR ''v''), (''aws_sm_secret_name'', Required_argument, CHR ''s''),
     (''version'', No_argument, CHR ''n''), (''healthcheck'', No_argument, CHR ''c'')]"

definition options_descriptions :: "(string \<times> string) list" where
  "options_descriptions = [(''help'', ''produce help message''), (''self_test'', ''Run tests such as utf16 decode''),
     (''verbosity'', ''set verbosity level''),
     (''aws_sm_secret_name'', ''Name of secret containing username/password in AWS Secrets '' @
        ''Manager (in same region)''),
     (''healthcheck'', ''health of credentials-fetcher''), (''version'', ''Version of credentials-fetcher'')]"

definition DEFAULT_CRED_FILE_LEASE_ID :: string where "DEFAULT_CRED_FILE_LEASE_ID = ''credspec''"

section \<open>The help text\<close>

definition tab :: char where "tab = CHR 0x09"

definition option_length :: "long_option \<Rightarrow> nat" where
  "option_length opt = (case opt of (name, k, _) \<Rightarrow> length name + (if k = Required_argument then 5 else 2))"

definition max_option_length :: "long_option list \<Rightarrow> nat" where
  "max_option_length table = foldl (\<lambda>m opt. if m < option_length opt then option_length opt else m) 0 table"

text \<open>\<open>std::left << std::setw( n )\<close> pads on the right and never cuts.\<close>

definition setw_left :: "nat \<Rightarrow> string \<Rightarrow> string" where
  "setw_left n s = s @ replicate (n - length s) CHR '' ''"

definition option_line :: "(string \<times> string) list \<Rightarrow> nat \<Rightarrow> long_option \<Rightarrow> string" where
  "option_line descriptions n opt =
     (let name = fst opt;
          description = (case map_of descriptions name of None \<Rightarrow> name | Some d \<Rightarrow> d)
      in ''  '' @ setw_left n (''--'' @ name) @ [tab] @ description @ [newline])"

definition help_header :: string where
  "help_header = ''Usage: '' @ [newline] @ ''Runtime Environment Variables:'' @ [newline] @
     ''CF_CRED_SPEC_FILE=<credential spec file>:<optional lease_id>'' @ [newline] @
     [tab] @ ''<credential spec file>'' @ [tab] @ ''Set to a path of a json credential file.'' @ [newline] @
     [tab] @ ''<optional lease_id>'' @ [tab] @
     ''Use an optional colon followed by a lease identifier (Default: '' @ DEFAULT_CRED_FILE_LEASE_ID @ '')'' @
     [newline] @ [newline] @ ''Allowed options'' @ [newline]"

definition print_help :: "long_option list \<Rightarrow> (string \<times> string) list \<Rightarrow> string" where
  "print_help table descriptions =
     help_header @ concat (map (option_line descriptions (max_option_length table)) table)"

section \<open>parse_options\<close>



definition run_with_help :: string where "run_with_help = ''Run with --help to see options'' @ [newline]"

text \<open>
  The loop over the options: the text printed, the status with which it returns early if it does,
  and the daemon object. \<open>version\<close> is the project's version, \<open>health\<close> what \<open>HealthCheck\<close> returns.
\<close>

fun option_loop :: "string \<Rightarrow> int \<Rightarrow> (char \<times> string) list \<Rightarrow> string \<Rightarrow> daemon \<Rightarrow> (string \<times> int option \<times> daemon) WM" where
  "option_loop version health [] out d = ret (out, None, d)"
| "option_loop version health ((opt, optarg) # given) out d =
     (if opt = CHR ''h'' then
        ret (out @ print_help long_options options_descriptions, Some EXIT_FAILURE, d)
      else if opt = CHR ''t'' then
        option_loop version health given (out @ ''run diagnostic set'' @ [newline]) (d\<lparr>run_diagnostic := True\<rparr>)
      else if opt = CHR ''v'' then option_loop version health given out d
      else if opt = CHR ''s'' then option_loop version health given out (d\<lparr>aws_sm_secret_name := optarg\<rparr>)
      else if opt = CHR ''n'' then ret (out @ version @ [newline], Some EXIT_FAILURE, d)
      else if opt = CHR ''c'' then raise (Exit (if health \<noteq> 0 then EXIT_FAILURE else EXIT_SUCCESS))
      else ret (out @ run_with_help, Some EXIT_FAILURE, d))"

definition domainless_gmsa_field :: string where
  "domainless_gmsa_field = ''CREDENTIALS_FETCHER_SECRET_NAME_FOR_DOMAINLESS_GMSA''"

definition parse_options ::
    "(string \<Rightarrow> string outcome) \<Rightarrow> string \<Rightarrow> string list \<Rightarrow> daemon \<Rightarrow> (string \<times> int \<times> daemon) WM" where
  "parse_options stub version args cf_daemon =
     catchM
       (bindM (option_loop version (HealthCheck stub ''test'') (getopt_long optstring long_options args) [] cf_daemon)
         (\<lambda>(out, early, d).
           case early of
             Some status \<Rightarrow> ret (out, status, d)
           | None \<Rightarrow>
               if aws_sm_secret_name d = [] then
                 bindM (retrieve_variable_from_ecs_config domainless_gmsa_field) (\<lambda>name.
                   ret (out, EXIT_SUCCESS, d\<lparr>aws_sm_secret_name := name\<rparr>))
               else ret (out, EXIT_SUCCESS, d)))
       (\<lambda>ex. ret (run_with_help, EXIT_FAILURE, cf_daemon))"

section \<open>Reading the command line\<close>

lemma fold_max_ge: "x \<le> foldl (\<lambda>m opt. if m < option_length opt then option_length opt else m) x table"
proof (induction table arbitrary: x)
  case (Cons o1 table)
  have "x \<le> (if x < option_length o1 then option_length o1 else x)" by simp
  also have "\<dots> \<le> foldl (\<lambda>m opt. if m < option_length opt then option_length opt else m)
      (if x < option_length o1 then option_length o1 else x) table" by (rule Cons.IH)
  finally show ?case by simp
qed simp

lemma fold_max_upper:
  "opt \<in> set table \<Longrightarrow> option_length opt \<le> foldl (\<lambda>m opt. if m < option_length opt then option_length opt else m) x table"
proof (induction table arbitrary: x)
  case (Cons o1 table)
  show ?case
  proof (cases "opt = o1")
    case True
    have "option_length o1 \<le> (if x < option_length o1 then option_length o1 else x)" by simp
    also have "\<dots> \<le> foldl (\<lambda>m opt. if m < option_length opt then option_length opt else m)
        (if x < option_length o1 then option_length o1 else x) table" by (rule fold_max_ge)
    finally show ?thesis using True by simp
  qed (use Cons in auto)
qed simp

text \<open>
  The help text is aligned: whatever the table of options, in every line the description starts in
  the same column, after the option's name and one tab.
\<close>
theorem help_is_aligned:
  assumes "opt \<in> set table"
  shows "\<exists>pad description. option_line descriptions (max_option_length table) opt =
      ''  --'' @ fst opt @ pad @ [tab] @ description @ [newline] \<and> set pad \<subseteq> {CHR '' ''} \<and>
      length (''  --'' @ fst opt @ pad) = 2 + max_option_length table"
proof -
  have "length (fst opt) + 2 \<le> option_length opt" by (cases opt) (auto simp: option_length_def)
  also have "\<dots> \<le> max_option_length table"
    unfolding max_option_length_def by (rule fold_max_upper [OF assms])
  finally have l: "length (fst opt) + 2 \<le> max_option_length table" .
  let ?pad = "replicate (max_option_length table - length (''--'' @ fst opt)) CHR '' ''"
  show ?thesis
    using l by (intro exI [of _ ?pad] exI) (auto simp: option_line_def setw_left_def Let_def)
qed

theorem help_is_aligned_witness:
  "\<exists>pad description. option_line options_descriptions (max_option_length long_options)
       (''help'', No_argument, CHR ''h'') = ''  --help'' @ pad @ [tab] @ description @ [newline] \<and>
     length (''  --help'' @ pad) = 2 + max_option_length long_options"
  using help_is_aligned [of "(''help'', No_argument, CHR ''h'')" long_options options_descriptions]
  by (auto simp: long_options_def)

text \<open>
  The option of the secret's name is read exactly, whatever the name: \<open>--aws_sm_secret_name=NAME\<close> and
  \<open>-s NAME\<close> give the daemon \<open>NAME\<close>, and the arguments that follow are parsed as if it were not there.
\<close>
theorem secret_option_exact:
  "getopt_long optstring long_options ((''--aws_sm_secret_name='' @ name) # args) =
     (CHR ''s'', name) # getopt_long optstring long_options args \<and>
   getopt_long optstring long_options (''-s'' # name # args) =
     (CHR ''s'', name) # getopt_long optstring long_options args"
proof -
  have "takeWhile (\<lambda>c. c \<noteq> CHR ''='') (''aws_sm_secret_name='' @ name) = ''aws_sm_secret_name''"
    "dropWhile (\<lambda>c. c \<noteq> CHR ''='') (''aws_sm_secret_name='' @ name) = CHR ''='' # name"
    by simp_all
  then have 1: "long_arg long_options (''aws_sm_secret_name='' @ name) args = ((CHR ''s'', name), args)"
    by (simp add: long_arg_def Let_def long_match_def long_options_def)
  have 2: "short_cluster optstring ''s'' (name # args) = ([(CHR ''s'', name)], args)"
    by (simp add: optstring_def)
  from 1 2 show ?thesis by simp
qed

lemma option_loop_result:
  assumes "option_loop version health given out d w = (Inr (text, early, d'), w')"
  shows "w' = w \<and> early \<in> {None, Some EXIT_FAILURE} \<and>
    (early = None \<longrightarrow> set (map fst given) \<subseteq> {CHR ''t'', CHR ''v'', CHR ''s''} \<and>
      d' = d\<lparr>run_diagnostic := run_diagnostic d \<or> CHR ''t'' \<in> set (map fst given),
             aws_sm_secret_name := last (aws_sm_secret_name d # map snd (filter (\<lambda>(c, _). c = CHR ''s'') given))\<rparr>)"
  using assms
proof (induction given arbitrary: out d)
  case (Cons g given)
  obtain opt optarg where g: "g = (opt, optarg)" by force
  consider "opt = CHR ''t''" | "opt = CHR ''v''" | "opt = CHR ''s''" |
    "opt \<noteq> CHR ''t''" "opt \<noteq> CHR ''v''" "opt \<noteq> CHR ''s''" by blast
  then show ?case
  proof cases
    case 1
    with Cons.IH [of "out @ ''run diagnostic set'' @ [newline]" "d\<lparr>run_diagnostic := True\<rparr>"] Cons.prems
    show ?thesis by (simp add: g)
  next
    case 2
    with Cons.IH [of out d] Cons.prems show ?thesis by (simp add: g)
  next
    case 3
    with Cons.IH [of out "d\<lparr>aws_sm_secret_name := optarg\<rparr>"] Cons.prems show ?thesis
      by (simp add: g)
  next
    case 4
    with Cons.prems show ?thesis by (auto simp: g split: if_splits)
  qed
qed (auto split: option.splits)

lemma option_loop_fault:
  "option_loop version health given out d w = (Inl e, w') \<Longrightarrow> \<exists>n. e = Exit n"
  by (induction given arbitrary: out d) (auto split: if_splits)

text \<open>
  C21: What a start of the daemon makes of its command line: the status is 0 or 1, and it is 0 only when
  nothing but \<open>-t\<close>, \<open>-v\<close> and \<open>-s\<close> was given; then the object differs from the one passed in at most in
  the self-test flag and the secret's name, the last name on the command line wins over the others,
  and with no name or an empty one the entry of the ECS configuration is taken.
\<close>
theorem parse_options_result:
  assumes "parse_options stub version args d w = (Inr (text, status, d'), w')"
  shows "wfs w' = wfs w \<and> (status = 0 \<or> status = 1) \<and>
    (status = 0 \<longrightarrow>
       (let given = getopt_long optstring long_options args;
            name = last (aws_sm_secret_name d # map snd (filter (\<lambda>(c, _). c = CHR ''s'') given))
        in set (map fst given) \<subseteq> {CHR ''t'', CHR ''v'', CHR ''s''} \<and>
           d' = d\<lparr>run_diagnostic := run_diagnostic d \<or> CHR ''t'' \<in> set (map fst given),
             aws_sm_secret_name := (if name \<noteq> [] then name
               else case read_file ecs_config_file_name (wfs w) of None \<Rightarrow> []
                    | Some c \<Rightarrow> ecs_lookup domainless_gmsa_field (getlines newline c))\<rparr>))"
proof -
  obtain given where g: "getopt_long optstring long_options args = given" by simp
  obtain h where h: "HealthCheck stub ''test'' = h" by simp
  obtain r w1 where l: "option_loop version h given [] d w = (r, w1)" by force
  show ?thesis
  proof (cases r)
    case (Inl e)
    with option_loop_fault l obtain n where "r = Inl (Exit n)" by blast
    with assms l have False by (simp add: parse_options_def g h catchM_def bindM_apply)
    then show ?thesis by simp
  next
    case (Inr v)
    obtain out early d1 where v: "v = (out, early, d1)" by (cases v) auto
    from l have l: "option_loop version h given [] d w = (Inr (out, early, d1), w1)" by (simp add: Inr v)
    note r = option_loop_result [OF l]
    show ?thesis
    proof (cases early)
      case None
      with assms r l show ?thesis
        by (cases "aws_sm_secret_name d1 = []")
           (simp_all add: parse_options_def g h catchM_def bindM_apply retrieve_variable_from_ecs_config_def
            EXIT_SUCCESS_def Let_def, auto)
    next
      case (Some st)
      with assms r l show ?thesis
        by (auto simp: parse_options_def g h catchM_def bindM_apply EXIT_FAILURE_def)
    qed
  qed
qed

theorem parse_options_result_witness:
  "\<exists>d' w'. parse_options (\<lambda>_. Failure) ''1.3.6'' [''-t'', ''--aws_sm_secret_name=gmsa''] new_daemon start_world =
     (Inr (''run diagnostic set'' @ [newline], 0, d'), w') \<and> aws_sm_secret_name d' = ''gmsa'' \<and> run_diagnostic d'"
proof -
  let ?run = "parse_options (\<lambda>_. Failure) ''1.3.6'' [''-t'', ''--aws_sm_secret_name=gmsa''] new_daemon start_world"
  have g: "getopt_long optstring long_options [''-t'', ''--aws_sm_secret_name=gmsa''] =
      [(CHR ''t'', []), (CHR ''s'', ''gmsa'')]"
    by code_simp
  obtain d' where r: "?run = (Inr (''run diagnostic set'' @ [newline], 0, d'), start_world)"
    by (simp add: parse_options_def g catchM_def bindM_apply EXIT_SUCCESS_def del: getopt_long.simps)
  from parse_options_result [OF r] have "aws_sm_secret_name d' = ''gmsa'' \<and> run_diagnostic d'"
    by (simp add: g Let_def del: getopt_long.simps)
  with r show ?thesis by blast
qed

text \<open>
  The verbosity option, documented as setting the level, has no effect: the loop does with a list of
  options what it does with the list without it.
\<close>
theorem verbosity_has_no_effect:
  "option_loop version health given out d w =
   option_loop version health (filter (\<lambda>(c, _). c \<noteq> CHR ''v'') given) out d w"
  by (induction given arbitrary: out d) auto

end
