(* ===== verification/Renewal.thy ===== *)
theory Renewal
  imports Krb Daemon_State
begin

text \<open>
  The renewal thread (renewal/src/renewal.cpp): \<open>krb_ticket_renew_handler\<close> sleeps, looks for
  metadata files, and renews the tickets of domain-joined leases that are about to expire. It gets
  the daemon object by value and copies the logger once more: the state's logger is the local copy
  of this thread, the parameter's own copy is passed along separately.
\<close>

section \<open>One ticket\<close>

definition secret_user_marker :: string where "secret_user_marker = ''awsdomainlessusersecret''"

definition uses_secret :: "string \<Rightarrow> bool" where
  "uses_secret user \<longleftrightarrow> find_sub secret_user_marker user \<noteq> None"

text \<open>
  \<open>int pos = find( ":" ); substr( pos + 1 )\<close>: with no colon \<open>npos\<close> becomes -1 and the whole string is
  taken.
\<close>

definition secret_name :: "string \<Rightarrow> string" where
  "secret_name user = (case find_char CHR '':'' user of None \<Rightarrow> user | Some pos \<Rightarrow> drop (pos + 1) user)"

text \<open>A check that logs through another logger than the state's.\<close>

definition with_logger :: "cf_logger \<Rightarrow> 'a WM \<Rightarrow> ('a \<times> cf_logger) WM" where
  "with_logger lg m = (\<lambda>w. case m (w\<lparr>wlog := lg\<rparr>) of
       (Inl e, w') \<Rightarrow> (Inl e, w'\<lparr>wlog := wlog w\<rparr>)
     | (Inr x, w') \<Rightarrow> (Inr (x, wlog w'), w'\<lparr>wlog := wlog w\<rparr>))"

definition refresh_host_ticket :: "'j jsonlib \<Rightarrow> env \<Rightarrow> string \<Rightarrow> krb_ticket_info \<Rightarrow> (int \<times> string) WM" where
  "refresh_host_ticket J E domainless t =
     (if uses_secret domainless then
        generate_krb_ticket_using_secret_vault J E (domain_name t) (secret_name domainless)
      else generate_krb_ticket_from_machine_keytab E (domain_name t))"

text \<open>
  The retry loop, with the rounds that are left. A fetch that succeeds lets the loop run on; after a
  fetch that fails the loop ends when the host's ticket could be refreshed and goes on when not.
\<close>

fun joined_attempts ::
    "'j jsonlib \<Rightarrow> env \<Rightarrow> string \<Rightarrow> string \<Rightarrow> nat \<Rightarrow> krb_ticket_info \<Rightarrow> krb_ticket_info WM" where
  "joined_attempts J E krb_cc_name domainless 0 t = ret t"
| "joined_attempts J E krb_cc_name domainless (Suc n) t =
     bindM (fetch_gmsa_password_and_create_krb_ticket E (domain_name t) t krb_cc_name) (\<lambda>(res, t').
     if fst res \<noteq> 0 then
       thenM (logger E LOG_ERR (''ERROR: Cannot get gMSA krb ticket using account '' @ service_account_name t'))
      (bindM (refresh_host_ticket J E domainless t') (\<lambda>status.
         if fst status < 0 then
           thenM (logger E LOG_ERR (''Error '' @ to_string (fst status) @ '': Cannot get machine krb ticket''))
             (joined_attempts J E krb_cc_name domainless n t')
         else ret t'))
     else joined_attempts J E krb_cc_name domainless n t')"

text \<open>The parameter's logger goes in and comes out; \<open>num_retries\<close> is 1, so there are two rounds.\<close>

definition renew_joined_ticket ::
    "'j jsonlib \<Rightarrow> env \<Rightarrow> cf_logger \<Rightarrow> krb_ticket_info \<Rightarrow> cf_logger WM" where
  "renew_joined_ticket J E lg t =
     bindM (if domainless_user t = [] \<or> uses_secret (domainless_user t) then
              with_logger lg (is_ticket_ready_for_renewal E t)
            else ret (False, lg)) (\<lambda>(ready, lg').
       thenM (if ready then
                bindM (joined_attempts J E (krb_file_path t) (domainless_user t) 2 t) (\<lambda>_. ret ())
              else logger E LOG_INFO (''gMSA ticket is at '' @ krb_file_path t))
         (ret lg'))"

section \<open>Rounds\<close>

definition renewal_round ::
    "'j jsonlib \<Rightarrow> env \<Rightarrow> int \<Rightarrow> string \<Rightarrow> cf_logger \<Rightarrow> cf_logger WM" where
  "renewal_round J E interval krbdir lg =
     thenM (modM (\<lambda>w. w\<lparr>evs := Slept (nat (60 * interval)) # evs w\<rparr>))
    (bindM (get_meta_data_file_paths krbdir) (\<lambda>metadatafiles.
       foldM (\<lambda>lg file_path.
           bindM (read_meta_data_json J file_path) (\<lambda>ts. foldM (renew_joined_ticket J E) lg ts))
         lg metadatafiles))"

text \<open>What the handler of \<open>std::exception\<close> does; \<open>what\<close> is the library's text of an exception.\<close>

definition report_renewal_failure :: "env \<Rightarrow> (cpp_exn \<Rightarrow> string) \<Rightarrow> cpp_exn \<Rightarrow> unit WM" where
  "report_renewal_failure E what ex =
     bindM (getCurrentTime E) (\<lambda>tm.
     thenM (logger E LOG_ERR (tm @ [CHR 0x09] @ ''ERROR: '' @ squote @ what ex @ squote @ ''!'' @ [newline]))
    (bindM (getCurrentTime E) (\<lambda>tm'.
       logger E LOG_ERR (tm' @ [CHR 0x09] @ ''ERROR: failed to run ticket renewal''))))"

text \<open>
  The loop, \<open>None\<close> when it is still running after so many rounds. Its condition reads the thread's
  copy of the daemon object.
\<close>

fun renewal_loop ::
    "'j jsonlib \<Rightarrow> env \<Rightarrow> (cpp_exn \<Rightarrow> string) \<Rightarrow> daemon \<Rightarrow> nat \<Rightarrow> cf_logger \<Rightarrow> int option WM" where
  "renewal_loop J E what d 0 lg = (if got_systemd_shutdown_signal d \<noteq> 0 then ret (Some (-1)) else ret None)"
| "renewal_loop J E what d (Suc n) lg =
     (if got_systemd_shutdown_signal d \<noteq> 0 then ret (Some (-1))
      else
        bindM (catchM (bindM (renewal_round J E (interval_minutes d) (krb_files_dir d) lg) (\<lambda>lg'. ret (Some lg')))
                 (\<lambda>ex. thenM (report_renewal_failure E what ex) (ret None)))
          (\<lambda>r. case r of None \<Rightarrow> ret (Some (-1)) | Some lg' \<Rightarrow> renewal_loop J E what d n lg'))"

text \<open>The local logger dies with the call.\<close>

definition krb_ticket_renew_handler ::
    "'j jsonlib \<Rightarrow> env \<Rightarrow> (cpp_exn \<Rightarrow> string) \<Rightarrow> nat \<Rightarrow> daemon \<Rightarrow> int option WM" where
  "krb_ticket_renew_handler J E what rounds d =
     (if krb_files_dir d = [] then ret (Some (-1))
      else (\<lambda>w. case renewal_loop J E what d rounds (wlog w) w of (r, w') \<Rightarrow> (r, w'\<lparr>wlog := wlog w\<rparr>)))"

section \<open>Which tickets, and how often\<close>

lemma joined_attempts_fetch:
  assumes "fetch_gmsa_password_and_create_krb_ticket E (domain_name t) t cc w = (Inr ((0, m), t1), w1)"
  shows "joined_attempts J E cc u (Suc n) t w = joined_attempts J E cc u n t1 w1"
  using assms by (simp add: bindM_apply)

text \<open>
  A renewal that succeeds is done again: the loop that is meant to retry a failure goes on after a
  success, and the next thing it does is to fetch the password and make the ticket once more.
\<close>
theorem renewal_repeats_success:
  assumes "fetch_gmsa_password_and_create_krb_ticket E (domain_name t) t cc w = (Inr ((0, m), t1), w1)"
  shows "\<exists>rest. joined_attempts J E cc u 2 t w =
    bindM (fetch_gmsa_password_and_create_krb_ticket E (domain_name t1) t1 cc) rest w1"
  unfolding numeral_2_eq_2 joined_attempts_fetch [OF assms] by (intro exI) (simp only: joined_attempts.simps)

text \<open>
  C39: A renewal that fails because the host's own ticket has expired is not retried: once the host's
  ticket has been refreshed the loop ends, with no new ticket for the account.
\<close>
theorem renewal_not_retried_after_refresh:
  assumes "fetch_gmsa_password_and_create_krb_ticket E (domain_name t) t cc w = (Inr ((c, m), t1), w1)" and "c \<noteq> 0"
    and "logger E LOG_ERR (''ERROR: Cannot get gMSA krb ticket using account '' @ service_account_name t1) w1 = (Inr (), w2)"
    and "refresh_host_ticket J E u t1 w2 = (Inr (status, text), w3)" and "0 \<le> status"
  shows "joined_attempts J E cc u 2 t w = (Inr t1, w3)"
  using assms by (simp add: numeral_2_eq_2 bindM_apply thenM_def)

text \<open>
  The thread leaves the tickets of domainless leases alone: a ticket with a domainless user that is
  no secret of the host is not looked at, only logged.
\<close>
theorem renewal_skips_user_tickets:
  assumes "domainless_user t \<noteq> []" and "\<not> uses_secret (domainless_user t)"
  shows "renew_joined_ticket J E lg t w =
    thenM (logger E LOG_INFO (''gMSA ticket is at '' @ krb_file_path t)) (ret lg) w"
  using assms by (simp add: renew_joined_ticket_def)

section \<open>The life of the thread\<close>

lemma renewal_loop_ends:
  assumes "renewal_loop J E what d n lg w = (Inr (Some v), w')"
  shows "v = -1 \<and> (got_systemd_shutdown_signal d \<noteq> 0 \<or>
    (\<exists>lg1 w1 ex w2. renewal_round J E (interval_minutes d) (krb_files_dir d) lg1 w1 = (Inl (Throw ex), w2)))"
  using assms
proof (induction n arbitrary: lg w)
  case (Suc n)
  show ?case
  proof (cases "got_systemd_shutdown_signal d \<noteq> 0")
    case False
    let ?round = "renewal_round J E (interval_minutes d) (krb_files_dir d) lg"
    show ?thesis
    proof (cases "?round w")
      case (Pair r w1)
      show ?thesis
      proof (cases r)
        case (Inr lg')
        with Pair Suc.prems False have "renewal_loop J E what d n lg' w1 = (Inr (Some v), w')"
          by (simp add: bindM_apply)
        with Suc.IH show ?thesis by blast
      next
        case (Inl e)
        with Pair Suc.prems False obtain ex where "e = Throw ex"
          by (cases e) (simp_all add: bindM_apply catchM_def)
        with Pair Inl Suc.prems False show ?thesis
          by (auto simp: bindM_eq_Inr catchM_def thenM_eq_Inr)
      qed
    qed
  qed (use Suc.prems in simp)
qed (auto split: if_splits)


lemma no_metadata_round:
  assumes "files_below dir (wfs w) = Inr files" and "\<forall>(parent, name) \<in> set files. find_sub ''_metadata'' name = None"
  shows "renewal_round J E i dir lg w = (Inr lg, w\<lparr>evs := Slept (nat (60 * i)) # evs w\<rparr>)"
proof -
  have "filter (\<lambda>(_, filename). filename \<noteq> [] \<and> find_sub ''_metadata'' filename \<noteq> None) files = []"
    using assms(2) by (auto simp: filter_empty_conv)
  with assms(1) show ?thesis
    by (simp add: renewal_round_def thenM_def get_meta_data_file_paths_def bindM_apply)
qed

text \<open>
  C23: While there are no leases the thread sleeps for ever: whatever number of rounds it is given, it is
  still running after them, has slept the interval in each and has done nothing else.
\<close>
theorem idle_renewal_never_returns:
  assumes "krb_files_dir d \<noteq> []" and "got_systemd_shutdown_signal d = 0"
    and "files_below (krb_files_dir d) (wfs w) = Inr files"
    and "\<forall>(parent, name) \<in> set files. find_sub ''_metadata'' name = None"
  shows "krb_ticket_renew_handler J E what n d w =
    (Inr None, w\<lparr>evs := replicate n (Slept (nat (60 * interval_minutes d))) @ evs w\<rparr>)"
proof -
  let ?z = "Slept (nat (60 * interval_minutes d))"
  have "renewal_loop J E what d n lg w1 = (Inr None, w1\<lparr>evs := replicate n ?z @ evs w1\<rparr>)"
    if "wfs w1 = wfs w" for lg w1
    using that
  proof (induction n arbitrary: lg w1)
    case (Suc n)
    have "renewal_round J E (interval_minutes d) (krb_files_dir d) lg w1 = (Inr lg, w1\<lparr>evs := ?z # evs w1\<rparr>)"
      using assms(3,4) Suc.prems by (intro no_metadata_round) auto
    with Suc.IH [of "w1\<lparr>evs := ?z # evs w1\<rparr>" lg] Suc.prems assms(2) show ?case
      by (simp add: bindM_apply replicate_app_Cons_same)
  qed (use assms(2) in simp)
  from this [of w "wlog w"] assms(1) show ?thesis
    by (simp add: krb_ticket_renew_handler_def)
qed

lemma report_returns:
  assumes "log_writable E" and "log_ok w"
  shows "\<exists>w'. report_renewal_failure E what ex w = (Inr (), w') \<and> wfs w' = wfs w"
proof -
  have "runs (\<lambda>v. log_ok v \<and> wfs v = wfs w) (report_renewal_failure E what ex)"
    unfolding report_renewal_failure_def getCurrentTime_def
    by (intro runs_intros runs_logger assms(1)) simp_all
  from runsD [OF this, of w] assms(2) show ?thesis by auto
qed

lemma missing_directory_run:
  assumes "krb_files_dir d \<noteq> []" and "got_systemd_shutdown_signal d = 0"
    and "case resolve (wfs w) (krb_files_dir d) of None \<Rightarrow> True | Some l \<Rightarrow> \<not> is_dir_at (wfs w) l" and "log_writable E" and "log_ok w" and "0 < n"
  shows "\<exists>w'. krb_ticket_renew_handler J E what n d w = (Inr (Some (-1)), w') \<and> wfs w' = wfs w"
proof -
  obtain k where n: "n = Suc k" using assms(6) by (cases n) auto
  let ?w = "w\<lparr>evs := Slept (nat (60 * interval_minutes d)) # evs w\<rparr>"
  have "renewal_round J E (interval_minutes d) (krb_files_dir d) (wlog w) w =
      (Inl (Throw (Fs_error (krb_files_dir d))), ?w)"
    using assms(3) by (simp add: renewal_round_def thenM_def get_meta_data_file_paths_def files_below_def bindM_apply split: option.splits)
  moreover have "log_ok ?w" using assms(5) by (simp add: log_ok_def)
  with report_returns [OF assms(4)] obtain w' where
    "report_renewal_failure E what (Fs_error (krb_files_dir d)) ?w = (Inr (), w')" "wfs w' = wfs w" by fastforce
  ultimately show ?thesis
    using assms(1,2) by (simp add: krb_ticket_renew_handler_def n bindM_apply catchM_def thenM_def)
qed

text \<open>
  The first exception ends the thread for good: when the ticket directory is missing, which throws
  in the iterator, the handler sleeps once, logs twice and returns -1, and no ticket is renewed
  again although the daemon runs on.
\<close>
theorem missing_directory_ends_renewal:
  assumes "krb_files_dir d \<noteq> []" and "got_systemd_shutdown_signal d = 0"
    and "case resolve (wfs w) (krb_files_dir d) of None \<Rightarrow> True | Some l \<Rightarrow> \<not> is_dir_at (wfs w) l" and "log_writable E" and "log_ok w" and "0 < n"
  shows "\<exists>w'. krb_ticket_renew_handler J E what n d w = (Inr (Some (-1)), w') \<and> wfs w' = wfs w"
  using assms by (rule missing_directory_run)

section \<open>The theorems at work\<close>

definition root_daemon :: daemon where "root_daemon = new_daemon\<lparr>krb_files_dir := ''/''\<rparr>"

definition lost_daemon :: daemon where "lost_daemon = new_daemon\<lparr>krb_files_dir := ''/k''\<rparr>"

theorem idle_renewal_never_returns_witness:
  "fst (krb_ticket_renew_handler tree_json quiet_env (\<lambda>_. []) 1000 root_daemon start_world) = Inr None"
proof -
  have r: "resolve [] ''/'' = Some []" by code_simp
  have d: "krb_files_dir root_daemon \<noteq> []" "got_systemd_shutdown_signal root_daemon = 0"
    by (simp_all add: root_daemon_def new_daemon_def)
  have "files_below (krb_files_dir root_daemon) (wfs start_world) = Inr []"
    using r by (simp add: files_below_def start_world_def root_daemon_def)
  from idle_renewal_never_returns [OF d this, of tree_json quiet_env "\<lambda>_. []" 1000] show ?thesis by simp
qed

lemma lost_daemon_directory:
  "krb_files_dir lost_daemon \<noteq> []" "got_systemd_shutdown_signal lost_daemon = 0"
  "case resolve (wfs start_world) (krb_files_dir lost_daemon) of None \<Rightarrow> True
     | Some l \<Rightarrow> \<not> is_dir_at (wfs start_world) l" "log_writable quiet_env" "log_ok start_world"
  subgoal by (simp add: lost_daemon_def)
  subgoal by (simp add: lost_daemon_def new_daemon_def)
  subgoal by code_simp
  subgoal by (simp add: quiet_env_def)
  subgoal by (simp add: log_ok_def start_world_def init_logger_def log_ring_size_def)
  done

theorem missing_directory_ends_renewal_witness:
  "fst (krb_ticket_renew_handler tree_json quiet_env (\<lambda>_. []) 1 lost_daemon start_world) = Inr (Some (-1))"
  using missing_directory_ends_renewal [OF lost_daemon_directory, of 1 tree_json "\<lambda>_. []"] by auto


theorem renewal_skips_user_tickets_witness:
  "renew_joined_ticket tree_json quiet_env init_logger (new_krb_ticket_info\<lparr>domainless_user := ''alice''\<rparr>) start_world =
     thenM (logger quiet_env LOG_INFO ''gMSA ticket is at '') (ret init_logger) start_world"
proof -
  let ?t = "new_krb_ticket_info\<lparr>domainless_user := ''alice''\<rparr>"
  have "domainless_user ?t \<noteq> []" "\<not> uses_secret (domainless_user ?t)" by (simp, code_simp)
  from renewal_skips_user_tickets [OF this, of tree_json quiet_env init_logger start_world]
  show ?thesis by (simp add: new_krb_ticket_info_def)
qed

theorem renewal_repeats_success_witness:
  "\<exists>w1 rest. joined_attempts tree_json gmsa_env ''/cc'' [] 2 gmsa_ticket gmsa_world =
     bindM (fetch_gmsa_password_and_create_krb_ticket gmsa_env ''c'' gmsa_ticket ''/cc'') rest w1"
proof -
  have t: "domain_name gmsa_ticket = ''c''" by (simp add: gmsa_ticket_def)
  obtain w1 where "fetch_gmsa_password_and_create_krb_ticket gmsa_env (domain_name gmsa_ticket) gmsa_ticket ''/cc'' gmsa_world =
      (Inr ((0, ''/cc''), gmsa_ticket), w1)"
    using gmsa_env_fetch unfolding t by (metis prod.collapse)
  from renewal_repeats_success [OF this, of tree_json "[]"] show ?thesis unfolding t by blast
qed

text \<open>A ticket whose account is unknown, on a host whose own ticket can be refreshed.\<close>

definition nameless_ticket :: krb_ticket_info where
  "nameless_ticket = new_krb_ticket_info\<lparr>krb_file_path := ''/cc'', domain_name := ''c''\<rparr>"

lemma lost_host_kinit:
  "\<exists>e. execute_kinit_in_domain_joined_case lost_host_env [] w = (Inr (0, []), w\<lparr>evs := e # evs w\<rparr>)"
proof -
  have "c_str ''kinit -kt /etc/krb5.keytab '' \<noteq> c_str realm_list_cmd"
    "c_str ''kinit -kt /etc/krb5.keytab '' \<noteq> c_str domain_list_cmd"
    "take 6 (c_str ''kinit -kt /etc/krb5.keytab '') \<noteq> ''which ''"
    "read_output [] = []" "upcase [] = []"
    by code_simp+
  then show ?thesis
    by (simp add: execute_kinit_in_domain_joined_case_def exec_shell_cmd_def lost_host_env_def tools_env_def
        quiet_env_def Let_def) blast
qed

lemma lost_host_refresh:
  assumes "wfs w = wfs joined_world"
  shows "\<exists>w'. refresh_host_ticket tree_json lost_host_env [] t w = (Inr (0, []), w')"
proof -
  have m: "get_machine_principal lost_host_env d v = (Inr (- 1, []), v)" for d v
    by (simp add: get_machine_principal_def lost_host_env_def)
  have n: "\<not> uses_secret []" by code_simp
  obtain e where "\<And>v. execute_kinit_in_domain_joined_case lost_host_env [] v = (Inr (0, []), v\<lparr>evs := e v # evs v\<rparr>)"
    using lost_host_kinit by metis
  then show ?thesis
    using assms by (simp add: refresh_host_ticket_def n generate_krb_ticket_from_machine_keytab_def
        lost_host_tools m guard_tool_def bindM_apply)
qed

theorem renewal_not_retried_after_refresh_witness:
  "fst (joined_attempts tree_json lost_host_env ''/cc'' [] 2 nameless_ticket joined_world) = Inr nameless_ticket"
proof -
  let ?log = "logger lost_host_env LOG_ERR"
  have ok: "log_writable lost_host_env" "log_ok joined_world"
    by (simp_all add: lost_host_env_def tools_env_def quiet_env_def joined_world_def start_world_def
        log_ok_def init_logger_def log_ring_size_def)
  have l: "runs (\<lambda>w. log_ok w \<and> wfs w = wfs joined_world) (?log m)" for m
    by (rule runs_logger [OF ok(1)]) simp
  from runsD [OF l, of joined_world] ok(2) obtain w1 where
    1: "?log null_args_message joined_world = (Inr (), w1)" "log_ok w1" "wfs w1 = wfs joined_world"
    by auto
  then have f: "fetch_gmsa_password_and_create_krb_ticket lost_host_env (domain_name nameless_ticket) nameless_ticket ''/cc''
      joined_world = (Inr ((-1, ''domain_name c or gmsa_account_name  is empty''), nameless_ticket), w1)"
    by (simp add: fetch_gmsa_password_and_create_krb_ticket_def nameless_ticket_def new_krb_ticket_info_def)
  from runsD [OF l, of w1 "''ERROR: Cannot get gMSA krb ticket using account '' @
      service_account_name nameless_ticket"] 1(2,3) obtain w2 where
    2: "?log (''ERROR: Cannot get gMSA krb ticket using account '' @ service_account_name nameless_ticket) w1 =
      (Inr (), w2)" "wfs w2 = wfs joined_world"
    by auto
  from lost_host_refresh [OF 2(2)] obtain w3 where
    3: "refresh_host_ticket tree_json lost_host_env [] nameless_ticket w2 = (Inr (0, []), w3)" by blast
  from renewal_not_retried_after_refresh [OF f _ 2(1) 3] show ?thesis by simp
qed

section \<open>A round looks at every ticket of the host\<close>

context host_inv begin

lemma keeps_refresh_host: "keeps I (refresh_host_ticket J E u t)"
  unfolding refresh_host_ticket_def by (intro keeps_intros keeps_vault_ticket keeps_machine_keytab)

lemma keeps_joined_attempts: "keeps I (joined_attempts J E cc u n t)"
proof (induction n arbitrary: t)
  case (Suc n)
  then show ?case
    unfolding joined_attempts.simps by (intro keeps_intros keeps_fetch keeps_logger keeps_refresh_host)
qed (simp add: keeps_ret)

end

text \<open>What a change of loggers keeps too, the whole thread keeps.\<close>

locale thread_inv = host_inv +
  assumes host_logger: "I w \<Longrightarrow> I (w\<lparr>wlog := lg\<rparr>)"
begin

lemma keeps_with_logger: "keeps I m \<Longrightarrow> keeps I (with_logger lg m)"
  unfolding keeps_def
proof
  fix w assume m: "\<forall>w. I w \<longrightarrow> I (snd (m w))"
  obtain r w' where r: "m (w\<lparr>wlog := lg\<rparr>) = (r, w')" by force
  have "I w \<Longrightarrow> I w'" using m [rule_format, of "w\<lparr>wlog := lg\<rparr>"] r host_logger by simp
  with r show "I w \<longrightarrow> I (snd (with_logger lg m w))"
    by (cases r) (auto simp: with_logger_def intro: host_logger)
qed

lemma keeps_renew_joined: "keeps I (renew_joined_ticket J E lg t)"
  unfolding renew_joined_ticket_def
  by (intro keeps_intros keeps_with_logger keeps_ready keeps_joined_attempts keeps_logger)

lemma keeps_renew_file:
  "keeps I (bindM (read_meta_data_json J f) (\<lambda>ts. foldM (renew_joined_ticket J E) lg ts))"
  by (intro keeps_intros keeps_read_meta keeps_renew_joined)

end

interpretation past: thread_inv "happened e" E for e E
  by unfold_locales (simp add: happened_def)

text \<open>
  The tickets a metadata file yields, and commands that do not change them: they leave the file, and
  they remove no ticket cache it names.
\<close>

definition metadata_at :: "'j jsonlib \<Rightarrow> string \<Rightarrow> fs \<Rightarrow> krb_ticket_info list" where
  "metadata_at J p F = (case fst (read_meta_data_json J p (start_world\<lparr>wfs := F\<rparr>)) of Inr ts \<Rightarrow> ts | Inl _ \<Rightarrow> [])"

definition spares_metadata :: "env \<Rightarrow> 'j jsonlib \<Rightarrow> string \<Rightarrow> bool" where
  "spares_metadata E J p \<longleftrightarrow>
     (\<forall>h F c. metadata_at J p (snd (snd (shell_run E h F c))) = metadata_at J p F) \<and>
     (\<forall>h F c b. metadata_at J p (snd (pipe_run E h F c b)) = metadata_at J p F)"

lemma read_metadata_at: "read_meta_data_json J p w = (Inr (metadata_at J p (wfs w)), w)"
  by (auto simp: metadata_at_def read_meta_data_json_def split: option.splits sum.splits)

definition metadata_stays :: "env \<Rightarrow> 'j jsonlib \<Rightarrow> string \<Rightarrow> krb_ticket_info list \<Rightarrow> world \<Rightarrow> bool" where
  "metadata_stays E J p ts w \<longleftrightarrow> spares_metadata E J p \<and> metadata_at J p (wfs w) = ts"

lemma write_log_files: "wfs (snd (write_log E m w)) = wfs w"
  by (auto simp: write_log_def Let_def split: option.splits sum.splits)

interpretation stays: thread_inv "metadata_stays E J p ts" E for E J p ts
proof unfold_locales
  fix w c code out F assume "metadata_stays E J p ts w" and r: "shell_run E (evs w) (wfs w) c = (code, out, F)"
  moreover have "F = snd (snd (shell_run E (evs w) (wfs w) c))" using r by simp
  ultimately show "metadata_stays E J p ts (w\<lparr>wfs := F, evs := Ran c # evs w\<rparr>)"
    by (auto simp: metadata_stays_def spares_metadata_def)
next
  fix w c b code F assume "metadata_stays E J p ts w" and r: "pipe_run E (evs w) (wfs w) c b = (code, F)"
  moreover have "F = snd (pipe_run E (evs w) (wfs w) c b)" using r by simp
  ultimately show "metadata_stays E J p ts (w\<lparr>wfs := F, evs := Piped c b # evs w\<rparr>)"
    by (auto simp: metadata_stays_def spares_metadata_def)
qed (simp_all add: metadata_stays_def write_log_files)

lemma foldM_happened:
  assumes "\<And>s w s' w'. f s x w = (Inr s', w') \<Longrightarrow> happened e w'" and "\<And>s y. keeps (happened e) (f s y)"
  shows "foldM f s xs w = (Inr r, w') \<Longrightarrow> x \<in> set xs \<Longrightarrow> happened e w'"
proof (induction xs arbitrary: s w)
  case (Cons y ys)
  from Cons.prems(1) obtain s1 w1 where 1: "f s y w = (Inr s1, w1)" "foldM f s1 ys w1 = (Inr r, w')"
    by (auto simp: bindM_eq_Inr)
  show ?case
  proof (cases "x \<in> set ys")
    case False
    with Cons.prems(2) have "x = y" by simp
    with assms(1) 1(1) have "happened e w1" by blast
    moreover have "keeps (happened e) (foldM f s1 ys)" by (intro keeps_intros assms(2))
    ultimately show ?thesis using keepsD [of "happened e" "foldM f s1 ys" w1] 1(2) by simp
  qed (use Cons.IH 1(2) in blast)
qed simp

lemma renew_joined_looks:
  assumes "domainless_user t = [] \<or> uses_secret (domainless_user t)"
    and "renew_joined_ticket J E lg t w = (Inr lg', w')"
  shows "happened (Ran (c_str (klist_cmd (krb_file_path t)))) w'"
proof -
  let ?e = "Ran (c_str (klist_cmd (krb_file_path t)))"
  let ?rest = "\<lambda>(ready, lg' :: cf_logger). thenM (if ready then
      bindM (joined_attempts J E (krb_file_path t) (domainless_user t) 2 t) (\<lambda>_. ret ())
    else logger E LOG_INFO (''gMSA ticket is at '' @ krb_file_path t)) (ret lg')"
  from assms obtain a w1 where 1: "with_logger lg (is_ticket_ready_for_renewal E t) w = (Inr a, w1)"
    "?rest a w1 = (Inr lg', w')"
    by (auto simp: renew_joined_ticket_def bindM_eq_Inr)
  obtain r w2 where x: "exec_shell_cmd E (klist_cmd (krb_file_path t)) (w\<lparr>wlog := lg\<rparr>) = (Inr r, w2)" and
    h: "happened ?e w2"
    using exec_shell_cmd_returns [of E "klist_cmd (krb_file_path t)" "w\<lparr>wlog := lg\<rparr>"]
    by (auto simp: exec_shell_cmd_def Let_def happened_def split: prod.splits if_splits)
  have "keeps (happened ?e) (if fst r \<noteq> 0 then ret False else renewal_scan E (split_string (snd r) CHR ''#''))"
    by (intro keeps_intros hist.keeps_renewal_scan)
  from keepsD [OF this h] have "happened ?e (snd (is_ticket_ready_for_renewal E t (w\<lparr>wlog := lg\<rparr>)))"
    using x by (simp add: is_ticket_ready_for_renewal_def bindM_def)
  then have "happened ?e w1"
    using 1(1) by (auto simp: with_logger_def happened_def split: prod.splits sum.splits)
  moreover have "keeps (happened ?e) (?rest a)"
    by (cases a) (auto intro!: keeps_intros hist.keeps_joined_attempts hist.keeps_logger)
  ultimately show ?thesis using keepsD [of "happened ?e" "?rest a" w1] 1(2) by simp
qed

text \<open>
  Over all the metadata files of a round: while the commands of the host leave a file's metadata alone, its tickets
  are looked at when its turn comes.
\<close>

lemma files_looked_at:
  assumes "t \<in> set ts" and "domainless_user t = [] \<or> uses_secret (domainless_user t)"
  shows "foldM (\<lambda>lg f. bindM (read_meta_data_json J f) (\<lambda>ts. foldM (renew_joined_ticket J E) lg ts)) lg fs w =
      (Inr lg', w') \<Longrightarrow> p \<in> set fs \<Longrightarrow> metadata_stays E J p ts w \<Longrightarrow>
    happened (Ran (c_str (klist_cmd (krb_file_path t)))) w'"
proof (induction fs arbitrary: lg w)
  case (Cons f fs)
  let ?e = "Ran (c_str (klist_cmd (krb_file_path t)))"
  let ?one = "\<lambda>lg f. bindM (read_meta_data_json J f) (\<lambda>ts. foldM (renew_joined_ticket J E) lg ts)"
  from Cons.prems(1) obtain lg1 w1 where 1: "?one lg f w = (Inr lg1, w1)" "foldM ?one lg1 fs w1 = (Inr lg', w')"
    by (auto simp: bindM_eq_Inr)
  show ?case
  proof (cases "p \<in> set fs")
    case True
    have "metadata_stays E J p ts w1"
      using keepsD [OF stays.keeps_renew_file Cons.prems(3), of J f lg] 1(1) by simp
    with Cons.IH [OF 1(2) True] show ?thesis by blast
  next
    case False
    with Cons.prems(2) have "f = p" by simp
    moreover have "read_meta_data_json J p w = (Inr ts, w)"
      using Cons.prems(3) by (simp add: read_metadata_at metadata_stays_def)
    ultimately have "foldM (renew_joined_ticket J E) lg ts w = (Inr lg1, w1)" using 1(1) by (simp add: bindM_def)
    then have "happened ?e w1"
      using foldM_happened [of "renew_joined_ticket J E" t ?e lg ts w lg1 w1] assms(1)
        renew_joined_looks [OF assms(2)] past.keeps_renew_joined by blast
    moreover have "keeps (happened ?e) (foldM ?one lg1 fs)" by (intro keeps_intros past.keeps_renew_file)
    ultimately show ?thesis using keepsD [of "happened ?e" "foldM ?one lg1 fs" w1] 1(2) by simp
  qed
qed simp

lemma round_looks:
  assumes "spares_metadata E J p" and "get_meta_data_file_paths dir w = (Inr files, w)" and "p \<in> set files"
    and "read_meta_data_json J p w = (Inr ts, w)" and "t \<in> set ts"
    and "domainless_user t = [] \<or> uses_secret (domainless_user t)"
    and "renewal_round J E i dir lg w = (Inr lg', w')"
  shows "happened (Ran (c_str (klist_cmd (krb_file_path t)))) w'"
proof -
  let ?w = "w\<lparr>evs := Slept (nat (60 * i)) # evs w\<rparr>"
  have "get_meta_data_file_paths dir ?w = (Inr files, ?w)"
    using assms(2) by (auto simp: get_meta_data_file_paths_def bindM_def split: sum.splits)
  then have "foldM (\<lambda>lg f. bindM (read_meta_data_json J f) (\<lambda>ts. foldM (renew_joined_ticket J E) lg ts)) lg files ?w =
      (Inr lg', w')"
    using assms(7) by (simp add: renewal_round_def thenM_def bindM_def)
  moreover have "metadata_stays E J p ts ?w"
    using assms(1,4) by (simp add: metadata_stays_def read_metadata_at)
  ultimately show ?thesis using files_looked_at [OF assms(5,6)] assms(3) by blast
qed

end
