(* ===== verification/Self_Test.thy ===== *)
theory Self_Test
  imports Lease_Common Renewal
begin

text \<open>
  The checks the daemon runs when it is started with \<open>--self_test\<close> (metadata/tests/metadata_test.cpp,
  renewal/tests/renewal_test.cpp): they read and write metadata files under a fixed directory and
  call the renewal handler with no directory. Relative paths are taken from the root, the working
  directory of a service.
\<close>



definition sample_dir :: string where
  "sample_dir = ''/usr/share/credentials-fetcher/krbdir''"

definition sample_paths :: "string list" where
  "sample_paths = [sample_dir @ ''/73099acdb5807b4bbf91/ccname_WebApp01_7K4PEM'',
     sample_dir @ ''/73099acdb5807b4bbf91/ccname_WebApp03_53Yg4I'']"

text \<open>The ticket files the sample metadata names, made when they are missing and removed at the end.\<close>

definition make_sample :: "string \<Rightarrow> unit WM" where
  "make_sample p =
     thenM (make_directories (parent_path p))
    (bindM (getM (\<lambda>w. fs_exists (wfs w) p)) (\<lambda>ex. whenM (\<not> ex) (touch_file p)))"

definition remove_sample :: "string \<Rightarrow> unit WM" where
  "remove_sample p = modM (\<lambda>w. w\<lparr>wfs := remove_all p (wfs w)\<rparr>)"

definition read_meta_data_json_test :: "'j jsonlib \<Rightarrow> int WM" where
  "read_meta_data_json_test J =
     thenM (forM make_sample sample_paths)
    (bindM (read_meta_data_json J ''metadata_sample.json'') (\<lambda>result.
     thenM (forM remove_sample sample_paths)
       (ret (if result = [] \<or> length result \<noteq> 2 then EXIT_FAILURE else EXIT_SUCCESS))))"

definition read_meta_data_invalid_json_test :: "'j jsonlib \<Rightarrow> int WM" where
  "read_meta_data_invalid_json_test J =
     bindM (read_meta_data_json J ''metadata_invalid_sample.json'') (\<lambda>result.
       ret (if result = [] then EXIT_SUCCESS else EXIT_FAILURE))"

definition write_meta_data_json_test :: "'j jsonlib \<Rightarrow> int WM" where
  "write_meta_data_json_test J =
     thenM (forM make_sample sample_paths)
    (bindM (read_meta_data_json J ''metadata_sample.json'') (\<lambda>test_ticket_info.
     bindM (write_meta_data_json J test_ticket_info ''test1234567890'' sample_dir) (\<lambda>result.
     if result \<noteq> 0 then thenM (forM remove_sample sample_paths) (ret EXIT_FAILURE)
     else
       thenM (remove_sample (sample_dir @ ''/test1234567890''))
      (thenM (forM remove_sample sample_paths) (ret EXIT_SUCCESS)))))"

text \<open>The daemon object of the test is a fresh one; the handler returns before it reads the signal.\<close>

definition renewal_failure_krb_dir_not_found_test :: "'j jsonlib \<Rightarrow> env \<Rightarrow> (cpp_exn \<Rightarrow> string) \<Rightarrow> int WM" where
  "renewal_failure_krb_dir_not_found_test J E what =
     bindM (krb_ticket_renew_handler J E what 0 new_daemon) (\<lambda>result.
       ret (if result \<noteq> Some (-1) then EXIT_FAILURE else EXIT_SUCCESS))"

text \<open>\<open>a() || b() || c() || d()\<close>: the first test that fails is the last one run.\<close>

definition or_else :: "int WM \<Rightarrow> int WM \<Rightarrow> int WM" where
  "or_else a b = bindM a (\<lambda>r. if r \<noteq> 0 then ret 1 else bindM b (\<lambda>r'. ret (if r' \<noteq> 0 then 1 else 0)))"

definition run_self_tests :: "'j jsonlib \<Rightarrow> env \<Rightarrow> (cpp_exn \<Rightarrow> string) \<Rightarrow> int WM" where
  "run_self_tests J E what =
     or_else (or_else (or_else (read_meta_data_json_test J) (read_meta_data_invalid_json_test J))
       (renewal_failure_krb_dir_not_found_test J E what)) (write_meta_data_json_test J)"

lemma renewal_test_passes: "renewal_failure_krb_dir_not_found_test J E what w = (Inr EXIT_SUCCESS, w)"
  by (simp add: renewal_failure_krb_dir_not_found_test_def krb_ticket_renew_handler_def new_daemon_def)

lemma or_else_zero: "or_else a b w = (Inr 0, w') \<longleftrightarrow> (\<exists>w1. a w = (Inr 0, w1) \<and> b w1 = (Inr 0, w'))"
  by (auto simp: or_else_def bindM_eq_Inr split: if_splits)

end
