(* ===== verification/Daemon_Main.thy ===== *)
theory Daemon_Main
  imports Config Self_Test
begin

text \<open>
  The daemon itself (daemon/src/daemon.cpp): the thread start routines, \<open>create_pthread\<close>,
  \<open>parse_cred_file_path\<close>, and \<open>main\<close> from the command line to the watchdog loop. What the threads do
  once they run is modelled in the theories of the server and of the renewal; here they are started.
\<close>

section \<open>The process\<close>

datatype thread = Grpc_thread | Refresh_thread

text \<open>What the service manager is told, and the sleeps in between, newest first in the state.\<close>

datatype notification = Ready_note | Watchdog_note | Status_note int | Usleep "32 word"

record process =
  p_world :: world
  p_daemon :: daemon
  p_threads :: "thread list"
  p_notes :: "notification list"

type_synonym 'a PM = "(process, 'a) M"

definition in_world :: "'a WM \<Rightarrow> 'a PM" where
  "in_world m = (\<lambda>p. case m (p_world p) of (r, w) \<Rightarrow> (r, p\<lparr>p_world := w\<rparr>))"

definition set_daemon :: "(daemon \<Rightarrow> daemon) \<Rightarrow> unit PM" where
  "set_daemon f = modM (\<lambda>p. p\<lparr>p_daemon := f (p_daemon p)\<rparr>)"

definition notify :: "notification \<Rightarrow> unit PM" where
  "notify n = modM (\<lambda>p. p\<lparr>p_notes := n # p_notes p\<rparr>)"

section \<open>Threads\<close>

text \<open>
  What the thread library answers when one thread is created: the status of each call, and where
  the thread's argument block lies, unless the allocation fails.
\<close>

record pthread_calls =
  attr_init :: int
  attr_setstacksize :: int
  calloc_tinfo :: "string option"
  pthread_create :: int
  attr_destroy :: int

text \<open>
  \<open>create_pthread\<close>, with the function and its argument as the thread they stand for, \<open>None\<close> for a
  null pointer.
\<close>

definition create_pthread :: "pthread_calls \<Rightarrow> thread option \<Rightarrow> int \<Rightarrow> (int \<times> string option) PM" where
  "create_pthread P func stack_size =
     (case func of
        None \<Rightarrow> ret (EXIT_FAILURE, None)
      | Some f \<Rightarrow>
          if attr_init P \<noteq> 0 then ret (EXIT_FAILURE, None)
          else if 0 < stack_size \<and> attr_setstacksize P \<noteq> 0 then ret (EXIT_FAILURE, None)
          else (case calloc_tinfo P of
              None \<Rightarrow> ret (EXIT_FAILURE, None)
            | Some tinfo \<Rightarrow>
                if pthread_create P \<noteq> 0 then ret (EXIT_FAILURE, None)
                else
                  thenM (modM (\<lambda>p. p\<lparr>p_threads := p_threads p @ [f]\<rparr>))
                    (if attr_destroy P \<noteq> 0 then ret (EXIT_FAILURE, None)
                     else ret (EXIT_SUCCESS, Some tinfo))))"

text \<open>The two start routines: the server runs on the daemon's own logger, the renewal on a copy.\<close>

definition grpc_thread_start ::
    "'j jsonlib \<Rightarrow> aws \<Rightarrow> env \<Rightarrow> rpc list \<Rightarrow> daemon \<Rightarrow> (bool \<times> rpc_input queue_event) list \<Rightarrow> unit SM" where
  "grpc_thread_start J A E classes d es =
     thenM (RunGrpcServer J A E classes (krb_files_dir d) (aws_sm_secret_name d) es) (ret ())"

definition refresh_krb_tickets_thread_start ::
    "'j jsonlib \<Rightarrow> env \<Rightarrow> (cpp_exn \<Rightarrow> string) \<Rightarrow> nat \<Rightarrow> daemon \<Rightarrow> bool WM" where
  "refresh_krb_tickets_thread_start J E what rounds d =
     bindM (krb_ticket_renew_handler J E what rounds d) (\<lambda>r. ret (r \<noteq> None))"

definition systemd_shutdown_signal_catcher :: "int \<Rightarrow> daemon \<Rightarrow> daemon" where
  "systemd_shutdown_signal_catcher signo d = d\<lparr>got_systemd_shutdown_signal := 1\<rparr>"

section \<open>The credential file\<close>

definition parse_cred_file_path :: "string \<Rightarrow> string \<Rightarrow> string \<Rightarrow> int \<times> string \<times> string" where
  "parse_cred_file_path cred_file_path file lease =
     (if cred_file_path = [] then (EXIT_FAILURE, file, lease)
      else (case find_char CHR '':'' cred_file_path of
          None \<Rightarrow> (EXIT_SUCCESS, cred_file_path, DEFAULT_CRED_FILE_LEASE_ID)
        | Some colon_delim_pos \<Rightarrow>
            (EXIT_SUCCESS, take colon_delim_pos cred_file_path, drop (colon_delim_pos + 1) cred_file_path)))"

definition ENV_CF_CRED_SPEC_FILE :: string where "ENV_CF_CRED_SPEC_FILE = ''CF_CRED_SPEC_FILE''"

text \<open>What \<open>main\<close> makes of the variable: the lease id it remembers.\<close>

definition read_cred_file_variable :: "env \<Rightarrow> string PM" where
  "read_cred_file_variable E =
     (case getenv E ENV_CF_CRED_SPEC_FILE of
        None \<Rightarrow> ret []
      | Some path \<Rightarrow>
          (case parse_cred_file_path path [] [] of (parseResult, file, lease) \<Rightarrow>
             if parseResult = EXIT_FAILURE then
               thenM (in_world (logger E LOG_ERR (''Failed parsing environment variable '' @ path)))
                 (raise (Exit EXIT_FAILURE))
             else
               bindM (getM (\<lambda>p. fs_exists (wfs (p_world p)) file)) (\<lambda>ex.
                 if \<not> ex then ret []
                 else thenM (set_daemon (cred_file_update (\<lambda>_. file))) (ret lease))))"

section \<open>main\<close>

text \<open>The parts of the operating system \<open>main\<close> asks, with the constants of the build.\<close>

record host_os =
  sigaction :: "int \<Rightarrow> int"
  grpc_calls :: pthread_calls
  refresh_calls :: pthread_calls
  sd_watchdog_enabled :: "int \<times> 64 word"
  signalled :: "nat \<Rightarrow> bool"
  health_stub :: "string \<Rightarrow> string outcome"
  project_version :: string
  exit_using_file :: bool

definition CF_KRB_DIR :: string where "CF_KRB_DIR = ''/var/credentials-fetcher/krbdir''"
definition CF_LOGGING_DIR :: string where "CF_LOGGING_DIR = ''/var/credentials-fetcher/logging''"
definition CF_UNIX_DOMAIN_SOCKET_DIR :: string where "CF_UNIX_DOMAIN_SOCKET_DIR = ''/var/credentials-fetcher/socket''"
definition CF_TEST_DOMAIN_NAME :: string where "CF_TEST_DOMAIN_NAME = ''contoso.com''"
definition CF_TEST_GMSA_ACCOUNT :: string where "CF_TEST_GMSA_ACCOUNT = ''webapp01''"

definition SIGHUP :: int where "SIGHUP = 1"
definition SIGINT :: int where "SIGINT = 2"
definition SIGTERM :: int where "SIGTERM = 15"

definition set_directories :: "daemon \<Rightarrow> daemon" where
  "set_directories d = d\<lparr>krb_files_dir := CF_KRB_DIR, logging_dir := CF_LOGGING_DIR,
     unix_socket_dir := CF_UNIX_DOMAIN_SOCKET_DIR\<rparr>"

text \<open>The command line, the directories, the credential file; the value is the lease id.\<close>

definition main_configure :: "env \<Rightarrow> host_os \<Rightarrow> string list \<Rightarrow> string PM" where
  "main_configure E H args =
     bindM (getM p_daemon) (\<lambda>d.
     bindM (in_world (parse_options (health_stub H) (project_version H) args d)) (\<lambda>(text, status, d').
     thenM (set_daemon (\<lambda>_. d'))
    (if status \<noteq> EXIT_SUCCESS then raise (Exit EXIT_FAILURE)
     else
       thenM (set_daemon set_directories)
      (thenM (in_world (logger E LOG_ERR ''Credentials-fetcher daemon has started running''))
      (bindM (read_cred_file_variable E) (\<lambda>lease.
       thenM (set_daemon (\<lambda>d. d\<lparr>daemon_domain_name := CF_TEST_DOMAIN_NAME, gmsa_account_name := CF_TEST_GMSA_ACCOUNT\<rparr>))
         (ret lease)))))))"

definition log_configuration :: "env \<Rightarrow> string \<Rightarrow> unit PM" where
  "log_configuration E lease =
     bindM (getM p_daemon) (\<lambda>d.
     thenM (in_world (logger E LOG_ERR (''krb_files_dir = '' @ krb_files_dir d)))
    (thenM (in_world (logger E LOG_ERR (''cred_file = '' @ cred_file d @ '' (lease id: '' @ lease @ '')'')))
    (thenM (in_world (logger E LOG_ERR (''logging_dir = '' @ logging_dir d)))
           (in_world (logger E LOG_ERR (''unix_socket_dir = '' @ unix_socket_dir d))))))"

text \<open>The ticket of the credential file.\<close>

definition main_cred_file :: "'j jsonlib \<Rightarrow> env \<Rightarrow> string \<Rightarrow> unit PM" where
  "main_cred_file J E lease =
     bindM (getM p_daemon) (\<lambda>d.
       if cred_file d = [] then ret ()
       else
         thenM (in_world (logger E LOG_INFO (''Credential file exists '' @ cred_file d)))
        (bindM (in_world (ProcessCredSpecFile J E (krb_files_dir d) (cred_file d) lease)) (\<lambda>specFileReturn.
           if specFileReturn = EXIT_FAILURE then raise (Exit EXIT_FAILURE) else ret ())))"

text \<open>One thread: only a negative code stops the daemon.\<close>

definition start_thread :: "env \<Rightarrow> pthread_calls \<Rightarrow> thread \<Rightarrow> string \<Rightarrow> string \<Rightarrow> unit PM" where
  "start_thread E P f null_name live_name =
     bindM (create_pthread P (Some f) (-1)) (\<lambda>pthread_status.
       if fst pthread_status < 0 then
         thenM (in_world (logger E LOG_ERR (''Error '' @ to_string (fst pthread_status) @ '': Cannot create pthreads'')))
           (raise (Exit EXIT_FAILURE))
       else
         in_world (logger E LOG_INFO (case snd pthread_status of
             None \<Rightarrow> ''Warning: '' @ null_name @ '' is null''
           | Some address \<Rightarrow> live_name @ '' is at '' @ address)))"

definition main_threads :: "env \<Rightarrow> host_os \<Rightarrow> unit PM" where
  "main_threads E H =
     thenM (start_thread E (grpc_calls H) Grpc_thread ''grpc_pthread'' ''grpc pthread'')
    (thenM (start_thread E (refresh_calls H) Refresh_thread ''krb_refresh_pthread'' ''krb refresh pthread'')
       (modM (\<lambda>p. p\<lparr>p_world := (p_world p)\<lparr>wlog := set_log_level LOG_NOTICE (wlog (p_world p))\<rparr>\<rparr>)))"

text \<open>Under systemd the watchdog has to be set up.\<close>

definition main_watchdog :: "env \<Rightarrow> host_os \<Rightarrow> unit PM" where
  "main_watchdog E H =
     (case getenv E ''CREDENTIALS_FETCHERD_STARTED_BY_SYSTEMD'' of
        None \<Rightarrow> ret ()
      | Some v \<Rightarrow>
          (case sd_watchdog_enabled H of (enabled, interval) \<Rightarrow>
             if 0 < enabled then set_daemon (watchdog_interval_usecs_update (\<lambda>_. interval))
             else raise (Exit EXIT_FAILURE)))"

text \<open>
  The loop, \<open>None\<close> while it is still running. The test before round \<open>i\<close> sees whether a signal has
  been caught; \<open>usleep\<close> takes 32 bits.
\<close>

definition exit_file_seen :: "fs \<Rightarrow> bool" where
  "exit_file_seen F = (case fs_stat F ''/tmp/credentials_fetcher_exit.txt'' of
     None \<Rightarrow> False | Some i \<Rightarrow> ikind i \<noteq> Dir)"

fun watch_loop :: "host_os \<Rightarrow> nat \<Rightarrow> nat \<Rightarrow> int option PM" where
  "watch_loop H i 0 = ret None"
| "watch_loop H i (Suc n) =
     thenM (whenM (signalled H i) (set_daemon (systemd_shutdown_signal_catcher SIGTERM)))
    (bindM (getM p_daemon) (\<lambda>d.
     if got_systemd_shutdown_signal d \<noteq> 0 then ret (Some EXIT_SUCCESS)
     else
       thenM (notify (Usleep (ucast (watchdog_interval_usecs d div 2))))
      (thenM (notify Watchdog_note)
      (thenM (notify (Status_note (int i)))
      (if 2 ^ 31 - 1 \<le> i then raise (Undef SignedOverflow)
       else
         bindM (getM (wfs \<circ> p_world)) (\<lambda>F.
         thenM (whenM (exit_using_file H \<and> exit_file_seen F) (set_daemon (got_systemd_shutdown_signal_update (\<lambda>_. 1))))
           (watch_loop H (Suc i) n)))))))"

definition start_daemon :: "'j jsonlib \<Rightarrow> env \<Rightarrow> host_os \<Rightarrow> string \<Rightarrow> unit PM" where
  "start_daemon J E H lease =
     thenM (main_cred_file J E lease)
    (thenM (main_threads E H)
    (thenM (main_watchdog E H) (notify Ready_note)))"

definition daemon_main :: "'j jsonlib \<Rightarrow> env \<Rightarrow> host_os \<Rightarrow> (cpp_exn \<Rightarrow> string) \<Rightarrow> string list \<Rightarrow> nat \<Rightarrow> int option PM" where
  "daemon_main J E H what args rounds =
     bindM (main_configure E H args) (\<lambda>lease.
     thenM (log_configuration E lease)
    (bindM (getM p_daemon) (\<lambda>d.
     if run_diagnostic d then bindM (in_world (run_self_tests J E what)) (\<lambda>r. raise (Exit r))
     else
       thenM (set_daemon (got_systemd_shutdown_signal_update (\<lambda>_. 0)))
      (if sigaction H SIGTERM = -1 \<or> sigaction H SIGINT = -1 \<or> sigaction H SIGHUP = -1 then ret (Some EXIT_FAILURE)
       else thenM (start_daemon J E H lease) (watch_loop H 0 rounds)))))"

section \<open>Threads and their failures\<close>

lemma in_world_Inr [simp]: "m (p_world p) = (Inr x, w) \<Longrightarrow> in_world m p = (Inr x, p\<lparr>p_world := w\<rparr>)"
  by (simp add: in_world_def)

text \<open>
  What \<open>create_pthread\<close> reports: its code is 0 or 1, never negative, and comes with an address
  exactly when it is 0. A thread may be running although failure is reported, namely when its
  attributes could not be destroyed.
\<close>
theorem create_pthread_result:
  assumes "create_pthread P func stack_size p = (r, p')"
  shows "\<exists>code address. r = Inr (code, address) \<and> code \<in> {0, 1} \<and> (code = 0 \<longleftrightarrow> address \<noteq> None) \<and>
    p_world p' = p_world p \<and> p_notes p' = p_notes p \<and>
    p_threads p' = p_threads p @ (case func of None \<Rightarrow> [] | Some f \<Rightarrow>
      if attr_init P = 0 \<and> (0 < stack_size \<longrightarrow> attr_setstacksize P = 0) \<and> calloc_tinfo P \<noteq> None \<and>
        pthread_create P = 0 then [f] else []) \<and>
    (code = 0 \<longleftrightarrow> p_threads p' \<noteq> p_threads p \<and> attr_destroy P = 0)"
  using assms
  by (auto simp: create_pthread_def thenM_def EXIT_FAILURE_def EXIT_SUCCESS_def split: option.splits if_splits)

lemma create_pthread_returns:
  "\<exists>code address p'. create_pthread P func n p = (Inr (code, address), p') \<and> 0 \<le> code \<and> p_world p' = p_world p \<and>
     p_notes p' = p_notes p \<and> p_daemon p' = p_daemon p \<and> (pthread_create P \<noteq> 0 \<longrightarrow> p_threads p' = p_threads p)"
  by (auto simp: create_pthread_def thenM_def EXIT_FAILURE_def EXIT_SUCCESS_def split: option.splits)

lemma logger_in_world:
  assumes "log_writable E" and "log_ok (p_world p)"
  shows "\<exists>w. in_world (logger E l m) p = (Inr (), p\<lparr>p_world := w\<rparr>) \<and> log_ok w \<and> wfs w = wfs (p_world p)"
proof -
  have "runs (\<lambda>w. log_ok w \<and> wfs w = wfs (p_world p)) (logger E l m)"
    by (rule runs_logger [OF assms(1)]) simp
  from runsD [OF this, of "p_world p"] assms(2) show ?thesis by force
qed

lemma start_thread_returns:
  assumes "log_writable E" and "log_ok (p_world p)"
  shows "\<exists>p'. start_thread E P f a b p = (Inr (), p') \<and> log_ok (p_world p') \<and> p_notes p' = p_notes p \<and>
    p_daemon p' = p_daemon p \<and> (pthread_create P \<noteq> 0 \<longrightarrow> p_threads p' = p_threads p)"
proof -
  obtain code address p1 where c: "create_pthread P (Some f) (-1) p = (Inr (code, address), p1)" "0 \<le> code"
    "p_world p1 = p_world p" "p_notes p1 = p_notes p" "p_daemon p1 = p_daemon p"
    "pthread_create P \<noteq> 0 \<longrightarrow> p_threads p1 = p_threads p"
    using create_pthread_returns by blast
  let ?m = "case address of None \<Rightarrow> ''Warning: '' @ a @ '' is null'' | Some x \<Rightarrow> b @ '' is at '' @ x"
  obtain w where w: "in_world (logger E LOG_INFO ?m) p1 = (Inr (), p1\<lparr>p_world := w\<rparr>)" "log_ok w"
    using logger_in_world [of E p1] assms c(3) by metis
  have "start_thread E P f a b p = (Inr (), p1\<lparr>p_world := w\<rparr>)"
    using c(1,2) w(1) by (simp add: start_thread_def bindM_apply)
  with c w(2) show ?thesis by auto
qed

lemma main_threads_returns:
  assumes "log_writable E" and "log_ok (p_world p)"
  shows "\<exists>p'. main_threads E H p = (Inr (), p') \<and> log_level (wlog (p_world p')) = LOG_NOTICE \<and>
    p_notes p' = p_notes p \<and> p_daemon p' = p_daemon p \<and>
    (pthread_create (grpc_calls H) \<noteq> 0 \<and> pthread_create (refresh_calls H) \<noteq> 0 \<longrightarrow> p_threads p' = p_threads p)"
proof -
  obtain p1 where 1: "start_thread E (grpc_calls H) Grpc_thread ''grpc_pthread'' ''grpc pthread'' p = (Inr (), p1)"
    "log_ok (p_world p1)" "p_notes p1 = p_notes p" "p_daemon p1 = p_daemon p"
    "pthread_create (grpc_calls H) \<noteq> 0 \<longrightarrow> p_threads p1 = p_threads p"
    using start_thread_returns [OF assms] by blast
  obtain p2 where 2: "start_thread E (refresh_calls H) Refresh_thread ''krb_refresh_pthread'' ''krb refresh pthread'' p1 =
      (Inr (), p2)" "p_notes p2 = p_notes p1" "p_daemon p2 = p_daemon p1"
    "pthread_create (refresh_calls H) \<noteq> 0 \<longrightarrow> p_threads p2 = p_threads p1"
    using start_thread_returns [OF assms(1) 1(2)] by blast
  let ?p = "p2\<lparr>p_world := (p_world p2)\<lparr>wlog := set_log_level LOG_NOTICE (wlog (p_world p2))\<rparr>\<rparr>"
  have "main_threads E H p = (Inr (), ?p)" using 1(1) 2(1) by (simp add: main_threads_def)
  with 1 2 show ?thesis by (intro exI [of _ ?p]) (auto simp: set_log_level_def)
qed

lemma start_without_threads:
  assumes "log_writable E" and "log_ok (p_world p)" and "cred_file (p_daemon p) = []"
    and "getenv E ''CREDENTIALS_FETCHERD_STARTED_BY_SYSTEMD'' = None"
    and "pthread_create (grpc_calls H) \<noteq> 0" and "pthread_create (refresh_calls H) \<noteq> 0"
  shows "\<exists>p'. start_daemon J E H lease p = (Inr (), p') \<and> p_threads p' = p_threads p \<and>
    p_notes p' = Ready_note # p_notes p"
proof -
  obtain p1 where 1: "main_threads E H p = (Inr (), p1)" "p_notes p1 = p_notes p" "p_threads p1 = p_threads p"
    using main_threads_returns [OF assms(1,2), of H] assms(5,6) by blast
  have "main_cred_file J E lease p = (Inr (), p)" using assms(3) by (simp add: main_cred_file_def bindM_apply)
  moreover have "main_watchdog E H p1 = (Inr (), p1)" using assms(4) by (simp add: main_watchdog_def)
  ultimately have "start_daemon J E H lease p = (Inr (), p1\<lparr>p_notes := Ready_note # p_notes p1\<rparr>)"
    using 1(1) by (simp add: start_daemon_def notify_def)
  with 1 show ?thesis by simp
qed

text \<open>
  C36: A daemon without threads announces itself as ready: when neither the server's nor the renewal's
  thread can be created, the test for a negative code lets the start-up go on, and the service
  manager is told that the service is up although no request will ever be served.
\<close>
theorem ready_without_threads:
  assumes "log_writable E" and "log_ok (p_world p)" and "cred_file (p_daemon p) = []"
    and "getenv E ''CREDENTIALS_FETCHERD_STARTED_BY_SYSTEMD'' = None"
    and "pthread_create (grpc_calls H) \<noteq> 0" and "pthread_create (refresh_calls H) \<noteq> 0"
  shows "\<exists>p'. start_daemon J E H lease p = (Inr (), p') \<and> p_threads p' = p_threads p \<and>
    p_notes p' = Ready_note # p_notes p"
  using assms by (rule start_without_threads)

section \<open>The credential file's variable\<close>

text \<open>
  The variable is read back as it was put together: a path without a colon is taken whole with the
  default lease id, and \<open>path:id\<close> gives the path up to its first colon and everything after it.
\<close>
theorem parse_cred_file_path_roundtrip:
  assumes "CHR '':'' \<notin> set path" and "path \<noteq> []"
  shows "parse_cred_file_path path f l = (0, path, ''credspec'') \<and>
    parse_cred_file_path (path @ '':'' @ lease_id) f l = (0, path, lease_id)"
proof -
  have none: "find_char CHR '':'' path = None" using assms(1)
    by (induction path) (auto simp: find_char_def)
  have some: "find_char CHR '':'' (path @ CHR '':'' # lease_id) = Some (length path)" using assms(1)
    by (induction path) (auto simp: find_char_def)
  from assms(2) show ?thesis
    by (simp add: none some parse_cred_file_path_def EXIT_SUCCESS_def DEFAULT_CRED_FILE_LEASE_ID_def)
qed

theorem parse_cred_file_path_roundtrip_witness:
  "parse_cred_file_path ''/etc/web.json:lease1'' [] [] = (0, ''/etc/web.json'', ''lease1'')"
  using parse_cred_file_path_roundtrip [of "''/etc/web.json''" "[]" "[]" "''lease1''"] by simp

section \<open>The watchdog loop\<close>

text \<open>One round in which nothing happens: a sleep, a ping, the status line.\<close>

definition round_notes :: "daemon \<Rightarrow> nat \<Rightarrow> notification list" where
  "round_notes d i = [Status_note (int i), Watchdog_note, Usleep (ucast (watchdog_interval_usecs d div 2))]"

definition quiet_host :: "host_os \<Rightarrow> process \<Rightarrow> bool" where
  "quiet_host H p \<longleftrightarrow> got_systemd_shutdown_signal (p_daemon p) = 0 \<and>
     \<not> (exit_using_file H \<and> exit_file_seen (wfs (p_world p)))"

lemma watch_round:
  assumes "quiet_host H p" and "\<not> signalled H i"
  shows "watch_loop H i (Suc n) p =
    (if i < 2 ^ 31 - 1 then watch_loop H (Suc i) n (p\<lparr>p_notes := round_notes (p_daemon p) i @ p_notes p\<rparr>)
     else (Inl (Undef SignedOverflow), p\<lparr>p_notes := round_notes (p_daemon p) i @ p_notes p\<rparr>))"
  using assms by (auto simp: quiet_host_def whenM_def notify_def round_notes_def bindM_apply thenM_def)

lemma watch_rounds:
  assumes "\<forall>j. i \<le> j \<and> j < i + n \<longrightarrow> \<not> signalled H j" and "i + n < 2 ^ 31" and "quiet_host H p"
  shows "watch_loop H i (n + k) p =
    watch_loop H (i + n) k (p\<lparr>p_notes := concat (map (round_notes (p_daemon p)) (rev [i..<i + n])) @ p_notes p\<rparr>)"
  using assms
proof (induction n arbitrary: i p)
  case (Suc n)
  let ?p = "p\<lparr>p_notes := round_notes (p_daemon p) i @ p_notes p\<rparr>"
  have "\<not> signalled H i" "i < 2 ^ 31 - 1" using Suc.prems(1,2) by auto
  then have "watch_loop H i (Suc n + k) p = watch_loop H (Suc i) (n + k) ?p"
    using watch_round [OF Suc.prems(3), of i "n + k"] by simp
  also have "\<dots> = watch_loop H (Suc i + n) k
      (?p\<lparr>p_notes := concat (map (round_notes (p_daemon ?p)) (rev [Suc i..<Suc i + n])) @ p_notes ?p\<rparr>)"
    using Suc.prems by (intro Suc.IH) (auto simp: quiet_host_def)
  also have "rev [i..<i + Suc n] = rev [Suc i..<Suc i + n] @ [i]"
    by (metis add_Suc_right add_Suc rev.simps(2) upt_conv_Cons less_add_Suc1)
  ultimately show ?case by simp
qed simp

text \<open>
  C24: The daemon ends when it is told to: if a signal has been caught before the test of round \<open>k\<close> and none
  before, \<open>main\<close> has pinged the watchdog once in each of \<open>k\<close> rounds and returns success.
\<close>
theorem shutdown_signal_ends_daemon:
  assumes "signalled H k" and "\<forall>j < k. \<not> signalled H j" and "k < 2 ^ 31" and "quiet_host H p" and "k < rounds"
  shows "\<exists>p'. watch_loop H 0 rounds p = (Inr (Some 0), p') \<and>
    p_notes p' = concat (map (round_notes (p_daemon p)) (rev [0..<k])) @ p_notes p"
proof -
  obtain n where n: "rounds = k + Suc n" using assms(5) by (metis add_Suc_right less_iff_Suc_add)
  let ?p = "p\<lparr>p_notes := concat (map (round_notes (p_daemon p)) (rev [0..<k])) @ p_notes p\<rparr>"
  have "watch_loop H 0 rounds p = watch_loop H k (Suc n) ?p"
    using watch_rounds [of 0 k H p "Suc n"] assms n by simp
  also have "\<dots> = (Inr (Some 0), ?p\<lparr>p_daemon := systemd_shutdown_signal_catcher SIGTERM (p_daemon ?p)\<rparr>)"
    using assms(1) by (simp add: whenM_def set_daemon_def systemd_shutdown_signal_catcher_def EXIT_SUCCESS_def
        bindM_apply thenM_def)
  finally show ?thesis by simp
qed

text \<open>
  The round counter overflows: without a signal the loop runs into the overflow of its \<open>int\<close> after
  2147483648 rounds.
\<close>
theorem round_counter_overflows:
  assumes "\<forall>j. \<not> signalled H j" and "quiet_host H p"
  shows "fst (watch_loop H 0 (2 ^ 31) p) = Inl (Undef SignedOverflow)"
proof -
  obtain N :: nat where N: "N = 2 ^ 31 - 1" by simp
  then have e: "(2 :: nat) ^ 31 = N + 1" and b: "N < 2 ^ 31" by simp_all
  let ?p = "p\<lparr>p_notes := concat (map (round_notes (p_daemon p)) (rev [0..<N])) @ p_notes p\<rparr>"
  have "watch_loop H 0 (N + 1) p = watch_loop H N 1 ?p"
    using watch_rounds [of 0 N H p 1] assms b by simp
  moreover have "quiet_host H ?p" using assms(2) by (simp add: quiet_host_def)
  with watch_round [of H ?p N 0] assms(1) N have "fst (watch_loop H N 1 ?p) = Inl (Undef SignedOverflow)"
    by simp
  ultimately show ?thesis unfolding e by simp
qed

text \<open>
  The sleep between two pings is at most half the watchdog's interval, whatever the interval; and
  with no watchdog, when the daemon was not started by systemd, it is zero, so that the loop spins.
\<close>
theorem watchdog_sleep_bound:
  assumes "Usleep x \<in> set (round_notes d i)"
  shows "unat x \<le> unat (watchdog_interval_usecs d) div 2 \<and> (watchdog_interval_usecs d = 0 \<longrightarrow> x = 0)"
proof -
  have x: "x = ucast (watchdog_interval_usecs d div 2)" using assms by (auto simp: round_notes_def)
  have "unat x \<le> unat (watchdog_interval_usecs d div 2)"
    unfolding x by (simp add: unsigned_ucast_eq take_bit_nat_less_eq_self)
  moreover have "unat (watchdog_interval_usecs d div 2) = unat (watchdog_interval_usecs d) div 2"
    by (simp add: unat_div)
  ultimately show ?thesis using x by auto
qed

section \<open>Starting up\<close>

lemma watch_loop_result:
  "watch_loop H i n p = (Inr r, p') \<Longrightarrow> (r = None \<or> r = Some 0) \<and> p_world p' = p_world p \<and>
     set (p_notes p) \<subseteq> set (p_notes p') \<and> p_threads p' = p_threads p"
proof (induction n arbitrary: i p)
  case (Suc n)
  let ?d = "\<lambda>p. if signalled H i then p\<lparr>p_daemon := systemd_shutdown_signal_catcher SIGTERM (p_daemon p)\<rparr> else p"
  show ?case
  proof (cases "got_systemd_shutdown_signal (p_daemon (?d p)) = 0")
    case False
    with Suc.prems show ?thesis
      by (auto simp: whenM_def set_daemon_def bindM_apply thenM_def EXIT_SUCCESS_def split: if_splits)
  next
    case True
    then have ns: "\<not> signalled H i" by (auto simp: systemd_shutdown_signal_catcher_def)
    with True Suc.prems obtain q where "watch_loop H (Suc i) n q = (Inr r, p')" "p_world q = p_world p"
      "set (p_notes p) \<subseteq> set (p_notes q)" "p_threads q = p_threads p"
      by (auto simp: whenM_def set_daemon_def notify_def bindM_apply thenM_def subset_insertI2 split: if_splits
          intro!: that)
    with Suc.IH [OF this(1)] show ?thesis by auto
  qed
qed auto

lemma start_daemon_result:
  assumes "start_daemon J E H lease p = (Inr (), p')"
  shows "log_level (wlog (p_world p')) = LOG_NOTICE \<and> Ready_note \<in> set (p_notes p')"
proof -
  from assms obtain p1 p2 p3 p4 where "main_threads E H p1 = (Inr (), p2)" "main_watchdog E H p2 = (Inr (), p3)"
    "notify Ready_note p3 = (Inr (), p')"
    unfolding start_daemon_def by (auto simp: thenM_eq_Inr)
  moreover from this(1) have "log_level (wlog (p_world p2)) = LOG_NOTICE"
    by (auto simp: main_threads_def thenM_eq_Inr set_log_level_def)
  moreover from \<open>main_watchdog E H p2 = (Inr (), p3)\<close> have "p_world p3 = p_world p2"
    by (auto simp: main_watchdog_def set_daemon_def split: option.splits prod.splits if_splits)
  ultimately show ?thesis by (auto simp: notify_def)
qed

text \<open>
  C35: What \<open>main\<close> returns, when it neither exits nor faults: 1 if the signal handlers could not be set;
  else 0 or nothing yet, and then the service manager has been told that the daemon is ready, and
  from then on every error and warning logged through the daemon's logger is dropped.
\<close>
theorem running_daemon_drops_errors:
  assumes "daemon_main J E H what args rounds p = (Inr r, p')"
  shows "r = Some 1 \<and> (\<exists>s \<in> {SIGTERM, SIGINT, SIGHUP}. sigaction H s = -1) \<or>
    (r = None \<or> r = Some 0) \<and> Ready_note \<in> set (p_notes p') \<and>
    (\<forall>E' m. logger E' LOG_ERR m (p_world p') = (Inr (), p_world p') \<and>
       logger E' LOG_WARNING m (p_world p') = (Inr (), p_world p'))"
proof -
  from assms obtain lease p1 where "\<exists>p2. (if run_diagnostic (p_daemon p2)
      then bindM (in_world (run_self_tests J E what)) (\<lambda>r. raise (Exit r))
      else thenM (set_daemon (got_systemd_shutdown_signal_update (\<lambda>_. 0)))
        (if sigaction H SIGTERM = -1 \<or> sigaction H SIGINT = -1 \<or> sigaction H SIGHUP = -1 then ret (Some EXIT_FAILURE)
         else thenM (start_daemon J E H lease) (watch_loop H 0 rounds))) p2 = (Inr r, p')"
    unfolding daemon_main_def by (auto simp: bindM_eq_Inr thenM_eq_Inr simp del: bindM_Inr)
  then obtain p3 where m: "(if sigaction H SIGTERM = -1 \<or> sigaction H SIGINT = -1 \<or> sigaction H SIGHUP = -1
      then ret (Some EXIT_FAILURE) else thenM (start_daemon J E H lease) (watch_loop H 0 rounds)) p3 = (Inr r, p')"
    by (auto simp: bindM_eq_Inr thenM_eq_Inr simp del: bindM_Inr split: if_splits)
  show ?thesis
  proof (cases "sigaction H SIGTERM = -1 \<or> sigaction H SIGINT = -1 \<or> sigaction H SIGHUP = -1")
    case True
    with m show ?thesis by (auto simp: EXIT_FAILURE_def)
  next
    case False
    with m obtain p4 where s: "start_daemon J E H lease p3 = (Inr (), p4)" and
      w: "watch_loop H 0 rounds p4 = (Inr r, p')"
      by (auto simp: thenM_eq_Inr)
    from start_daemon_result [OF s] watch_loop_result [OF w] show ?thesis
      by (auto simp: logger_def bindM_apply LOG_NOTICE_def LOG_ERR_def LOG_WARNING_def)
  qed
qed

section \<open>A daemon at work\<close>

text \<open>A host whose thread library refuses every thread, and on which a signal arrives in the third round.\<close>

definition no_threads :: pthread_calls where
  "no_threads = \<lparr>attr_init = 0, attr_setstacksize = 0, calloc_tinfo = Some ''0x1'', pthread_create = 11, attr_destroy = 0\<rparr>"

definition all_threads :: pthread_calls where "all_threads = no_threads\<lparr>pthread_create := 0\<rparr>"

definition poor_host :: host_os where
  "poor_host = \<lparr>sigaction = (\<lambda>_. 0), grpc_calls = no_threads, refresh_calls = no_threads,
     sd_watchdog_enabled = (1, 10000000), signalled = (\<lambda>i. i = 2), health_stub = (\<lambda>_. Failure),
     project_version = ''1.3.6'', exit_using_file = False\<rparr>"

definition patient_host :: host_os where
  "patient_host = poor_host\<lparr>signalled := (\<lambda>_. False)\<rparr>"

definition new_process :: process where
  "new_process = \<lparr>p_world = gmsa_world, p_daemon = new_daemon, p_threads = [], p_notes = []\<rparr>"

lemma new_process_quiet: "quiet_host poor_host new_process" "quiet_host patient_host new_process"
  by (simp_all add: quiet_host_def new_process_def new_daemon_def poor_host_def patient_host_def)

theorem create_pthread_result_witness:
  "\<exists>p'. create_pthread (all_threads\<lparr>attr_destroy := 22\<rparr>) (Some Grpc_thread) (-1) new_process = (Inr (1, None), p') \<and>
     p_threads p' = [Grpc_thread]"
proof -
  obtain r p' where r: "create_pthread (all_threads\<lparr>attr_destroy := 22\<rparr>) (Some Grpc_thread) (-1) new_process = (r, p')"
    by force
  from create_pthread_result [OF r] show ?thesis
    unfolding r by (auto simp: all_threads_def no_threads_def new_process_def)
qed

theorem ready_without_threads_witness:
  "\<exists>p'. start_daemon tree_json quiet_env poor_host [] new_process = (Inr (), p') \<and> p_threads p' = [] \<and>
     p_notes p' = [Ready_note]"
proof -
  have "log_writable quiet_env" "log_ok (p_world new_process)" "cred_file (p_daemon new_process) = []"
    "getenv quiet_env ''CREDENTIALS_FETCHERD_STARTED_BY_SYSTEMD'' = None"
    "pthread_create (grpc_calls poor_host) \<noteq> 0" "pthread_create (refresh_calls poor_host) \<noteq> 0"
    by (simp_all add: quiet_env_def new_process_def new_daemon_def poor_host_def no_threads_def log_ok_def
        gmsa_world_def start_world_def init_logger_def set_log_level_def log_ring_size_def)
  from ready_without_threads [OF this, of tree_json "[]"] show ?thesis by (simp add: new_process_def)
qed

theorem shutdown_signal_ends_daemon_witness:
  "\<exists>p'. watch_loop poor_host 0 10 new_process = (Inr (Some 0), p') \<and> length (p_notes p') = 6"
proof -
  have s: "signalled poor_host 2" "\<forall>j < 2. \<not> signalled poor_host j" "(2 :: nat) < 2 ^ 31" "(2 :: nat) < 10"
    by (simp_all add: poor_host_def)
  from shutdown_signal_ends_daemon [OF s(1-3) new_process_quiet(1) s(4)] show ?thesis
    by (auto simp: round_notes_def new_process_def numeral_2_eq_2)
qed

theorem round_counter_overflows_witness:
  "fst (watch_loop patient_host 0 (2 ^ 31) new_process) = Inl (Undef SignedOverflow)"
proof -
  have "\<forall>j. \<not> signalled patient_host j" by (simp add: patient_host_def)
  from round_counter_overflows [OF this new_process_quiet(2)] show ?thesis .
qed

theorem watchdog_sleep_bound_witness:
  "Usleep 0 \<in> set (round_notes new_daemon 7) \<and> (0 :: nat) \<le> unat (watchdog_interval_usecs new_daemon) div 2"
proof -
  have "Usleep 0 \<in> set (round_notes new_daemon 7)" by (simp add: round_notes_def new_daemon_def)
  with watchdog_sleep_bound [OF this] show ?thesis by simp
qed

lemma quiet_log [simp]: "log_level (wlog w) = 7 \<Longrightarrow> l < 7 \<Longrightarrow> logger E l m w = (Inr (), w)"
  by (simp add: logger_def bindM_apply)

lemma poor_host_options:
  "parse_options (\<lambda>_. Failure) ''1.3.6'' [''-s'', ''gmsa''] new_daemon w =
     (Inr ([], 0, new_daemon\<lparr>aws_sm_secret_name := ''gmsa''\<rparr>), w)"
proof -
  have "getopt_long optstring long_options [''-s'', ''gmsa''] = [(CHR ''s'', ''gmsa'')]" by code_simp
  then show ?thesis
    by (simp add: parse_options_def catchM_def bindM_apply EXIT_SUCCESS_def del: getopt_long.simps)
qed

lemma poor_host_runs:
  "\<exists>p'. daemon_main tree_json quiet_env poor_host (\<lambda>_. []) [''-s'', ''gmsa''] 0 new_process = (Inr None, p')"
proof -
  have w: "log_level (wlog gmsa_world) = 7" by (simp add: gmsa_world_def set_log_level_def)
  have "LOG_ERR < 7" by (simp add: LOG_ERR_def)
  note log = quiet_log [OF w this]
  have e: "getenv quiet_env x = None" for x by (simp add: quiet_env_def)
  have h: "health_stub poor_host = (\<lambda>_. Failure)" "project_version poor_host = ''1.3.6''" "\<And>s. sigaction poor_host s = 0"
    "pthread_create (grpc_calls poor_host) \<noteq> 0" "pthread_create (refresh_calls poor_host) \<noteq> 0"
    by (simp_all add: poor_host_def no_threads_def)
  let ?d = "set_directories (new_daemon\<lparr>aws_sm_secret_name := ''gmsa''\<rparr>)\<lparr>daemon_domain_name := CF_TEST_DOMAIN_NAME,
      gmsa_account_name := CF_TEST_GMSA_ACCOUNT\<rparr>"
  have c: "main_configure quiet_env poor_host [''-s'', ''gmsa''] new_process = (Inr [], new_process\<lparr>p_daemon := ?d\<rparr>)"
    by (simp add: main_configure_def new_process_def bindM_apply thenM_def in_world_def h poor_host_options set_daemon_def
        log read_cred_file_variable_def e EXIT_SUCCESS_def del: getopt_long.simps)
  have l: "log_configuration quiet_env [] (new_process\<lparr>p_daemon := ?d\<rparr>) = (Inr (), new_process\<lparr>p_daemon := ?d\<rparr>)"
    by (simp add: log_configuration_def new_process_def bindM_apply thenM_def in_world_def log)
  have "\<exists>q. start_daemon tree_json quiet_env poor_host [] (new_process\<lparr>p_daemon := ?d\<rparr>) = (Inr (), q)"
    using start_without_threads [of quiet_env "new_process\<lparr>p_daemon := ?d\<rparr>" poor_host tree_json "[]"] h e
    by (force simp: quiet_env_def new_process_def log_ok_def gmsa_world_def start_world_def init_logger_def
        set_log_level_def log_ring_size_def set_directories_def new_daemon_def)
  then obtain q where s: "start_daemon tree_json quiet_env poor_host [] (new_process\<lparr>p_daemon := ?d\<rparr>) = (Inr (), q)" ..
  have "?d\<lparr>got_systemd_shutdown_signal := 0\<rparr> = ?d" "\<not> run_diagnostic ?d"
    by (simp_all add: set_directories_def new_daemon_def)
  with c l s show ?thesis
    by (simp add: daemon_main_def bindM_apply thenM_def h set_daemon_def)
qed

theorem running_daemon_drops_errors_witness:
  "\<exists>p'. daemon_main tree_json quiet_env poor_host (\<lambda>_. []) [''-s'', ''gmsa''] 0 new_process = (Inr None, p') \<and>
     logger quiet_env LOG_ERR ''no ticket'' (p_world p') = (Inr (), p_world p')"
proof -
  obtain p' where r: "daemon_main tree_json quiet_env poor_host (\<lambda>_. []) [''-s'', ''gmsa''] 0 new_process =
      (Inr None, p')"
    using poor_host_runs by blast
  with running_daemon_drops_errors [OF r] show ?thesis by auto
qed

end
