(* ===== verification/Lifecycle.thy ===== *)
theory Lifecycle
  imports Daemon_Main
begin

text \<open>
  What the components promise together: a lease that one handler of api/src/gmsa_service.cpp has
  created is removed by another one, the metadata a handler has written is found by the renewal
  of auth/kerberos/src/krb.cpp, and the server passes a rejected request on without touching the
  host. Nothing of the program is defined here; the theory composes the operations of the others.
\<close>

section \<open>From the lease to its deletion\<close>

text \<open>
  What \<open>kdestroy\<close> may do while a lease is deleted: anything to the files in the directory of the lease, as
  long as the directory itself stays and nothing outside it changes.
\<close>

definition same_outside :: "loc \<Rightarrow> fs \<Rightarrow> fs \<Rightarrow> bool" where
  "same_outside l F F' \<longleftrightarrow> (\<forall>k. \<not> prefix l k \<longrightarrow> fs_lookup F' k = fs_lookup F k) \<and> (is_dir_at F l \<longrightarrow> is_dir_at F' l)"

definition tidy_kdestroy :: "env \<Rightarrow> loc \<Rightarrow> bool" where
  "tidy_kdestroy E l \<longleftrightarrow> (\<forall>h F q. same_outside l F (snd (snd (shell_run E h F (c_str (kdestroy_cmd q))))))"

lemma same_outside_refl [simp]: "same_outside l F F"
  by (simp add: same_outside_def)

lemma same_outside_trans: "same_outside l F G \<Longrightarrow> same_outside l G H \<Longrightarrow> same_outside l F H"
  by (auto simp: same_outside_def)

text \<open>A loop every step of which returns and leaves the outside alone does so too.\<close>

lemma foldM_same_outside:
  assumes "\<And>s x w. \<exists>s' w'. f s x w = (Inr s', w') \<and> same_outside l (wfs w) (wfs w')"
  shows "\<exists>s' w'. foldM f s xs w = (Inr s', w') \<and> same_outside l (wfs w) (wfs w')"
proof (induction xs arbitrary: s w)
  case (Cons x xs)
  obtain s1 w1 where 1: "f s x w = (Inr s1, w1)" "same_outside l (wfs w) (wfs w1)" using assms by blast
  obtain s2 w2 where 2: "foldM f s1 xs w1 = (Inr s2, w2)" "same_outside l (wfs w1) (wfs w2)" using Cons.IH by blast
  with 1 same_outside_trans show ?case by (auto simp: bindM_def)
qed simp

lemma destroy_tidy:
  assumes "tidy_kdestroy E l"
  shows "\<exists>ps' w'. foldM (destroy_file J E p) ps names w = (Inr ps', w') \<and> same_outside l (wfs w) (wfs w')"
proof (rule foldM_same_outside)
  have ticket: "\<exists>s' w'. destroy_ticket E s t w = (Inr s', w') \<and> same_outside l (wfs w) (wfs w')" for s t w
  proof -
    obtain r w' where x: "exec_shell_cmd E (kdestroy_cmd (krb_file_path t)) w = (Inr r, w')"
      using exec_shell_cmd_returns by blast
    then have "wfs w' = wfs w \<or> wfs w' = snd (snd (shell_run E (evs w) (wfs w) (c_str (kdestroy_cmd (krb_file_path t)))))"
      by (auto simp: exec_shell_cmd_def Let_def split: prod.splits if_splits)
    then have "same_outside l (wfs w) (wfs w')" using assms by (auto simp: tidy_kdestroy_def)
    with x show ?thesis by (simp add: destroy_ticket_def)
  qed
  show "\<exists>s' w'. destroy_file J E p s n w = (Inr s', w') \<and> same_outside l (wfs w) (wfs w')" for s n w
    using foldM_same_outside [of "destroy_ticket E" l s "metadata_at J (p @ ''/'' @ n) (wfs w)" w, OF ticket]
      read_metadata_at [of J "p @ ''/'' @ n" w]
    by (auto simp: destroy_file_def)
qed

text \<open>Names are walked through directories only.\<close>

lemma walk_plain_iff:
  "''..'' \<notin> set cs \<Longrightarrow> walk F cur cs =
    (if \<forall>n < length cs. is_dir_at F (cur @ take n cs) then Some (cur @ cs) else None)"
proof (induction cs arbitrary: cur)
  case (Cons c cs)
  have "(\<forall>n < length (c # cs). is_dir_at F (cur @ take n (c # cs))) \<longleftrightarrow>
      is_dir_at F cur \<and> (\<forall>n < length cs. is_dir_at F ((cur @ [c]) @ take n cs))"
    by (auto simp: less_Suc_eq_0_disj)
  with Cons show ?case by auto
qed simp

lemma walk_through:
  assumes "walk F [] (ds @ c # cs) = Some l" and "''..'' \<notin> set ds"
  shows "walk F [] ds = Some ds \<and> is_dir_at F ds"
proof -
  from assms(1) obtain m where m: "walk F [] ds = Some m" "walk F m (c # cs) = Some l"
    by (auto simp: walk_app split: option.splits)
  moreover have "m = ds" using walk_plain [OF _ m(1)] assms(2) by auto
  ultimately show ?thesis by (auto split: if_splits)
qed

lemma walk_outside:
  assumes "same_outside l F F'" and "''..'' \<notin> set l"
  shows "walk F' [] l = walk F [] l"
proof -
  have "is_dir_at F' (take n l) = is_dir_at F (take n l)" if "n < length l" for n
  proof -
    have "\<not> prefix l (take n l)" using that by (auto dest: prefix_length_le)
    with assms(1) show ?thesis by (simp add: same_outside_def is_dir_at_def)
  qed
  with assms(2) show ?thesis by (simp add: walk_plain_iff)
qed

text \<open>
  Deleting one plain path component under the ticket directory always succeeds. It changes nothing
  outside the lease's directory, and no path that leads through that directory exists afterwards.
\<close>

lemma deletion_clears:
  assumes E: "tidy_kdestroy E (components dir @ [lease])"
    and lease: "NUL \<notin> set (dir @ lease)" "CHR ''/'' \<notin> set lease" "lease \<noteq> []" "lease \<noteq> ''.''" "lease \<noteq> ''..''"
    and dir: "dir \<noteq> []" "''..'' \<notin> set (components dir)"
  shows "\<exists>paths w'. delete_krb_tickets J E dir lease w = (Inr paths, w') \<and>
    (\<forall>k. \<not> prefix (components dir @ [lease]) k \<longrightarrow> fs_lookup (wfs w') k = fs_lookup (wfs w) k) \<and>
    (\<forall>p c cs. components p = components dir @ lease # c # cs \<longrightarrow> \<not> fs_exists (wfs w') p)"
proof -
  let ?l = "components dir @ [lease]" and ?p = "dir @ ''/'' @ lease"
  have comp: "components ?p = ?l" using lease by (intro components_snoc)
  have plain: "''..'' \<notin> set ?l" using lease(5) dir(2) by auto
  have str: "c_str ?p \<noteq> []" using lease(1) dir(1) by (cases dir) (auto simp: c_str_def NUL_def)
  have gone: "\<not> fs_exists F p" if "components p = ?l @ c # cs" and "\<not> (walk F [] ?l = Some ?l \<and> is_dir_at F ?l)"
    for F p c cs
    using that walk_through [OF _ plain, of F c cs]
    by (auto simp: fs_exists_def fs_stat_def resolve_def split: if_splits option.splits)
  show ?thesis
  proof (cases "read_dir ?p (wfs w)")
    case None
    then have "\<not> (walk (wfs w) [] ?l = Some ?l \<and> is_dir_at (wfs w) ?l)"
      using str unfolding read_dir_def resolve_def comp by auto
    moreover have "delete_krb_tickets J E dir lease w = (Inr [], w)"
      using None lease(3) dir(1) by (simp add: delete_krb_tickets_def Let_def bindM_apply)
    ultimately show ?thesis using gone [of _ _ _ "wfs w"] by auto
  next
    case (Some names)
    obtain ps w1 where d: "foldM (destroy_file J E ?p) [] names w = (Inr ps, w1)" "same_outside ?l (wfs w) (wfs w1)"
      using destroy_tidy [OF E] by blast
    from resolve_lease [OF Some] obtain l where l: "resolve (wfs w) ?p = Some l" by blast
    then have "walk (wfs w) [] ?l = Some l" unfolding resolve_def comp by (simp split: if_splits)
    moreover from this have "l = ?l" using walk_plain [of ?l "wfs w" "[]" l] plain by auto
    ultimately have r: "resolve (wfs w1) ?p = Some ?l"
      using str walk_outside [OF d(2) plain] unfolding resolve_def comp by simp
    let ?w' = "w1\<lparr>wfs := remove_all ?p (wfs w1)\<rparr>"
    have "delete_krb_tickets J E dir lease w = (Inr ps, ?w')"
      using Some d(1) lease(3) dir(1) by (simp add: delete_krb_tickets_def Let_def bindM_apply thenM_def)
    moreover have "\<not> is_dir_at (wfs ?w') ?l"
      using remove_all_gone [OF r, of ?l] by (simp add: is_dir_at_def)
    moreover have "fs_lookup (wfs ?w') k = fs_lookup (wfs w) k" if "\<not> prefix ?l k" for k
      using remove_all_frame [OF r _ that] d(2) that by (simp add: same_outside_def)
    ultimately show ?thesis using gone [of _ _ _ "wfs ?w'"]
      by (intro exI [of _ ps] exI [of _ ?w']) (auto simp del: world.select_convs)
  qed
qed

lemma ticket_cache_components:
  assumes "NUL \<notin> set (ticket_dir dir lease account)" and "CHR ''/'' \<notin> set lease" "lease \<noteq> []" "lease \<noteq> ''.''"
  shows "\<exists>c cs. components (ccache_name (ticket_dir dir lease account)) = components dir @ lease # c # cs"
proof -
  have nul: "NUL \<notin> set (dir @ lease @ account)" using assms(1) by (auto simp: ticket_dir_def)
  let ?cc = "account @ ''/krb5cc''"
  have n: "NUL \<notin> set (dir @ lease @ ''/'' @ ?cc)" "NUL \<notin> set (lease @ ?cc)" using nul by (auto simp: NUL_def)
  have "components (ccache_name (ticket_dir dir lease account)) = components (dir @ ''/'' @ lease @ ''/'' @ ?cc)"
    by (simp add: ccache_name_def ticket_dir_def)
  also have "\<dots> = components dir @ components lease @ components ?cc"
    using components_append [OF n(1)] components_append [OF n(2)] by simp
  also have "components lease = [lease]" using nul assms by (intro components_single) auto
  also have "components ?cc = components account @ [''krb5cc'']"
    using components_snoc [of account "''krb5cc''"] nul by (simp add: NUL_def)
  finally show ?thesis by (cases "components account") auto
qed

lemma lease_plain_component:
  assumes "generate_lease_id E w = (Inr lease, w')"
  shows "NUL \<notin> set lease" and "CHR ''/'' \<notin> set lease" and "lease \<noteq> []" and "lease \<noteq> ''.''" and "lease \<noteq> ''..''"
proof -
  have "\<not> isalnum NUL" "\<not> isalnum CHR ''/''" "\<not> isalnum CHR ''.''" by code_simp+
  with lease_id_plain [OF assms] show "NUL \<notin> set lease" "CHR ''/'' \<notin> set lease" "lease \<noteq> []"
    "lease \<noteq> ''.''" "lease \<noteq> ''..''" by fastforce+
qed



section \<open>From the metadata file to the renewal\<close>

text \<open>A file in the directory of a lease is one of those a walk over the ticket directory meets.\<close>

lemma lease_file_listed:
  assumes "NUL \<notin> set (dir @ lease @ f)" and "dir \<noteq> []" and "''..'' \<notin> set (components dir)"
    and "CHR ''/'' \<notin> set lease" "lease \<noteq> []" "lease \<noteq> ''.''" "lease \<noteq> ''..''"
    and "CHR ''/'' \<notin> set f" "f \<noteq> []" "f \<noteq> ''.''" "f \<noteq> ''..''"
    and "read_file ((dir @ ''/'' @ lease) @ ''/'' @ f) F = Some c"
  shows "\<exists>files. files_below dir F = Inr files \<and> (dir @ ''/'' @ lease, f) \<in> set files"
proof -
  let ?d = "components dir" and ?l = "components dir @ [lease, f]"
  have nul: "NUL \<notin> set (dir @ lease)" "NUL \<notin> set ((dir @ ''/'' @ lease) @ f)" "c_str dir \<noteq> []"
    using assms(1,2) by (cases dir; auto simp: c_str_def NUL_def)+
  have comp: "components ((dir @ ''/'' @ lease) @ ''/'' @ f) = ?l"
    using components_snoc [OF nul(2) assms(8-10)] components_snoc [OF nul(1) assms(4-6)] by simp
  have plain: "''..'' \<notin> set ?l" using assms(3,7,11) by auto
  from assms(12) obtain k i where k: "resolve F ((dir @ ''/'' @ lease) @ ''/'' @ f) = Some k"
    "fs_lookup F k = Some i" "ikind i = Reg c"
    by (auto simp: read_file_def fs_stat_def split: option.splits node.splits)
  from k(1) have w: "walk F [] ?l = Some k" unfolding resolve_def comp by (simp split: if_splits)
  then have "k = ?l" using walk_plain [of ?l F "[]" k] plain by auto
  with k(2,3) have "(?l, i) \<in> set F" by (auto simp: fs_lookup_def dest: map_of_SomeD)
  moreover from walk_through [of F ?d lease "[f]"] w assms(3) have d: "walk F [] ?d = Some ?d" "is_dir_at F ?d"
    by auto
  ultimately show ?thesis
    using k(3) nul(3) by (force simp: files_below_def resolve_def strict_prefix_def butlast_append)
qed

lemma find_sub_inside: "find_sub s (a @ s @ b) \<noteq> None"
  using find_sub_None [of s "a @ s @ b"] by blast

lemma lease_metadata_found:
  assumes "json_laws J"
    and "NUL \<notin> set (dir @ lease)" and "dir \<noteq> []" and "''..'' \<notin> set (components dir)"
    and "CHR ''/'' \<notin> set lease" and "lease \<noteq> []" and "lease \<noteq> ''.''" and "lease \<noteq> ''..''"
    and "\<not> is_dir_at (wfs w) (components (dir @ ''/'' @ lease) @ [meta_file_name lease])"
    and "create_directories (dir @ ''/'' @ lease) (wfs w) = Inr F"
    and "\<forall>t \<in> set ts. ascii_ticket t \<and> \<not> contains_invalid_characters (krb_file_path t) \<and>
      fs_exists (wfs w) (krb_file_path t)"
  shows "\<exists>w' files. write_meta_data_json J ts lease dir w = (Inr 0, w') \<and>
    get_meta_data_file_paths dir w' = (Inr files, w') \<and> meta_file_path dir lease \<in> set files \<and>
    read_meta_data_json J (meta_file_path dir lease) w' = (Inr (map (\<lambda>t. t\<lparr>credential_arn := []\<rparr>) ts), w')"
proof -
  let ?f = "meta_file_name lease" and ?p = "meta_file_path dir lease"
  have up: "''..'' \<notin> set (components (dir @ ''/'' @ lease))"
    using components_snoc [OF assms(2,5,6,7)] assms(4,8) by auto
  obtain w' where w': "write_meta_data_json J ts lease dir w = (Inr 0, w')"
    "read_meta_data_json J ?p w' = (Inr (map (\<lambda>t. t\<lparr>credential_arn := []\<rparr>) ts), w')"
    using metadata_read_back [OF assms(1,2,5,3) up assms(9-11)] by blast
  let ?text = "write_string J (record_array J ''krb_ticket_info'' (map ticket_fields ts))"
  obtain F' where F': "write_file ?p ?text F = Some F'" "read_file ?p F' = Some ?text"
    "parent_path ?p = dir @ ''/'' @ lease"
    using meta_file_written [OF assms(2,5,3) up assms(9,10)] by blast
  then have "wfs w' = F'"
    using write_meta_data_apply [of dir lease w F J ts] assms(10) w'(1) by auto
  with F'(2) have r: "read_file ((dir @ ''/'' @ lease) @ ''/'' @ ?f) (wfs w') = Some ?text"
    by (simp add: meta_file_path_def)
  have f: "NUL \<notin> set (dir @ lease @ ?f)" "CHR ''/'' \<notin> set ?f" "?f \<noteq> []" "?f \<noteq> ''.''" "?f \<noteq> ''..''"
    using assms(2,5) by (auto simp: meta_file_name_def NUL_def append_eq_Cons_conv)
  obtain files where l: "files_below dir (wfs w') = Inr files" "(dir @ ''/'' @ lease, ?f) \<in> set files"
    using lease_file_listed [OF f(1) assms(3,4,5,6,7,8) f(2-5) r] by blast
  have "find_sub ''_metadata'' ?f \<noteq> None"
    using find_sub_inside [of "''_metadata''" lease "''.json''"] by (simp add: meta_file_name_def)
  with l f(3) have "?p \<in> set (map (\<lambda>(parent, filename). parent @ ''/'' @ filename)
      (filter (\<lambda>(_, filename). filename \<noteq> [] \<and> find_sub ''_metadata'' filename \<noteq> None) files))"
    by (force simp: meta_file_path_def)
  with l(1) w' show ?thesis by (simp add: get_meta_data_file_paths_def bindM_apply)
qed

text \<open>
  C11: What a handler writes about a lease reaches the renewal: the metadata file is among those the
  next round finds under the ticket directory, and reading it there yields the tickets of the lease
  in order, for tickets with ASCII fields, clean paths and existing ticket files.
\<close>
theorem written_lease_found_by_renewal:
  assumes "json_laws J"
    and "NUL \<notin> set (dir @ lease)" and "dir \<noteq> []" and "''..'' \<notin> set (components dir)"
    and "CHR ''/'' \<notin> set lease" and "lease \<noteq> []" and "lease \<noteq> ''.''" and "lease \<noteq> ''..''"
    and "\<not> is_dir_at (wfs w) (components (dir @ ''/'' @ lease) @ [meta_file_name lease])"
    and "create_directories (dir @ ''/'' @ lease) (wfs w) = Inr F"
    and "\<forall>t \<in> set ts. ascii_ticket t \<and> \<not> contains_invalid_characters (krb_file_path t) \<and>
      fs_exists (wfs w) (krb_file_path t)"
  shows "\<exists>w' files. write_meta_data_json J ts lease dir w = (Inr 0, w') \<and>
    get_meta_data_file_paths dir w' = (Inr files, w') \<and> meta_file_path dir lease \<in> set files \<and>
    read_meta_data_json J (meta_file_path dir lease) w' = (Inr (map (\<lambda>t. t\<lparr>credential_arn := []\<rparr>) ts), w')"
  using lease_metadata_found [OF assms] .

theorem written_lease_found_by_renewal_witness:
  "\<exists>w' files. write_meta_data_json tree_json [cache_ticket] ''l'' ''/k'' cache_world = (Inr 0, w') \<and>
     get_meta_data_file_paths ''/k'' w' = (Inr files, w') \<and> meta_file_path ''/k'' ''l'' \<in> set files"
proof -
  have "''..'' \<notin> set (components ''/k'')" by code_simp
  moreover have "''l'' \<noteq> []" "''l'' \<noteq> ''.''" "''l'' \<noteq> ''..''" by simp_all
  ultimately show ?thesis
    using written_lease_found_by_renewal [OF tree_json_laws cache_lease(1,3) _ cache_lease(2) _ _ _ cache_lease(5-7)]
    by blast
qed


definition broken_shell_env :: env where
  "broken_shell_env = quiet_env\<lparr>shell_start := (\<lambda>_ _. False)\<rparr>"

definition checked_world :: world where
  "checked_world = cache_world\<lparr>wlog := set_log_level 7 init_logger\<rparr>"

lemma checked_round:
  "fst (write_meta_data_json tree_json [cache_ticket] ''l'' ''/k'' checked_world) = Inr 0"
  "map_sum id (\<lambda>_. ()) (fst (renewal_round tree_json broken_shell_env 10 ''/k'' init_logger
     (snd (write_meta_data_json tree_json [cache_ticket] ''l'' ''/k'' checked_world)))) = Inr ()"
  by code_simp+


section \<open>What the requests keep\<close>

context world_inv begin

lemma keeps_run_lease: "(\<And>t. keeps I (one t)) \<Longrightarrow> keeps I (run_lease J ss kd l one err ts r)"
  unfolding run_lease_def by (intro keeps_intros keeps_create_tickets keeps_finish_lease)

lemma keeps_lease_id: "keeps I (generate_lease_id E)"
  unfolding generate_lease_id_def by (intro keeps_intros)

lemma keeps_create_lease: "keeps I (process_create_kerberos_lease J E kd secret contents)"
  unfolding process_create_kerberos_lease_def
  by (intro keeps_intros keeps_lease_id keeps_run_lease keeps_joined_round)

lemma keeps_add_lease: "keeps I (process_add_non_domain_joined J E kd q)"
  unfolding process_add_non_domain_joined_def
  by (intro keeps_intros keeps_lease_id keeps_run_lease keeps_domainless_round)

lemma keeps_renew_lease: "keeps I (process_renew_non_domain_joined J E kd q)"
  unfolding process_renew_non_domain_joined_def Let_def by (intro keeps_intros keeps_renew_domainless keeps_secure_clear)

lemma keeps_delete_lease: "keeps I (process_delete_kerberos_lease J E kd l)"
  unfolding process_delete_kerberos_lease_def by (intro keeps_intros keeps_delete)

lemma keeps_collect_arn: "keeps I (collect_arn J A kd q c s)"
  unfolding collect_arn_def collect_real_arn_def collect_test_arn_def touch_file_def Let_def
  by (intro keeps_intros keeps_s3 keeps_secrets_manager keeps_make_directories keeps_fs)

lemma keeps_collect_arns: "keeps I (collect_arns J A kd q cs s)"
  by (induction cs arbitrary: s) (auto intro!: keeps_intros keeps_collect_arn)

lemma keeps_create_arn: "keeps I (process_create_arn_lease J A E kd q)"
  unfolding process_create_arn_lease_def finish_arn_lease_def collect_arn_request_def Let_def
  by (intro keeps_intros keeps_collect_arns keeps_create_tickets keeps_arn_round keeps_finish_lease)

lemma keeps_renew_arn_tickets: "keeps I (renew_arn_tickets J A E q info mapping ts user)"
  by (induction ts arbitrary: info mapping user)
     (auto simp: Let_def intro!: keeps_intros keeps_s3 keeps_secrets_manager keeps_renew_gmsa split: prod.splits)

lemma keeps_renew_arn: "keeps I (process_renew_arn_lease J A E kd q)"
  unfolding process_renew_arn_lease_def renew_arn_file_def
  by (intro keeps_intros keeps_meta_paths keeps_read_meta keeps_renew_arn_tickets keeps_secure_clear)

lemma keeps_rpc_handle: "keeps I (rpc_handle J A E kd secret K q)"
  by (cases K)
     (auto simp: rpc_handle_def intro!: keeps_intros keeps_create_lease keeps_add_lease keeps_renew_lease
        keeps_delete_lease keeps_create_arn keeps_renew_arn)

text \<open>What every request keeps of the host, the server keeps as long as it runs.\<close>

lemma server_keeps:
  assumes "server_ok classes s" and "build_classes classes"
    and "server_step (rpc_handle J A E kd secret) classes s t" and "I (host s)"
  shows "I (host t)"
  using ok_step [OF assms(1-3), THEN conjunct2]
proof cases
  case (serve_one K q w a w' rs)
  with assms(4) keepsD [OF keeps_rpc_handle, of w J A E kd secret K q] show ?thesis by (simp add: abs_server_def)
next
  case unseen
  with assms(4) show ?thesis by (simp add: abs_server_def)
qed

lemma server_keeps_steps:
  assumes "(server_step (rpc_handle J A E kd secret) classes)\<^sup>*\<^sup>* s t"
    and "server_reach (rpc_handle J A E kd secret) classes s" and "build_classes classes" and "I (host s)"
  shows "I (host t) \<and> server_reach (rpc_handle J A E kd secret) classes t"
  using assms(1)
proof induction
  case base
  with assms(2,4) show ?case by simp
next
  case (step y z)
  with server_keeps [OF build_reach_ok [OF _ assms(3)] assms(3) step(2)] show ?case by (blast intro: server_reach.step)
qed

end

section \<open>What the server's answers are worth\<close>

definition reply_paths :: "rpc_reply \<Rightarrow> string list" where
  "reply_paths reply =
     (case reply of
        Lease_reply r \<Rightarrow> created_kerberos_file_paths r
      | Arn_reply r \<Rightarrow> map snd (krb_ticket_response_map r)
      | _ \<Rightarrow> [])"

lemma rpc_handle_made:
  assumes "rpc_handle J A E kd secret K q w = (Inr (reply, Grpc_OK), w')" and "p \<in> set (reply_paths reply)"
  shows "ticket_made p w'"
proof (cases K)
  case CallDataCreateKerberosLease
  with assms create_lease_OK(3) show ?thesis
    by (fastforce simp: rpc_handle_def reply_paths_def bindM_eq_Inr simp del: bindM_Inr)
next
  case CallDataAddNonDomainJoinedKerberosLease
  with assms add_lease_OK show ?thesis
    by (fastforce simp: rpc_handle_def reply_paths_def bindM_eq_Inr simp del: bindM_Inr)
next
  case CallDataCreateKerberosArnLease
  with assms arn_lease_made show ?thesis
    by (fastforce simp: rpc_handle_def reply_paths_def bindM_eq_Inr simp del: bindM_Inr)
qed (use assms in \<open>auto simp: rpc_handle_def reply_paths_def bindM_eq_Inr simp del: bindM_Inr\<close>)

lemma start_host: "forM new_call classes s = (Inr (), s') \<Longrightarrow> answers s' = answers s \<and> host s' = host s"
  by (induction classes arbitrary: s) (auto simp: new_call_apply with_call_def)

text \<open>The directories that the OK answers of a server list, and the tickets in them.\<close>

definition answers_made :: "server \<Rightarrow> bool" where
  "answers_made s \<longleftrightarrow> (\<forall>tag reply. (tag, reply, Grpc_OK) \<in> set (answers s) \<longrightarrow>
     (\<forall>p \<in> set (reply_paths reply). ticket_made p (host s)))"

lemma answers_madeD:
  "answers_made s \<Longrightarrow> (reply, Grpc_OK) \<in> set (map snd (answers s)) \<Longrightarrow> p \<in> set (reply_paths reply) \<Longrightarrow>
   ticket_made p (host s)"
  by (force simp: answers_made_def)

lemma step_answers_made:
  assumes "server_ok classes s" and "build_classes classes"
    and "server_step (rpc_handle J A E kd secret) classes s t" and "answers_made s"
  shows "answers_made t"
  unfolding answers_made_def
proof (intro allI impI ballI)
  fix tag reply p
  assume "(tag, reply, Grpc_OK) \<in> set (answers t)" and p: "p \<in> set (reply_paths reply)"
  then have t: "(reply, Grpc_OK) \<in> set (map snd (answers t))" by force
  note kept = made.server_keeps [OF assms(1-3), of p]
  from ok_step [OF assms(1-3), THEN conjunct2] show "ticket_made p (host t)"
  proof cases
    case (serve_one K q w a w' rs)
    then have "map snd (answers t) = map snd (answers s) @ [a]" by (simp add: abs_server_def)
    with t consider "(reply, Grpc_OK) \<in> set (map snd (answers s))" | "a = (reply, Grpc_OK)"
      by (auto simp del: set_map)
    then show ?thesis
    proof cases
      case 1
      with answers_madeD [OF assms(4) _ p] kept show ?thesis by blast
    next
      case 2
      with serve_one have "rpc_handle J A E kd secret K q (host s) = (Inr (reply, Grpc_OK), host t)"
        by (simp add: abs_server_def)
      then show ?thesis using p by (rule rpc_handle_made)
    qed
  next
    case unseen
    then have "map snd (answers t) = map snd (answers s)" by (simp add: abs_server_def)
    with t have "(reply, Grpc_OK) \<in> set (map snd (answers s))" by (simp only:)
    with answers_madeD [OF assms(4) _ p] kept show ?thesis by blast
  qed
qed

lemma start_answers_made: "forM new_call classes (empty_server w) = (Inr (), s) \<Longrightarrow> answers_made s"
  using start_host [of classes "empty_server w" s] by (simp add: answers_made_def empty_server_def)

lemma reach_answers_made:
  assumes "server_reach (rpc_handle J A E kd secret) classes s" and "build_classes classes"
  shows "answers_made s"
  using assms(1)
proof induction
  case (step s t)
  with step_answers_made [OF build_reach_ok [OF step(1) assms(2)] assms(2) step(2)] show ?case by blast
qed (rule start_answers_made)

text \<open>
  No answer the server has ever given lists a ticket that was not made: in every reachable
  state, for each directory in an OK answer of any class the host's history holds a \<open>kinit\<close> that was
  fed a 256-byte password and put its ticket there.
\<close>
theorem answers_list_made_tickets:
  assumes "server_reach (rpc_handle J A E kd secret) classes s" and "build_classes classes"
    and "(tag, reply, Grpc_OK) \<in> set (answers s)" and "p \<in> set (reply_paths reply)"
  shows "ticket_made p (host s)"
  using reach_answers_made [OF assms(1,2)] assms(3,4) unfolding answers_made_def by blast

text \<open>A server on the joined host, and the object that waits there for a request of some class.\<close>

lemma server_awaits:
  assumes "K \<in> set amazon_linux_classes"
  shows "\<exists>s tag. server_reach (rpc_handle J A E kd secret) amazon_linux_classes s \<and>
    awaiting K s tag \<and> host s = w \<and> answers s = []"
proof -
  obtain s where s: "forM new_call amazon_linux_classes (empty_server w) = (Inr (), s)" "server_ok amazon_linux_classes s"
    using start_ok [OF amazon_linux_distinct, of w] by blast
  then obtain tag where "awaiting K s tag" using assms by (auto simp: server_ok_def)
  with start_host [OF s(1)] server_reach.start [OF s(1)] show ?thesis by (auto simp: empty_server_def)
qed

lemma served_request:
  assumes "server_ok classes s" and "build_classes classes" and "awaiting K s tag"
    and "rpc_handle J A E kd secret K q (host s) = (Inr (reply, st), w)"
  shows "\<exists>t. handle_event (rpc_handle J A E kd secret) classes (Ready tag q) s = (Inr (), t) \<and>
    answers t = answers s @ [(tag, reply, st)] \<and> host t = w \<and>
    server_step (rpc_handle J A E kd secret) classes s t"
proof -
  let ?t = "answered K tag reply st w (s\<lparr>pending := remove1 tag (pending s)\<rparr>)"
  have "objects_ok classes s" and p: "tag \<in> set (pending s)"
    using assms(1,3) by (auto simp: server_ok_def awaiting_def)
  note tag = objects_okD [OF this(1) assms(3) [unfolded awaiting_def]]
  have "handle_event (rpc_handle J A E kd secret) classes (Ready tag q) s = (Inr (), ?t)"
    by (rule build_event [OF assms(2) assms(3) [unfolded awaiting_def] tag(1,2) assms(4)])
  then show ?thesis using server_step.ready [OF p] by (intro exI [of _ ?t]) (auto simp: answered_def)
qed

theorem answers_list_made_tickets_witness:
  "\<exists>s tag r. server_reach (rpc_handle tree_json no_aws lease_env ''/k'' []) amazon_linux_classes s \<and>
     answers s = [(tag, Lease_reply r, Grpc_OK)] \<and> ticket_made host_ticket_dir (host s)"
proof -
  let ?h = "rpc_handle tree_json no_aws lease_env ''/k'' []" and ?K = CallDataCreateKerberosLease
  let ?r = "\<lparr>reply_lease_id = ''aaaaaaaaaaaaaaaaaaaa'', created_kerberos_file_paths = [host_ticket_dir]\<rparr>"
  have "?K \<in> set amazon_linux_classes" by (simp add: amazon_linux_classes_def open_source_classes_def)
  then obtain s tag where s: "server_reach ?h amazon_linux_classes s" "awaiting ?K s tag" "host s = host_world"
    "answers s = []" using server_awaits by blast
  obtain w' where "?h ?K (idle_input\<lparr>in_contents := [webapp_spec]\<rparr>) (host s) = (Inr (Lease_reply ?r, Grpc_OK), w')"
    using webapp_lease_created by (auto simp: rpc_handle_def s(3))
  from served_request [OF build_reach_ok [OF s(1) health_class(2)] health_class(2) s(2) this] s(4) obtain t where
    t: "server_step ?h amazon_linux_classes s t" "answers t = [(tag, Lease_reply ?r, Grpc_OK)]" by auto
  have "server_reach ?h amazon_linux_classes t" using s(1) t(1) by (rule server_reach.step)
  with answers_list_made_tickets [OF this health_class(2), of tag "Lease_reply ?r" host_ticket_dir] t(2)
  show ?thesis by (auto simp: reply_paths_def)
qed

text \<open>
  C15: A request whose user name, domain or credentials fail the tests passes through the server without a
  trace on the host: in every reachable state, one event answers it with an error and an empty reply,
  files and log are as before, and all that happened is that the two secrets were wiped.
\<close>
theorem rejected_request_served:
  assumes "server_reach (rpc_handle J A E kd secret) classes s" and "build_classes classes"
    and "awaiting K s tag"
    and "K = CallDataAddNonDomainJoinedKerberosLease \<or> K = CallDataRenewNonDomainJoinedKerberosLease"
    and "\<not> (names_valid (req_username (in_user q)) (req_domain (in_user q)) \<and>
      credentials_fit (req_username (in_user q)) (req_password (in_user q)) (req_domain (in_user q)))"
  shows "\<exists>t msg reply. handle_event (rpc_handle J A E kd secret) classes (Ready tag q) s = (Inr (), t) \<and>
    answers t = answers s @ [(tag, reply, Grpc_internal msg)] \<and> msg \<noteq> [] \<and> reply_paths reply = [] \<and>
    host t = secrets_wiped [req_username (in_user q), req_password (in_user q)] (host s)"
proof -
  obtain msg reply where h: "rpc_handle J A E kd secret K q (host s) =
      (Inr (reply, Grpc_internal msg), secrets_wiped [req_username (in_user q), req_password (in_user q)] (host s))"
    "msg \<noteq> []" "reply_paths reply = []"
    using rejected_request [OF assms(5), of J E kd "host s"] assms(4)
    by (auto simp: rpc_handle_def reply_paths_def)
  from served_request [OF build_reach_ok [OF assms(1,2)] assms(2,3) h(1)] h(2,3) show ?thesis by blast
qed

theorem rejected_request_served_witness:
  "\<exists>s t tag msg. handle_event (rpc_handle tree_json no_aws quiet_env ''/k'' []) amazon_linux_classes
     (Ready tag (idle_input\<lparr>in_user := alice_request\<lparr>req_password := []\<rparr>\<rparr>)) s = (Inr (), t) \<and>
     awaiting CallDataAddNonDomainJoinedKerberosLease s tag \<and> host t = start_world\<lparr>evs := [Wiped ''alice'']\<rparr> \<and> msg \<noteq> [] \<and>
     map (snd \<circ> snd) (answers t) = [Grpc_internal msg]"
proof -
  let ?h = "rpc_handle tree_json no_aws quiet_env ''/k'' []" and ?K = CallDataAddNonDomainJoinedKerberosLease
  let ?q = "idle_input\<lparr>in_user := alice_request\<lparr>req_password := []\<rparr>\<rparr>"
  have "?K \<in> set amazon_linux_classes" by (simp add: amazon_linux_classes_def open_source_classes_def)
  then obtain s tag where s: "server_reach ?h amazon_linux_classes s" "awaiting ?K s tag" "host s = start_world"
    "answers s = []" using server_awaits by blast
  have "\<not> (names_valid (req_username (in_user ?q)) (req_domain (in_user ?q)) \<and>
      credentials_fit (req_username (in_user ?q)) (req_password (in_user ?q)) (req_domain (in_user ?q)))"
    by (simp add: credentials_fit_def)
  from rejected_request_served [OF s(1) health_class(2) s(2) disjI1 [OF refl] this] obtain t msg reply where
    "handle_event ?h amazon_linux_classes (Ready tag ?q) s = (Inr (), t)"
    "host t = secrets_wiped [req_username (in_user ?q), req_password (in_user ?q)] (host s)" "msg \<noteq> []"
    "answers t = answers s @ [(tag, reply, Grpc_internal msg)]" by blast
  with s show ?thesis
    by (intro exI [of _ s] exI [of _ t] exI [of _ tag] exI [of _ msg])
       (simp add: secrets_wiped_def alice_request_def start_world_def)
qed

text \<open>
  The log ring's index stays inside its array, however long the server runs and whatever it is asked.
\<close>
theorem server_keeps_log_ring:
  assumes "server_reach (rpc_handle J A E kd secret) classes s" and "build_classes classes"
    and "log_ok (host s)" and "(server_step (rpc_handle J A E kd secret) classes)\<^sup>*\<^sup>* s t"
  shows "log_ok (host t)"
  using ring.server_keeps_steps [OF assms(4,1,2,3)] by simp

theorem server_keeps_log_ring_witness:
  "\<exists>s. server_reach (rpc_handle tree_json no_aws quiet_env ''/k'' []) amazon_linux_classes s \<and> log_ok (host s)"
proof -
  obtain s where s: "server_reach (rpc_handle tree_json no_aws quiet_env ''/k'' []) amazon_linux_classes s"
    "host s = start_world" using server_awaits [OF health_class(1)] by blast
  have "log_ok start_world" by (simp add: log_ok_def start_world_def init_logger_def log_ring_size_def)
  with server_keeps_log_ring [OF s(1) health_class(2) _ rtranclp.rtrancl_refl] s show ?thesis by auto
qed

end
