(* ===== verification/Lease_Failure.thy ===== *)
theory Lease_Failure
  imports Lifecycle
begin

text \<open>
  What a lease request of api/src/gmsa_service.cpp leaves behind when the account's ticket cannot be made:
  the failing round of \<open>CallDataCreateKerberosLease\<close> has created the directory of the ticket and has set the
  path of the ticket to the cache in it, so the removal after the failure takes away the file only.
\<close>

section \<open>Commands of a well-behaved host\<close>

text \<open>Commands keep the file system well-formed and remove no directory.\<close>

definition keeps_tree :: "fs \<Rightarrow> fs \<Rightarrow> bool" where
  "keeps_tree F F' \<longleftrightarrow> (wf_fs F \<longrightarrow> wf_fs F') \<and> (\<forall>l. is_dir_at F l \<longrightarrow> is_dir_at F' l)"

definition sane_commands :: "env \<Rightarrow> bool" where
  "sane_commands E \<longleftrightarrow> (\<forall>h F c. keeps_tree F (snd (snd (shell_run E h F c)))) \<and>
     (\<forall>h F c b. keeps_tree F (snd (pipe_run E h F c b)))"

definition dir_stays :: "env \<Rightarrow> loc \<Rightarrow> world \<Rightarrow> bool" where
  "dir_stays E l w \<longleftrightarrow> sane_commands E \<and> wf_fs (wfs w) \<and> is_dir_at (wfs w) l"

lemma dir_staysI: "sane_commands E \<Longrightarrow> wf_fs (wfs w) \<Longrightarrow> is_dir_at (wfs w) l \<Longrightarrow> dir_stays E l w"
  by (simp add: dir_stays_def)

interpretation tree: host_inv "dir_stays E l" E for E l
proof unfold_locales
  show "dir_stays E l (w\<lparr>wfs := F, evs := Ran c # evs w\<rparr>)"
    if "dir_stays E l w" "shell_run E (evs w) (wfs w) c = (code, out, F)" for w c code out F
  proof -
    have "keeps_tree (wfs w) (snd (snd (shell_run E (evs w) (wfs w) c)))"
      using that(1) by (simp add: dir_stays_def sane_commands_def)
    with that show ?thesis by (simp add: dir_stays_def keeps_tree_def)
  qed
  show "dir_stays E l (w\<lparr>wfs := F, evs := Piped c b # evs w\<rparr>)"
    if "dir_stays E l w" "pipe_run E (evs w) (wfs w) c b = (code, F)" for w c b code F
  proof -
    have "keeps_tree (wfs w) (snd (pipe_run E (evs w) (wfs w) c b))"
      using that(1) by (simp add: dir_stays_def sane_commands_def)
    with that show ?thesis by (simp add: dir_stays_def keeps_tree_def)
  qed
qed (auto simp: dir_stays_def write_log_def Let_def split: option.splits sum.splits)

section \<open>Directories of a well-formed file system\<close>

lemma dir_above: "wf_fs F \<Longrightarrow> is_dir_at F (l @ m) \<Longrightarrow> is_dir_at F l"
proof (induction m rule: rev_induct)
  case (snoc c m)
  then have "l @ m @ [c] \<in> fst ` set F"
    by (auto simp: is_dir_at_def split: option.splits dest: fs_lookup_in)
  with snoc.prems(1) have "is_dir_at F (butlast (l @ m @ [c]))" unfolding wf_fs_def by blast
  with snoc show ?case by (simp add: butlast_append)
qed simp

lemma dir_walked:
  assumes "wf_fs F" and "is_dir_at F l" and "''..'' \<notin> set l"
  shows "walk F [] l = Some l"
proof -
  have "is_dir_at F (take n l)" for n
    using dir_above [of F "take n l" "drop n l"] assms by simp
  with assms(3) show ?thesis by (simp add: walk_plain_iff)
qed

lemma dir_exists:
  assumes "wf_fs F" and "is_dir_at F (components p)" and "''..'' \<notin> set (components p)" and "c_str p \<noteq> []"
  shows "fs_exists F p"
  using dir_walked [OF assms(1-3)] assms(2,4)
  by (auto simp: fs_exists_def fs_stat_def resolve_def is_dir_at_def split: option.splits)

text \<open>\<open>create_directories\<close> adds nothing but the directories on the way.\<close>

lemma mkdirs_adds:
  "mkdirs F cur cs = Some F' \<Longrightarrow> ''..'' \<notin> set cs \<Longrightarrow> fs_lookup F' k \<noteq> None \<Longrightarrow>
   fs_lookup F k \<noteq> None \<or> prefix k (cur @ cs)"
proof (induction F cur cs arbitrary: F' rule: mkdirs.induct)
  case (2 F cur c cs)
  show ?case
  proof (cases "fs_lookup F (cur @ [c])")
    case None
    from "2.prems" None have "mkdirs (fs_put (cur @ [c]) new_dir F) (cur @ [c]) cs = Some F'" "c \<noteq> ''..''"
      by auto
    with 2(2) [OF _ None] "2.prems" have
      "fs_lookup (fs_put (cur @ [c]) new_dir F) k \<noteq> None \<or> prefix k ((cur @ [c]) @ cs)" by auto
    then show ?thesis by (auto simp: fs_lookup_put prefix_def split: if_splits)
  next
    case (Some i)
    with 2 show ?thesis by (auto split: if_splits)
  qed
qed simp

lemma entry_in_dir:
  assumes "wf_fs F" and "fs_lookup F (l @ [c]) = Some i"
  shows "is_dir_at F l"
proof -
  from assms(2) have "l @ [c] \<in> fst ` set F" by (rule fs_lookup_in) simp
  with assms(1) have "is_dir_at F (butlast (l @ [c]))" unfolding wf_fs_def by blast
  then show ?thesis by simp
qed

section \<open>The failing round\<close>

lemma fqdn_loop_path:
  "krb_file_path t = p \<Longrightarrow> gives (\<lambda>(_, t'). krb_file_path t' = p) (fqdn_loop E a b fs d t r)"
  by (induction fs arbitrary: d t r) (auto simp: Let_def intro!: gives_intros simp del: bindM_ret thenM_ret)

lemma fetch_path:
  assumes "fetch_gmsa_password_and_create_krb_ticket E d t cc w = (Inr (res, t'), w')"
  shows "krb_file_path t' = krb_file_path t"
proof -
  let ?Q = "\<lambda>(_, t'). krb_file_path t' = krb_file_path t"
  have loop: "gives ?Q (bindM (fqdn_loop E a b fs dn t r) (\<lambda>(res, t'). k res t'))"
    if "\<And>res t'. krb_file_path t' = krb_file_path t \<Longrightarrow> gives ?Q (k res t')" for a b fs dn r k
    by (rule gives_bindM_with [OF fqdn_loop_path [OF refl]]) (auto intro: that)
  have "gives ?Q (fetch_gmsa_password_and_create_krb_ticket E d t cc)"
    unfolding fetch_gmsa_password_and_create_krb_ticket_def Let_def
    by (rule gives_if, (intro gives_intros, simp), rule gives_bindM, rule gives_bindM, rule loop)
       (auto intro!: gives_intros)
  from givesD [OF this assms] show ?thesis by simp
qed

lemma make_krb5cc_fresh:
  assumes "make_krb5cc t w = (Inr (cc, t1), w1)" and "sane_commands E" and "wf_fs (wfs w)"
    and "\<not> fs_exists (wfs w) (krb_file_path t)" and "NUL \<notin> set (krb_file_path t)"
    and "''..'' \<notin> set (components (krb_file_path t))"
  shows "krb_file_path t1 = ccache_name (krb_file_path t) \<and> dir_stays E (components (krb_file_path t)) w1"
proof -
  let ?p = "krb_file_path t" and ?cc = "ccache_name (krb_file_path t)"
  obtain F where F: "create_directories ?p (wfs w) = Inr F"
    using assms(1) by (cases "create_directories ?p (wfs w)")
      (auto simp: make_krb5cc_def make_directories_def Let_def thenM_def bindM_apply)
  have w1: "if fs_exists F ?cc then w1 = w\<lparr>wfs := F\<rparr> \<and> t1 = t
      else w1 = w\<lparr>wfs := case write_file ?cc [] F of None \<Rightarrow> F | Some F' \<Rightarrow> F'\<rparr> \<and> t1 = t\<lparr>krb_file_path := ?cc\<rparr>"
    using assms(1) F
    by (auto simp: make_krb5cc_def make_directories_def touch_file_def Let_def thenM_def bindM_apply
        split: if_splits option.splits)
  have wf: "wf_fs F" and dir: "is_dir_at F (components ?p)"
    using create_directories_wf [OF F assms(3)] create_directories_exists(2) [OF F assms(6)] by auto
  have cc: "components ?cc = components ?p @ [''krb5cc'']"
    using components_snoc [of ?p "''krb5cc''"] assms(5) by (simp add: ccache_name_def NUL_def)
  have str: "c_str ?p \<noteq> []" and mk: "mkdirs (wfs w) [] (components ?p) = Some F"
    using F by (auto simp: create_directories_def split: if_splits option.splits)
  have "\<not> fs_exists F ?cc"
  proof
    assume "fs_exists F ?cc"
    then obtain l i where "walk F [] (components ?cc) = Some l" "fs_lookup F l = Some i"
      by (auto simp: fs_exists_def fs_stat_def resolve_def split: if_splits option.splits)
    moreover from this have "l = components ?cc" using walk_plain [of "components ?cc" F "[]" l] cc assms(6) by auto
    ultimately have "fs_lookup (wfs w) (components ?p @ [''krb5cc'']) \<noteq> None"
      using mkdirs_adds [OF mk assms(6), of "components ?cc"] cc by (auto dest: prefix_length_le)
    then have "is_dir_at (wfs w) (components ?p)" using entry_in_dir [OF assms(3)] by blast
    with dir_exists [OF assms(3) _ assms(6) str] assms(4) show False by blast
  qed
  moreover have "wf_fs F' \<and> is_dir_at F' (components ?p)" if "write_file ?cc [] F = Some F'" for F'
    using write_file_wf [OF that wf] write_file_dirs [OF that] dir by blast
  ultimately show ?thesis
    using w1 wf dir assms(2) by (auto simp: dir_stays_def split: option.splits)
qed

lemma gmsa_round_failed:
  assumes "gmsa_round E ret fd em lm t w = (Inr (Left err, t'), w')" and "sane_commands E" and "wf_fs (wfs w)"
    and "\<not> fs_exists (wfs w) (krb_file_path t)" and "NUL \<notin> set (krb_file_path t)"
    and "''..'' \<notin> set (components (krb_file_path t))"
  shows "krb_file_path t' = ccache_name (krb_file_path t) \<and> dir_stays E (components (krb_file_path t)) w'"
proof -
  let ?I = "dir_stays E (components (krb_file_path t))"
  from assms(1) obtain cc t1 w1 res w2 where
    1: "make_krb5cc t w = (Inr (cc, t1), w1)" and
    2: "fetch_gmsa_password_and_create_krb_ticket E (fd t1) t1 cc w1 = (Inr (res, t'), w2)" and
    3: "fst (logger E LOG_ERR (lm res) w2) = Inr ()" "w' = snd (logger E LOG_ERR (lm res) w2)"
    unfolding gmsa_round_def by (clarsimp simp: bindM_eq_Inr thenM_eq_Inr split: if_splits)
  note fresh = make_krb5cc_fresh [OF 1 assms(2-6)]
  then have "?I w2" using keepsD [OF tree.keeps_fetch, of E _ w1] 2 by (metis snd_conv)
  then have "?I w'" unfolding 3(2) by (rule keepsD [OF tree.keeps_logger])
  with fresh fetch_path [OF 2] show ?thesis by simp
qed

lemma joined_round_failed:
  assumes "create_joined_round J E s t w = (Inr (Left ''ERROR: Cannot get gMSA krb ticket'', t'), w')"
    and "sane_commands E" and "wf_fs (wfs w)" and "NUL \<notin> set (krb_file_path t)" and "krb_file_path t \<noteq> []"
    and "''..'' \<notin> set (components (krb_file_path t))"
  shows "krb_file_path t' = ccache_name (krb_file_path t) \<and> dir_stays E (components (krb_file_path t)) w' \<and>
    \<not> is_dir_at (wfs w) (components (krb_file_path t))"
proof -
  let ?p = "krb_file_path t"
  obtain st t1 w1 where 1: "host_ticket J E s t w = (Inr (st, t1), w1)"
    using assms(1) by (auto simp: create_joined_round_def bindM_eq_Inr simp del: bindM_Inr)
  note t1 = host_ticket_path [OF 1]
  have stays: "dir_stays E l w1" if "is_dir_at (wfs w) l" for l
    using keepsD [OF tree.keeps_host_ticket dir_staysI [OF assms(2,3) that], of J s t] 1 by simp
  from 1 assms(1) t1 have new: "\<not> fs_exists (wfs w1) ?p" and
    2: "gmsa_round E ret domain_name (\<lambda>_. ''ERROR: Cannot get gMSA krb ticket'')
      (\<lambda>_. ''ERROR: Cannot get gMSA krb ticket '' @ to_string (fst st) @ '' '' @ snd st) t1 w1 =
      (Inr (Left ''ERROR: Cannot get gMSA krb ticket'', t'), w')"
    by (auto simp: create_joined_round_def thenM_eq_Inr split: if_splits)
  have wf: "wf_fs (wfs w1)" using stays [OF is_dir_root] by (simp add: dir_stays_def)
  have "\<not> is_dir_at (wfs w) (components ?p)"
    using stays new dir_exists [OF wf _ assms(6)] assms(4,5) by (auto simp: dir_stays_def c_str_id)
  with gmsa_round_failed [OF 2 assms(2) wf] t1 new assms(4,6) show ?thesis by simp
qed

section \<open>The directory that stays\<close>

lemma remove_file_only:
  assumes "is_dir_at F l" and "components p = l @ [c]" and "''..'' \<notin> set (components p)"
  shows "is_dir_at (remove_all p F) l \<and> \<not> fs_exists (remove_all p F) p"
proof (cases "resolve F p")
  case None
  then show ?thesis using assms(1) by (simp add: remove_all_def fs_exists_def fs_stat_def)
next
  case (Some m)
  have plain: "m' = components p" if "resolve G p = Some m'" for G m'
    using walk_plain [of "components p" G "[]" m'] assms(3) that by (auto simp: resolve_def split: if_splits)
  note m = plain [OF Some]
  have "\<not> prefix m l" using m assms(2) by (auto dest: prefix_length_le)
  with Some m assms(1,2) have "is_dir_at (remove_all p F) l"
    using remove_all_frame [OF Some] by (simp add: is_dir_at_def)
  moreover have "fs_lookup (remove_all p F) m = None"
    using remove_all_gone [OF Some, of m] m assms(2) by simp
  ultimately show ?thesis using plain m by (auto simp: fs_exists_def fs_stat_def split: option.splits)
qed

text \<open>
  C32: A request of one specification that is answered with the error that the account's ticket could not be made
  leaves a new directory behind: it was not there before the request, the removal after the failure takes only
  the ticket cache away from it, and the answer does not list it. The commands of the host must keep the file
  system well-formed and remove no directory.
\<close>
theorem failed_lease_leaves_directory:
  assumes "process_create_kerberos_lease J E kd secret [content] w =
      (Inr (reply, Grpc_internal ''ERROR: Cannot get gMSA krb ticket''), w')"
    and "parse_cred_spec J content new_krb_ticket_info = (0, info)"
    and "dir = ticket_dir kd (reply_lease_id reply) (service_account_name info)"
    and "sane_commands E" and "wf_fs (wfs w)" and "NUL \<notin> set dir" and "''..'' \<notin> set (components dir)"
  shows "\<not> is_dir_at (wfs w) (components dir) \<and> is_dir_at (wfs w') (components dir) \<and>
    \<not> fs_exists (wfs w') (ccache_name dir) \<and> created_kerberos_file_paths reply = []"
proof -
  obtain lease where g: "generate_lease_id E w = (Inr lease, w)" by (simp add: generate_lease_id_def)
  let ?t = "info\<lparr>krb_file_path := ticket_dir kd lease (service_account_name info), domainless_user := []\<rparr>"
  let ?one = "create_joined_round J E secret" and ?err = "''ERROR: Cannot get gMSA krb ticket''"
  have "run_lease J [] kd lease ?one [] [?t] (\<lambda>paths. \<lparr>reply_lease_id = lease, created_kerberos_file_paths = paths\<rparr>) w =
      (Inr (reply, Grpc_internal ?err), w')"
    using assms(1,2) g by (simp add: process_create_kerberos_lease_def)
  moreover from this obtain r t' w1 where 1: "?one ?t w = (Inr (r, t'), w1)"
    by (auto simp: run_lease_def bindM_eq_Inr simp del: bindM_Inr)
  ultimately have 1: "?one ?t w = (Inr (Left ?err, t'), w1)" and
    w': "w' = w1\<lparr>wfs := remove_all (krb_file_path t') (wfs w1)\<rparr>" and
    reply: "reply = \<lparr>reply_lease_id = lease, created_kerberos_file_paths = []\<rparr>"
    by (cases r; auto simp: run_lease_def finish_lease_def remove_tickets_def bindM_eq_Inr thenM_eq_Inr
        split: if_splits)+
  have dir: "krb_file_path ?t = dir" using assms(3) reply by simp
  have "dir \<noteq> []" using assms(3) by (simp add: ticket_dir_def)
  with joined_round_failed [OF 1 assms(4,5)] dir assms(6,7) have
    r: "krb_file_path t' = ccache_name dir" "dir_stays E (components dir) w1" "\<not> is_dir_at (wfs w) (components dir)"
    by auto
  have "components (ccache_name dir) = components dir @ [''krb5cc'']"
    using components_snoc [of dir "''krb5cc''"] assms(6) by (simp add: ccache_name_def NUL_def)
  with remove_file_only [of "wfs w1" "components dir" "ccache_name dir" "''krb5cc''"] r assms(7) w' reply
  show ?thesis by (simp add: dir_stays_def)
qed

definition refusing_env :: env where
  "refusing_env = lease_env\<lparr>pipe_run := (\<lambda>_ F _ _. (256, F))\<rparr>"

lemma refused_ticket:
  "map_sum id (\<lambda>(err, ts, paths). (err, paths)) (fst (create_tickets (create_joined_round tree_json refusing_env [])
     [webapp_ticket\<lparr>krb_file_path := host_ticket_dir, domainless_user := []\<rparr>] host_world)) =
   Inr (''ERROR: Cannot get gMSA krb ticket'', [])"
  by code_simp

theorem failed_lease_leaves_directory_witness:
  "is_dir_at (wfs (snd (process_create_kerberos_lease tree_json refusing_env ''/k'' [] [webapp_spec] host_world)))
     [''k'', ''aaaaaaaaaaaaaaaaaaaa'', ''webapp01'']"
proof -
  let ?run = "process_create_kerberos_lease tree_json refusing_env ''/k'' [] [webapp_spec] host_world"
  let ?t = "webapp_ticket\<lparr>krb_file_path := host_ticket_dir, domainless_user := []\<rparr>"
  let ?one = "create_joined_round tree_json refusing_env []"
  let ?reply = "\<lparr>reply_lease_id = ''aaaaaaaaaaaaaaaaaaaa'', created_kerberos_file_paths = []\<rparr>"
  have g: "generate_lease_id refusing_env w = (Inr ''aaaaaaaaaaaaaaaaaaaa'', w)" for w
    using lease_env_id by (simp add: generate_lease_id_def refusing_env_def)
  have c: "collect_specs (\<lambda>_. []) tree_json ''/k'' ''aaaaaaaaaaaaaaaaaaaa'' [] [webapp_spec] [] [] = ([], [?t])"
    by (simp add: webapp_parsed ticket_dir_def host_ticket_dir_def webapp_ticket_def)
  obtain ts w1 where t: "create_tickets ?one [?t] host_world =
      (Inr (''ERROR: Cannot get gMSA krb ticket'', ts, []), w1)"
    using refused_ticket
    by (cases "create_tickets ?one [?t] host_world"; cases "fst (create_tickets ?one [?t] host_world)") auto
  have "\<exists>w'. remove_tickets ts w = (Inr (), w')" for ts w
    unfolding remove_tickets_def by (induction ts arbitrary: w) (auto simp: thenM_def)
  then obtain w' where "remove_tickets ts w1 = (Inr (), w')" by blast
  with c t have 1: "?run = (Inr (?reply, Grpc_internal ''ERROR: Cannot get gMSA krb ticket''), w')"
    unfolding process_create_kerberos_lease_def
    by (simp add: g run_lease_def finish_lease_def del: create_tickets.simps collect_specs.simps)
  have 2: "host_ticket_dir = ticket_dir ''/k'' (reply_lease_id ?reply) (service_account_name webapp_ticket)"
    by (simp add: ticket_dir_def host_ticket_dir_def webapp_ticket_def)
  have 3: "sane_commands refusing_env"
    by (simp add: sane_commands_def keeps_tree_def refusing_env_def lease_env_def)
  have 4: "wf_fs (wfs host_world)" by code_simp
  have 5: "NUL \<notin> set host_ticket_dir" by (simp add: NUL_def host_ticket_dir_def)
  have 6: "components host_ticket_dir = [''k'', ''aaaaaaaaaaaaaaaaaaaa'', ''webapp01'']" by code_simp
  then have 7: "''..'' \<notin> set (components host_ticket_dir)" by simp
  from failed_lease_leaves_directory [OF 1 webapp_parsed 2 3 4 5 7] 1 6 show ?thesis by simp
qed

end
