(* ===== verification/Daemon_Threads.thy ===== *)
theory Daemon_Threads
  imports Lease_Failure
begin

text \<open>
  The daemon with its two threads at work: \<open>RunGrpcServer\<close> (api/src/gmsa_service.cpp) and
  \<open>krb_ticket_renew_handler\<close> (renewal/src/renewal.cpp), which share the host and nothing else. The renewal is
  cut into actions: to wait and look for metadata files, to read one file, to look after one ticket. Between two
  of them the server may handle any number of events, so that a lease can be made or deleted while a round is
  under way. An event and an action are each taken as one step; the threads are not interleaved within them.
\<close>

section \<open>The renewal thread in actions\<close>

text \<open>Where the thread is: at the condition of its loop, before a file, before a ticket, or at its end.\<close>

datatype renewal_phase =
    Asleep
  | Listed "string list"
  | Loaded "krb_ticket_info list" "string list"
  | Returned int

text \<open>What an action does to the phase and to the logger of the parameter; the state's logger is the local copy.\<close>

fun renewal_action ::
    "'j jsonlib \<Rightarrow> env \<Rightarrow> daemon \<Rightarrow> renewal_phase \<Rightarrow> cf_logger \<Rightarrow> (renewal_phase \<times> cf_logger) WM" where
  "renewal_action J E d Asleep lg =
     (if got_systemd_shutdown_signal d \<noteq> 0 then ret (Returned (-1), lg)
      else
        thenM (modM (\<lambda>w. w\<lparr>evs := Slept (nat (60 * interval_minutes d)) # evs w\<rparr>))
       (bindM (get_meta_data_file_paths (krb_files_dir d)) (\<lambda>metadatafiles. ret (Listed metadatafiles, lg))))"
| "renewal_action J E d (Listed []) lg = ret (Asleep, lg)"
| "renewal_action J E d (Listed (file_path # fs)) lg =
     bindM (read_meta_data_json J file_path) (\<lambda>ts. ret (Loaded ts fs, lg))"
| "renewal_action J E d (Loaded [] fs) lg = ret (Listed fs, lg)"
| "renewal_action J E d (Loaded (t # ts) fs) lg =
     bindM (renew_joined_ticket J E lg t) (\<lambda>lg'. ret (Loaded ts fs, lg'))"
| "renewal_action J E d (Returned v) lg = ret (Returned v, lg)"

text \<open>The handler of the exceptions around the round.\<close>

definition guarded_action ::
    "'j jsonlib \<Rightarrow> env \<Rightarrow> (cpp_exn \<Rightarrow> string) \<Rightarrow> daemon \<Rightarrow> renewal_phase \<Rightarrow> cf_logger \<Rightarrow>
     (renewal_phase \<times> cf_logger) WM" where
  "guarded_action J E what d p lg =
     catchM (renewal_action J E d p lg) (\<lambda>ex. thenM (report_renewal_failure E what ex) (ret (Returned (-1), lg)))"

text \<open>The thread has two loggers of its own; the host it shares has the server's.\<close>

record renewal_thread =
  phase :: renewal_phase
  local_logger :: cf_logger
  param_logger :: cf_logger

definition thread_step ::
    "'j jsonlib \<Rightarrow> env \<Rightarrow> (cpp_exn \<Rightarrow> string) \<Rightarrow> daemon \<Rightarrow> renewal_thread \<Rightarrow> renewal_thread WM" where
  "thread_step J E what d r =
     bindM (with_logger (local_logger r) (guarded_action J E what d (phase r) (param_logger r))) (\<lambda>((p, lg), own).
       ret \<lparr>phase = p, local_logger = own, param_logger = lg\<rparr>)"

text \<open>The thread as \<open>refresh_krb_tickets\<close> starts it: the logger is copied twice.\<close>

definition new_thread :: "daemon \<Rightarrow> cf_logger \<Rightarrow> renewal_thread" where
  "new_thread d lg = \<lparr>phase = (if krb_files_dir d = [] then Returned (-1) else Asleep), local_logger = lg, param_logger = lg\<rparr>"

section \<open>The actions and the handler\<close>

text \<open>A step of the thread, and one inside it, where the state has the local logger.\<close>

definition thread_moves ::
    "'j jsonlib \<Rightarrow> env \<Rightarrow> (cpp_exn \<Rightarrow> string) \<Rightarrow> daemon \<Rightarrow> renewal_thread \<times> world \<Rightarrow> renewal_thread \<times> world \<Rightarrow> bool" where
  "thread_moves J E what d x y \<longleftrightarrow> thread_step J E what d (fst x) (snd x) = (Inr (fst y), snd y)"

definition inner_moves ::
    "'j jsonlib \<Rightarrow> env \<Rightarrow> (cpp_exn \<Rightarrow> string) \<Rightarrow> daemon \<Rightarrow> (renewal_phase \<times> cf_logger) \<times> world \<Rightarrow>
     (renewal_phase \<times> cf_logger) \<times> world \<Rightarrow> bool" where
  "inner_moves J E what d x y \<longleftrightarrow> guarded_action J E what d (fst (fst x)) (snd (fst x)) (snd x) = (Inr (fst y), snd y)"

definition outer :: "cf_logger \<Rightarrow> (renewal_phase \<times> cf_logger) \<times> world \<Rightarrow> renewal_thread \<times> world" where
  "outer lg x = (\<lparr>phase = fst (fst x), local_logger = wlog (snd x), param_logger = snd (fst x)\<rparr>, (snd x)\<lparr>wlog := lg\<rparr>)"

lemma inner_outer: "inner_moves J E what d x y \<Longrightarrow> thread_moves J E what d (outer lg x) (outer lg y)"
  by (cases x; cases y) (auto simp: inner_moves_def thread_moves_def outer_def thread_step_def with_logger_def bindM_def)

lemma inner_outer_steps:
  "(inner_moves J E what d)\<^sup>*\<^sup>* x y \<Longrightarrow> (thread_moves J E what d)\<^sup>*\<^sup>* (outer lg x) (outer lg y)"
  by (induction rule: rtranclp_induct) (auto intro: rtranclp.rtrancl_into_rtrancl inner_outer)

lemma inner_step:
  "renewal_action J E d p lg v = (Inr q, v') \<Longrightarrow> inner_moves J E what d ((p, lg), v) (q, v')"
  by (simp add: inner_moves_def guarded_action_def)

text \<open>The outcome of a part of the handler, and what the actions make of it: the phase after it, or the exception.\<close>

definition follows ::
    "'j jsonlib \<Rightarrow> env \<Rightarrow> (cpp_exn \<Rightarrow> string) \<Rightarrow> daemon \<Rightarrow> (renewal_phase \<times> cf_logger) \<times> world \<Rightarrow>
     renewal_phase \<Rightarrow> (fault + cf_logger) \<times> world \<Rightarrow> bool" where
  "follows J E what d x p out \<longleftrightarrow>
     (case fst out of
        Inr lg \<Rightarrow> (inner_moves J E what d)\<^sup>*\<^sup>* x ((p, lg), snd out)
      | Inl (Throw ex) \<Rightarrow> (\<exists>q lg v. (inner_moves J E what d)\<^sup>*\<^sup>* x ((q, lg), v) \<and>
          renewal_action J E d q lg v = (Inl (Throw ex), snd out))
      | _ \<Rightarrow> True)"

lemma follows_ret: "follows J E what d ((p, lg), v) p (Inr lg, v)"
  by (simp add: follows_def)

lemma follows_fault: "renewal_action J E d p lg v = (Inl e, v') \<Longrightarrow> follows J E what d ((p, lg), v) q (Inl e, v')"
  by (auto simp: follows_def split: fault.splits)

lemma follows_moves: "(inner_moves J E what d)\<^sup>*\<^sup>* x y \<Longrightarrow> follows J E what d y p out \<Longrightarrow> follows J E what d x p out"
  by (auto simp: follows_def split: sum.splits fault.splits intro: rtranclp_trans)

lemma follows_step:
  "renewal_action J E d p lg v = (Inr q, v') \<Longrightarrow> follows J E what d (q, v') p' out \<Longrightarrow>
   follows J E what d ((p, lg), v) p' out"
  by (blast intro: follows_moves inner_step)

lemma follows_bind:
  assumes "follows J E what d x p (m v)" and "\<And>lg v'. follows J E what d ((p, lg), v') q (k lg v')"
  shows "follows J E what d x q (bindM m k v)"
proof (cases "m v")
  case (Pair r v')
  show ?thesis
  proof (cases r)
    case (Inl e)
    with Pair assms(1) show ?thesis by (auto simp: follows_def split: fault.splits)
  next
    case (Inr lg)
    with Pair assms(1) have "(inner_moves J E what d)\<^sup>*\<^sup>* x ((p, lg), v')" by (simp add: follows_def)
    with Pair Inr assms(2) show ?thesis by (auto intro: follows_moves)
  qed
qed

lemma tickets_follow: "follows J E what d ((Loaded ts fs, lg), v) (Loaded [] fs) (foldM (renew_joined_ticket J E) lg ts v)"
proof (induction ts arbitrary: lg v)
  case (Cons t ts)
  show ?case
  proof (cases "renew_joined_ticket J E lg t v")
    case (Pair r v')
    show ?thesis
    proof (cases r)
      case (Inl e)
      with Pair show ?thesis by (auto intro: follows_fault)
    next
      case (Inr lg')
      with Pair have "renewal_action J E d (Loaded (t # ts) fs) lg v = (Inr (Loaded ts fs, lg'), v')" by simp
      from follows_step [OF this Cons.IH] Pair Inr show ?thesis by simp
    qed
  qed
qed (simp add: follows_ret)

lemma files_follow:
  "follows J E what d ((Listed fs, lg), v) (Listed [])
     (foldM (\<lambda>lg f. bindM (read_meta_data_json J f) (\<lambda>ts. foldM (renew_joined_ticket J E) lg ts)) lg fs v)"
proof (induction fs arbitrary: lg v)
  case (Cons f fs)
  let ?one = "\<lambda>lg f. bindM (read_meta_data_json J f) (\<lambda>ts. foldM (renew_joined_ticket J E) lg ts)"
  have head: "follows J E what d ((Listed (f # fs), lg), v) (Loaded [] fs) (?one lg f v)"
    using follows_step [OF _ tickets_follow, of J E d "Listed (f # fs)" lg v "metadata_at J f (wfs v)" fs lg v]
      read_metadata_at [of J f v] by simp
  have rest: "follows J E what d ((Loaded [] fs, lg'), v') (Listed []) (foldM ?one lg' fs v')" for lg' v'
    by (rule follows_step [OF _ Cons.IH]) simp
  show ?case unfolding foldM.simps by (rule follows_bind) (rule head, rule rest)
qed (simp add: follows_ret)

lemma round_follows:
  assumes "got_systemd_shutdown_signal d = 0"
  shows "follows J E what d ((Asleep, lg), v) (Listed []) (renewal_round J E (interval_minutes d) (krb_files_dir d) lg v)"
proof -
  let ?v = "v\<lparr>evs := Slept (nat (60 * interval_minutes d)) # evs v\<rparr>"
  obtain r v' where r: "get_meta_data_file_paths (krb_files_dir d) ?v = (r, v')" by force
  show ?thesis
  proof (cases r)
    case (Inl e)
    with r assms show ?thesis by (auto simp: renewal_round_def intro!: follows_fault)
  next
    case (Inr files)
    with r assms have "renewal_action J E d Asleep lg v = (Inr (Listed files, lg), v')" by simp
    from follows_step [OF this files_follow] r Inr show ?thesis by (simp add: renewal_round_def)
  qed
qed

lemma throw_ends:
  assumes "renewal_action J E d p lg v = (Inl (Throw ex), v1)" and "report_renewal_failure E what ex v1 = (Inr (), v2)"
  shows "inner_moves J E what d ((p, lg), v) ((Returned (-1), lg), v2)"
  using assms by (simp add: inner_moves_def guarded_action_def)

definition result_phase :: "int option \<Rightarrow> renewal_phase" where
  "result_phase r = (case r of None \<Rightarrow> Asleep | Some v \<Rightarrow> Returned v)"

lemma loop_followed:
  "renewal_loop J E what d n lg v = (Inr r, v') \<Longrightarrow>
   \<exists>lg'. (inner_moves J E what d)\<^sup>*\<^sup>* ((Asleep, lg), v) ((result_phase r, lg'), v')"
proof (induction n arbitrary: lg v)
  case 0
  have "inner_moves J E what d ((Asleep, lg), v) ((Returned (-1), lg), v)" if "got_systemd_shutdown_signal d \<noteq> 0"
    using that by (intro inner_step) simp
  with 0 show ?case by (fastforce simp: result_phase_def split: if_splits)
next
  case (Suc n)
  let ?round = "renewal_round J E (interval_minutes d) (krb_files_dir d) lg"
  show ?case
  proof (cases "got_systemd_shutdown_signal d = 0")
    case False
    then have "inner_moves J E what d ((Asleep, lg), v) ((Returned (-1), lg), v)" by (intro inner_step) simp
    with False Suc.prems show ?thesis by (fastforce simp: result_phase_def)
  next
    case True
    obtain o' v1 where o': "?round v = (o', v1)" by force
    from round_follows [OF True, of J E what lg v] o' have f: "follows J E what d ((Asleep, lg), v) (Listed []) (o', v1)"
      by simp
    show ?thesis
    proof (cases o')
      case (Inr lg1)
      with Suc.prems True o' have "renewal_loop J E what d n lg1 v1 = (Inr r, v')" by (simp add: bindM_apply)
      from Suc.IH [OF this] obtain lg' where "(inner_moves J E what d)\<^sup>*\<^sup>* ((Asleep, lg1), v1) ((result_phase r, lg'), v')"
        by blast
      moreover have "inner_moves J E what d ((Listed [], lg1), v1) ((Asleep, lg1), v1)" by (intro inner_step) simp
      moreover have "(inner_moves J E what d)\<^sup>*\<^sup>* ((Asleep, lg), v) ((Listed [], lg1), v1)"
        using f Inr by (simp add: follows_def)
      ultimately show ?thesis by (meson converse_rtranclp_into_rtranclp rtranclp_trans)
    next
      case (Inl e)
      with Suc.prems True o' obtain ex where ex: "e = Throw ex" "report_renewal_failure E what ex v1 = (Inr (), v')"
        "r = Some (-1)"
        by (cases e) (auto simp: bindM_eq_Inr catchM_def thenM_eq_Inr)
      with f Inl obtain q lg2 v2 where "(inner_moves J E what d)\<^sup>*\<^sup>* ((Asleep, lg), v) ((q, lg2), v2)"
        "renewal_action J E d q lg2 v2 = (Inl (Throw ex), v1)" by (auto simp: follows_def)
      from rtranclp.rtrancl_into_rtrancl [OF this(1) throw_ends [OF this(2) ex(2)]] ex(3) show ?thesis
        by (auto simp: result_phase_def)
    qed
  qed
qed



section \<open>The daemon\<close>

record running_daemon =
  grpc :: server
  renewer :: renewal_thread

text \<open>
  A step of the daemon is an event of the server or an action of the renewal thread. A fault that is not caught
  ends the process, and nothing follows it.
\<close>

inductive daemon_step ::
    "'j jsonlib \<Rightarrow> aws \<Rightarrow> env \<Rightarrow> (cpp_exn \<Rightarrow> string) \<Rightarrow> daemon \<Rightarrow> rpc list \<Rightarrow> running_daemon \<Rightarrow> running_daemon \<Rightarrow> bool"
  for J :: "'j jsonlib" and A :: aws and E :: env and what :: "cpp_exn \<Rightarrow> string" and d :: daemon and classes :: "rpc list"
where
  serve_event: "server_step (rpc_handle J A E (krb_files_dir d) (aws_sm_secret_name d)) classes (grpc x) s \<Longrightarrow>
     daemon_step J A E what d classes x (x\<lparr>grpc := s\<rparr>)"
| renew_action: "thread_step J E what d (renewer x) (host (grpc x)) = (Inr r, w) \<Longrightarrow>
     daemon_step J A E what d classes x (x\<lparr>grpc := (grpc x)\<lparr>host := w\<rparr>, renewer := r\<rparr>)"

text \<open>
  \<open>main\<close> starts the server first, which may have handled events when the renewal thread copies the daemon object
  with its logger; the index of the ring buffer is in its bounds then.
\<close>

inductive daemon_reach ::
    "'j jsonlib \<Rightarrow> aws \<Rightarrow> env \<Rightarrow> (cpp_exn \<Rightarrow> string) \<Rightarrow> daemon \<Rightarrow> rpc list \<Rightarrow> running_daemon \<Rightarrow> bool"
  for J :: "'j jsonlib" and A :: aws and E :: env and what :: "cpp_exn \<Rightarrow> string" and d :: daemon and classes :: "rpc list"
where
  threads_start: "server_reach (rpc_handle J A E (krb_files_dir d) (aws_sm_secret_name d)) classes s \<Longrightarrow>
     log_ok (host s) \<Longrightarrow> daemon_reach J A E what d classes \<lparr>grpc = s, renewer = new_thread d (wlog (host s))\<rparr>"
| threads_step: "daemon_reach J A E what d classes x \<Longrightarrow> daemon_step J A E what d classes x y \<Longrightarrow>
     daemon_reach J A E what d classes y"

inductive_cases daemon_stepE: "daemon_step J A E what d classes x y"

section \<open>What the threads keep for each other\<close>

context thread_inv begin

lemma keeps_report: "keeps I (report_renewal_failure E what ex)"
  unfolding report_renewal_failure_def by (intro keeps_intros keeps_time keeps_logger)

lemma keeps_action: "keeps I (renewal_action J E d p lg)"
  by (cases "(J, E, d, p, lg)" rule: renewal_action.cases)
     (auto intro!: keeps_intros keeps_event keeps_meta_paths keeps_read_meta keeps_renew_joined)

lemma keeps_thread_step: "keeps I (thread_step J E what d r)"
  unfolding thread_step_def guarded_action_def
  by (auto intro!: keeps_intros keeps_with_logger keeps_action keeps_report)

end

interpretation made_stays: thread_inv "ticket_made p" E for p E
  by unfold_locales (simp add: ticket_made_def happened_def)

lemma server_ok_host [simp]: "server_ok classes (s\<lparr>host := w\<rparr>) = server_ok classes s"
  by (simp add: server_ok_def objects_ok_def answers_ok_def awaiting_def)

definition threads_ok :: "rpc list \<Rightarrow> running_daemon \<Rightarrow> bool" where
  "threads_ok classes x \<longleftrightarrow> server_ok classes (grpc x) \<and> answers_made (grpc x)"

lemma daemon_step_ok:
  assumes "daemon_step J A E what d classes x y" and "build_classes classes" and "threads_ok classes x"
  shows "threads_ok classes y"
  using assms(1)
proof cases
  case (serve_event s)
  with assms(2,3) ok_step [OF _ assms(2) serve_event(2)] step_answers_made [OF _ assms(2) serve_event(2)]
  show ?thesis by (simp add: threads_ok_def)
next
  case (renew_action r w)
  have "ticket_made p w" if "ticket_made p (host (grpc x))" for p
    using keepsD [OF made_stays.keeps_thread_step that, of J E what d "renewer x"] renew_action(2) by simp
  with renew_action(1) assms(3) show ?thesis by (auto simp: threads_ok_def answers_made_def)
qed

lemma daemon_reach_ok:
  assumes "daemon_reach J A E what d classes x" and "build_classes classes"
  shows "threads_ok classes x"
  using assms(1)
proof induction
  case (threads_start s)
  with build_reach_ok [OF _ assms(2)] reach_answers_made [OF _ assms(2)] show ?case by (auto simp: threads_ok_def)
next
  case (threads_step x y)
  with daemon_step_ok [OF _ assms(2)] show ?case by blast
qed


section \<open>The three loggers\<close>

definition ring_ok :: "cf_logger \<Rightarrow> bool" where
  "ring_ok lg \<longleftrightarrow> log_buffer_count lg < log_ring_size"

definition rings_ok :: "running_daemon \<Rightarrow> bool" where
  "rings_ok x \<longleftrightarrow> log_ok (host (grpc x)) \<and> ring_ok (local_logger (renewer x)) \<and> ring_ok (param_logger (renewer x))"

text \<open>A logger that is put in for a while comes out in its bounds, and the one it stands in for is as before.\<close>

lemma with_logger_outside: "keeps log_ok (with_logger lg m)"
  by (auto simp: keeps_def with_logger_def log_ok_def split: prod.splits sum.splits)

lemma with_logger_inside:
  assumes "keeps log_ok m" and "ring_ok lg"
  shows "gives (\<lambda>(_, lg'). ring_ok lg') (with_logger lg m)"
  unfolding gives_def
proof (intro allI impI)
  fix w and x :: "'a \<times> cf_logger" and w' assume w': "with_logger lg m w = (Inr x, w')"
  have "log_ok (w\<lparr>wlog := lg\<rparr>)" using assms(2) by (simp add: log_ok_def ring_ok_def)
  from keepsD [OF assms(1) this] w' show "case x of (_, lg') \<Rightarrow> ring_ok lg'"
    by (auto simp: with_logger_def log_ok_def ring_ok_def split: prod.splits sum.splits)
qed

lemma keeps_ring_renewal: "keeps log_ok (renew_joined_ticket J E lg t)"
  unfolding renew_joined_ticket_def
  by (intro keeps_intros with_logger_outside ring.keeps_joined_attempts ring.keeps_logger)

lemma renewal_ring:
  assumes "ring_ok lg"
  shows "gives ring_ok (renew_joined_ticket J E lg t)"
  unfolding renew_joined_ticket_def
proof (rule gives_bindM_with)
  show "gives (\<lambda>(_, lg'). ring_ok lg') (if domainless_user t = [] \<or> uses_secret (domainless_user t)
      then with_logger lg (is_ticket_ready_for_renewal E t) else ret (False, lg))"
    using with_logger_inside [OF ring.keeps_ready assms] assms by (simp add: gives_ret)
qed (auto intro!: gives_intros)

lemma keeps_ring_action: "keeps log_ok (guarded_action J E what d p lg)"
  unfolding guarded_action_def report_renewal_failure_def
  by (cases "(J, E, d, p, lg)" rule: renewal_action.cases)
     (auto intro!: keeps_intros ring.keeps_event ring.keeps_meta_paths ring.keeps_read_meta keeps_ring_renewal
       ring.keeps_time ring.keeps_logger)

lemma action_ring:
  assumes "ring_ok lg"
  shows "gives (\<lambda>(_, lg'). ring_ok lg') (guarded_action J E what d p lg)"
proof -
  have "gives (\<lambda>(_, lg'). ring_ok lg') (bindM (renew_joined_ticket J E lg t) (\<lambda>lg'. ret (q, lg')))" for t q
    by (rule gives_bindM_with [OF renewal_ring [OF assms]]) (simp add: gives_ret)
  then have "gives (\<lambda>(_, lg'). ring_ok lg') (renewal_action J E d p lg)"
    using assms by (cases "(J, E, d, p, lg)" rule: renewal_action.cases) (auto intro: gives_intros)
  then show ?thesis unfolding guarded_action_def using assms by (intro gives_intros) auto
qed

lemma thread_step_rings:
  assumes "thread_step J E what d r w = (Inr r', w')" and "log_ok w" and "ring_ok (local_logger r)"
    and "ring_ok (param_logger r)"
  shows "log_ok w' \<and> ring_ok (local_logger r') \<and> ring_ok (param_logger r')"
proof -
  let ?m = "guarded_action J E what d (phase r) (param_logger r)"
  obtain p lg own where 1: "with_logger (local_logger r) ?m w = (Inr ((p, lg), own), w')"
    "r' = \<lparr>phase = p, local_logger = own, param_logger = lg\<rparr>"
    using assms(1) by (auto simp: thread_step_def bindM_eq_Inr)
  from 1(1) obtain v where "?m (w\<lparr>wlog := local_logger r\<rparr>) = (Inr (p, lg), v)"
    by (auto simp: with_logger_def split: prod.splits sum.splits)
  from givesD [OF action_ring [OF assms(4)] this] have "ring_ok lg" by simp
  moreover from givesD [OF with_logger_inside [OF keeps_ring_action assms(3)] 1(1)] have "ring_ok own" by simp
  moreover have "log_ok w'" using keepsD [OF with_logger_outside assms(2), of "local_logger r" ?m] 1(1) by simp
  ultimately show ?thesis using 1(2) by simp
qed

lemma daemon_rings_ok:
  assumes "daemon_reach J A E what d classes x" and "build_classes classes"
  shows "rings_ok x"
  using assms(1)
proof induction
  case (threads_start s)
  then show ?case by (simp add: rings_ok_def new_thread_def log_ok_def ring_ok_def)
next
  case (threads_step x y)
  from threads_step(2) show ?case
  proof cases
    case (serve_event s)
    with ring.server_keeps [OF _ assms(2) serve_event(2)] daemon_reach_ok [OF threads_step(1) assms(2)] threads_step(3)
    show ?thesis by (simp add: rings_ok_def threads_ok_def)
  next
    case (renew_action r w)
    with thread_step_rings [OF renew_action(2)] threads_step(3) show ?thesis by (simp add: rings_ok_def)
  qed
qed

text \<open>
  C25: Server and renewal log through loggers of their own, and the index of each ring buffer stays inside its
  array in every state the daemon reaches, however long it runs and whatever it is asked.
\<close>
theorem threads_keep_log_rings:
  assumes "daemon_reach J A E what d classes x" and "build_classes classes"
  shows "rings_ok x"
  using daemon_rings_ok [OF assms] .

section \<open>One request that ends all renewals\<close>

lemma lost_directory_ends_thread:
  assumes "case resolve (wfs w) (krb_files_dir d) of None \<Rightarrow> True | Some l \<Rightarrow> \<not> is_dir_at (wfs w) l"
    and "got_systemd_shutdown_signal d = 0" and "log_writable E" and "ring_ok (local_logger r)" and "phase r = Asleep"
  shows "\<exists>r' w'. thread_step J E what d r w = (Inr r', w') \<and> phase r' = Returned (-1)"
proof -
  let ?v = "w\<lparr>wlog := local_logger r, evs := Slept (nat (60 * interval_minutes d)) # evs w\<rparr>"
  have "files_below (krb_files_dir d) (wfs w) = Inl (Throw (Fs_error (krb_files_dir d)))"
    using assms(1) by (auto simp: files_below_def split: option.splits)
  then have a: "renewal_action J E d Asleep (param_logger r) (w\<lparr>wlog := local_logger r\<rparr>) =
      (Inl (Throw (Fs_error (krb_files_dir d))), ?v)"
    using assms(2) by (simp add: thenM_def get_meta_data_file_paths_def bindM_apply)
  have "log_ok ?v" using assms(4) by (simp add: log_ok_def ring_ok_def)
  with report_returns [OF assms(3)] obtain v' where "report_renewal_failure E what (Fs_error (krb_files_dir d)) ?v = (Inr (), v')"
    by blast
  with a assms(5) show ?thesis
    by (simp add: thread_step_def with_logger_def guarded_action_def bindM_def)
qed

lemma returned_stays:
  assumes "(daemon_step J A E what d classes)\<^sup>*\<^sup>* x y" and "phase (renewer x) = Returned v"
  shows "phase (renewer y) = Returned v"
  using assms(1)
proof induction
  case (step y z)
  from step(2) show ?case
  proof cases
    case (renew_action r w)
    with step(3) show ?thesis
      by (auto simp: thread_step_def guarded_action_def with_logger_def bindM_def catchM_def)
  qed (use step(3) in simp)
qed (rule assms(2))

lemma threads_ok_steps:
  "(daemon_step J A E what d classes)\<^sup>*\<^sup>* x y \<Longrightarrow> build_classes classes \<Longrightarrow> threads_ok classes x \<Longrightarrow> threads_ok classes y"
  by (induction rule: rtranclp_induct) (auto intro: daemon_step_ok)


section \<open>A daemon at work\<close>

text \<open>The daemon as it starts on a host, with an object that waits for requests of some class.\<close>

lemma daemon_awaits:
  assumes "K \<in> set amazon_linux_classes" and "log_ok w"
  shows "\<exists>x tag. daemon_reach J A E what d amazon_linux_classes x \<and> awaiting K (grpc x) tag \<and> host (grpc x) = w \<and>
    answers (grpc x) = [] \<and> renewer x = new_thread d (wlog w)"
proof -
  obtain s tag where s: "server_reach (rpc_handle J A E (krb_files_dir d) (aws_sm_secret_name d)) amazon_linux_classes s"
    "awaiting K s tag" "host s = w" "answers s = []"
    using server_awaits [OF assms(1)] by blast
  with daemon_reach.threads_start [OF s(1), of what] assms(2) show ?thesis
    by (intro exI [of _ "\<lparr>grpc = s, renewer = new_thread d (wlog w)\<rparr>"] exI [of _ tag]) auto
qed

definition lease_daemon :: daemon where
  "lease_daemon = new_daemon\<lparr>krb_files_dir := ''/k''\<rparr>"


theorem threads_keep_log_rings_witness:
  "\<exists>x. daemon_reach tree_json no_aws quiet_env (\<lambda>_. []) lease_daemon amazon_linux_classes x \<and> rings_ok x"
proof -
  have "log_ok start_world" by (simp add: log_ok_def start_world_def init_logger_def log_ring_size_def)
  from daemon_awaits [OF health_class(1) this] obtain x where
    "daemon_reach tree_json no_aws quiet_env (\<lambda>_. []) lease_daemon amazon_linux_classes x" by blast
  with threads_keep_log_rings [OF this health_class(2)] show ?thesis by blast
qed


end
