(* ===== verification/Secrets.thy ===== *)
theory Secrets
  imports Lifecycle
begin

text \<open>
  What becomes of the secrets a client sends: the user name and password of a domain user, and the
  AWS keys of the ARN requests. Every answer is given after the handler's copies of them have been
  wiped (\<open>secureClearString\<close> in api/src/gmsa_service.cpp), but for a lease with a functional-test ARN.
\<close>

definition request_secrets :: "rpc \<Rightarrow> rpc_input \<Rightarrow> string list" where
  "request_secrets K q =
     (case K of
        CallDataAddNonDomainJoinedKerberosLease \<Rightarrow> [req_username (in_user q), req_password (in_user q)]
      | CallDataRenewNonDomainJoinedKerberosLease \<Rightarrow> [req_username (in_user q), req_password (in_user q)]
      | CallDataCreateKerberosArnLease \<Rightarrow>
          [req_access_key_id (in_arn q), req_session_token (in_arn q), req_secret_access_key (in_arn q)]
      | CallDataRenewKerberosArnLease \<Rightarrow>
          [req_access_key_id (in_arn q), req_session_token (in_arn q), req_secret_access_key (in_arn q)]
      | _ \<Rightarrow> [])"

text \<open>No ARN of a request is well-formed and one of the functional tests.\<close>

definition no_test_arn :: "arn_request \<Rightarrow> bool" where
  "no_test_arn q \<longleftrightarrow> list_all (\<lambda>c. case split_string c CHR ''#'' of
     [arn, mount] \<Rightarrow> \<not> IsTestInvocationForUnitTests arn | _ \<Rightarrow> True) (req_credspec_arns q)"

section \<open>What happened since\<close>

definition grown :: "world \<Rightarrow> world \<Rightarrow> bool" where
  "grown w0 w \<longleftrightarrow> (\<exists>es. evs w = es @ evs w0)"

definition happened_since :: "world \<Rightarrow> event \<Rightarrow> world \<Rightarrow> bool" where
  "happened_since w0 e w \<longleftrightarrow> (\<exists>es. evs w = es @ evs w0 \<and> e \<in> set es)"

lemma grown_refl [simp]: "grown w w"
  by (simp add: grown_def)

lemma grown_wiped: "grown w0 w \<Longrightarrow> s \<in> set ss \<Longrightarrow> s \<noteq> [] \<Longrightarrow> happened_since w0 (Wiped s) (secrets_wiped ss w)"
  by (auto simp: grown_def happened_since_def secrets_wiped_def)

interpretation growing: world_inv "grown w0" for w0
proof unfold_locales
  show "grown w0 w \<Longrightarrow> grown w0 (w\<lparr>evs := e # evs w\<rparr>)" for w e
    unfolding grown_def by (auto intro: exI [of _ "e # es" for es])
qed (auto simp: grown_def write_log_def Let_def split: option.splits sum.splits)

interpretation since: world_inv "happened_since w0 e" for w0 e
proof unfold_locales
  show "happened_since w0 e w \<Longrightarrow> happened_since w0 e (w\<lparr>evs := e' # evs w\<rparr>)" for w e'
    unfolding happened_since_def by (auto intro: exI [of _ "e' # es" for es])
qed (auto simp: happened_since_def write_log_def Let_def split: option.splits sum.splits)

section \<open>The handlers\<close>

text \<open>The end of a request wipes before it does anything else.\<close>

lemma finish_lease_wipes:
  assumes "grown w0 w" and "s \<in> set ss" and "s \<noteq> []"
  shows "happened_since w0 (Wiped s) (snd (finish_lease J ss kd lease err ts r w))"
proof -
  have "finish_lease J ss kd lease err ts r w =
      (if err \<noteq> [] then thenM (remove_tickets ts) (ret (r, Grpc_internal err))
       else bindM (write_meta_data_json J ts lease kd) (\<lambda>_. ret (r, Grpc_OK))) (secrets_wiped ss w)"
    by (simp add: finish_lease_def clear_strings)
  moreover have "keeps (happened_since w0 (Wiped s)) (if err \<noteq> [] then thenM (remove_tickets ts) (ret (r, Grpc_internal err))
       else bindM (write_meta_data_json J ts lease kd) (\<lambda>_. ret (r, Grpc_OK)))"
    by (intro keeps_intros since.keeps_remove_tickets since.keeps_write_meta)
  ultimately show ?thesis using grown_wiped [OF assms] by (simp add: keepsD)
qed

text \<open>A routine that ends with one that wipes, whatever came before.\<close>

lemma wipes_at_end:
  assumes "bindM m f w = (Inr x, w')" and "keeps (grown w) m"
    and "\<And>a w1. grown w w1 \<Longrightarrow> m w = (Inr a, w1) \<Longrightarrow> f a w1 = (Inr x, w') \<Longrightarrow> Q"
  shows Q
proof -
  from assms(1) obtain a w1 where "m w = (Inr a, w1)" "f a w1 = (Inr x, w')" unfolding bindM_eq_Inr by blast
  with assms(3) keepsD [OF assms(2) grown_refl] show Q by simp
qed

lemma add_lease_wipes:
  assumes "process_add_non_domain_joined J E kd q w = (Inr x, w')"
    and "s \<in> {req_username q, req_password q}" and "s \<noteq> []"
  shows "happened_since w (Wiped s) w'"
proof -
  let ?one = "domainless_round J E (req_domain q) (req_username q) (req_password q)"
  obtain lease where g: "generate_lease_id E w = (Inr lease, w)" by (simp add: generate_lease_id_def)
  obtain err infos where c: "collect_domainless J kd lease q = (err, infos)" by force
  from assms(1) g c obtain reply where
    r: "run_lease J [req_username q, req_password q] kd lease ?one err infos reply w = (Inr x, w')"
    by (simp add: process_add_non_domain_joined_def)
  have k: "keeps (grown w) (if err = [] then create_tickets ?one infos else ret (err, infos, []))"
    by (intro keeps_intros growing.keeps_create_tickets growing.keeps_domainless_round)
  show ?thesis
  proof (rule wipes_at_end [OF r [unfolded run_lease_def] k])
    fix a :: "string \<times> krb_ticket_info list \<times> string list" and w1
    obtain m ts ps where a: "a = (m, ts, ps)" by (cases a) auto
    assume "grown w w1" and "(case a of (err_msg, infos', paths) \<Rightarrow>
        finish_lease J [req_username q, req_password q] kd lease err_msg infos' (reply paths)) w1 = (Inr x, w')"
    with finish_lease_wipes [of w w1 s "[req_username q, req_password q]" J kd lease m ts "reply ps"] assms(2,3) a
    show ?thesis by auto
  qed
qed

lemma renew_lease_wipes:
  assumes "process_renew_non_domain_joined J E kd q w = (Inr x, w')"
    and "s \<in> {req_username q, req_password q}" and "s \<noteq> []"
  shows "happened_since w (Wiped s) w'"
  using assms(1) [unfolded process_renew_non_domain_joined_def Let_def]
proof (rule wipes_at_end)
  show "keeps (grown w) (if names_valid (req_username q) (req_domain q) then
      if credentials_fit (req_username q) (req_password q) (req_domain q) then
        bindM (renew_kerberos_tickets_domainless J E kd (req_domain q) (req_username q) (req_password q))
          (\<lambda>paths. ret (paths, Grpc_OK))
      else ret ([], Grpc_internal err_credentials) else ret ([], Grpc_internal err_names))"
    by (intro keeps_intros growing.keeps_renew_domainless)
  fix a w1
  assume "grown w w1" and "thenM (secureClearString (req_username q)) (thenM (secureClearString (req_password q)) (ret a)) w1 =
    (Inr x, w')"
  with grown_wiped [of w w1 s "[req_username q, req_password q]"] assms(2,3) show ?thesis
    by (auto simp: wiped_both)
qed

lemma collect_real_test:
  "collect_real_arn J A kd q arn mount s w = (Inr (err, s'), w') \<Longrightarrow> as_test s' = as_test s"
  by (drule collect_real_arn_cases) (auto simp: add_arn_ticket_def Let_def split: if_splits prod.splits)

lemma collect_arns_test:
  "collect_arns J A kd q cs s w = (Inr (err, s'), w') \<Longrightarrow> \<not> as_test s \<Longrightarrow>
   list_all (\<lambda>c. case split_string c CHR ''#'' of
     [arn, mount] \<Rightarrow> \<not> IsTestInvocationForUnitTests arn | _ \<Rightarrow> True) cs \<Longrightarrow> \<not> as_test s'"
proof (induction cs arbitrary: s w)
  case (Cons c cs)
  from Cons.prems(1) obtain e s1 w1 where 1: "collect_arn J A kd q c s w = (Inr (e, s1), w1)" and
    2: "(if e \<noteq> [] then ret (e, s1) else collect_arns J A kd q cs s1) w1 = (Inr (err, s'), w')"
    by (auto simp: bindM_eq_Inr simp del: bindM_Inr)
  have "\<not> as_test s1"
    using 1 Cons.prems(2,3) unfolding collect_arn_def Let_def
    by (auto split: if_splits list.splits dest!: collect_real_test)
  with 2 Cons.IH [of s1 w1] Cons.prems(3) show ?case by (auto split: if_splits)
qed simp

lemma create_arn_wipes:
  assumes "process_create_arn_lease J A E kd q w = (Inr x, w')" and "no_test_arn q"
    and "s \<in> {req_access_key_id q, req_session_token q, req_secret_access_key q}" and "s \<noteq> []"
  shows "happened_since w (Wiped s) w'"
  using assms(1) [unfolded process_create_arn_lease_def]
proof (rule wipes_at_end)
  show "keeps (grown w) (collect_arn_request J A kd q)"
    unfolding collect_arn_request_def by (intro keeps_intros growing.keeps_collect_arns)
  fix a :: "string \<times> arn_state" and w1
  obtain err st where a: "a = (err, st)" by force
  let ?make = "if err = [] \<and> \<not> as_test st then create_tickets (arn_round E (as_creds st)) (as_infos st)
    else ret (err, as_infos st, [])"
  assume g: "grown w w1" and c: "collect_arn_request J A kd q w = (Inr a, w1)" and
    "(case a of (err, st) \<Rightarrow> bindM (if err = [] \<and> \<not> as_test st then create_tickets (arn_round E (as_creds st)) (as_infos st)
      else ret (err, as_infos st, [])) (\<lambda>(err_msg, infos, _). finish_arn_lease J kd q st err_msg infos)) w1 = (Inr x, w')"
  then obtain m ts ps w2 where t: "?make w1 = (Inr (m, ts, ps), w2)" and
    f: "finish_arn_lease J kd q st m ts w2 = (Inr x, w')"
    unfolding a by (auto simp: bindM_eq_Inr simp del: bindM_Inr)
  have "keeps (grown w) ?make" by (intro keeps_intros growing.keeps_create_tickets growing.keeps_arn_round)
  from keepsD [OF this g] t have "grown w w2" by simp
  moreover have "\<not> as_test st"
    using c a collect_arns_test [of J A kd q "req_credspec_arns q" new_arn_state w err st w1] assms(2)
    by (auto simp: collect_arn_request_def no_test_arn_def new_arn_state_def split: if_splits)
  ultimately obtain r where "grown w w2" and
    "finish_lease J (arn_secrets q (fst (as_creds st)) (fst (snd (as_creds st)))) kd (as_lease_id st) m ts r w2 =
      (Inr x, w')"
    using f by (auto simp: finish_arn_lease_def)
  moreover have "s \<in> set (arn_secrets q (fst (as_creds st)) (fst (snd (as_creds st))))"
    using assms(3) by (auto simp: arn_secrets_def)
  ultimately show ?thesis
    using finish_lease_wipes [of w w2 s _ J kd "as_lease_id st" m ts r] assms(4) by (metis snd_conv)
qed

lemma renew_arn_wipes:
  assumes "process_renew_arn_lease J A E kd q w = (Inr x, w')"
    and "s \<in> {req_access_key_id q, req_session_token q, req_secret_access_key q}" and "s \<noteq> []"
  shows "happened_since w (Wiped s) w'"
  using assms(1) [unfolded process_renew_arn_lease_def]
proof (rule wipes_at_end)
  show "keeps (grown w) (if req_access_key_id q \<noteq> [] \<and> req_secret_access_key q \<noteq> [] \<and> req_session_token q \<noteq> [] \<and>
      req_region q \<noteq> [] then bindM (get_meta_data_file_paths kd) (foldM (renew_arn_file J A E q) ([], [], []))
      else ret (''ERROR: invalid credentials/region'', [], []))"
    unfolding renew_arn_file_def
    by (intro keeps_intros growing.keeps_meta_paths growing.keeps_read_meta growing.keeps_renew_arn_tickets)
  fix a :: "string \<times> string \<times> string" and w1
  obtain m u p where a: "a = (m, u, p)" by (cases a) auto
  assume "grown w w1" and "(case a of (err_msg, username, password) \<Rightarrow>
      thenM (forM secureClearString (arn_secrets q username password))
        (if err_msg \<noteq> [] then ret (''failed'', Grpc_internal err_msg) else ret (''successful'', Grpc_OK))) w1 = (Inr x, w')"
  moreover have "s \<in> set (arn_secrets q u p)" using assms(2) by (auto simp: arn_secrets_def)
  ultimately show ?thesis
    using grown_wiped [of w w1 s "arn_secrets q u p"] assms(3) a by (auto simp: clear_strings split: if_splits)
qed

section \<open>The server\<close>

lemma rpc_handle_wipes:
  assumes "rpc_handle J A E kd secret K q w = (Inr v, w')"
    and "K = CallDataCreateKerberosArnLease \<Longrightarrow> no_test_arn (in_arn q)"
    and "x \<in> set (request_secrets K q)" and "x \<noteq> []"
  shows "happened_since w (Wiped x) w'"
  using assms add_lease_wipes [of J E kd "in_user q" w _ w' x] renew_lease_wipes [of J E kd "in_user q" w _ w' x]
    create_arn_wipes [of J A E kd "in_arn q" w _ w' x] renew_arn_wipes [of J A E kd "in_arn q" w _ w' x]
  by (cases K) (auto simp: rpc_handle_def request_secrets_def bindM_eq_Inr simp del: bindM_Inr split: prod.splits)

text \<open>A request that ends in a fault is not answered: the server's thread does not get past it.\<close>

lemma faulty_request:
  assumes "server_ok classes s" and "build_classes classes" and "awaiting K s tag"
    and "rpc_handle J A E kd secret K q (host s) = (Inl e, w)"
  shows "\<exists>t. handle_event (rpc_handle J A E kd secret) classes (Ready tag q) s = (Inl e, t)"
proof -
  let ?s = "s\<lparr>pending := remove1 tag (pending s)\<rparr>"
  have "objects_ok classes s" using assms(1) by (simp add: server_ok_def)
  note tag = objects_okD [OF this assms(3) [unfolded awaiting_def]]
  have "dispatch (rpc_handle J A E kd secret) classes q tag ?s = (Inl e, (with_call K ?s)\<lparr>host := w\<rparr>)"
    using assms(2,3,4) tag open_source.dispatch_process(2) [of ?s tag K J A E kd secret q e w]
      amazon_linux.dispatch_process(2) [of ?s tag K J A E kd secret q e w]
    by (auto simp: build_classes_def awaiting_def)
  then show ?thesis by (simp add: thenM_def)
qed



end
