(* ===== verification/K5_Octets.thy ===== *)
theory K5_Octets
  imports Prelude "HOL-Library.Word"
begin

text \<open>
  Integers as octets, from the Kerberos headers kinit.c is built with (auth/kinit_client/k5-platform.h,
  k5-buf.h): the routines that store and load words of 16, 32 and 64 bits in big endian, little endian
  and host order, each with the variants the preprocessor chooses from, and the routines that
  append a word to a growing buffer. Memory from a pointer on is a list of bytes; reading or writing
  past its end is undefined behaviour. \<open>byteswap.h\<close> and the order of the host are written out.
\<close>

unbundle bit_operations_syntax

section \<open>Host memory\<close>

type_synonym byte = "8 word"

text \<open>The build: the byte order of the host, whether the header recognises it (with the swap macros at hand), and whether
  the compiler is GCC compiling C.\<close>

datatype byte_order = K5_BE | K5_LE

record k5_build =
  host_order :: byte_order
  order_known :: bool
  gnu_c :: bool

definition packed_access :: "k5_build \<Rightarrow> bool" where
  "packed_access B \<longleftrightarrow> gnu_c B \<and> order_known B"

definition to_le :: "nat \<Rightarrow> 'a::len word \<Rightarrow> byte list" where
  "to_le n w = map (\<lambda>i. ucast (drop_bit (8 * i) w)) [0..<n]"

fun from_le :: "byte list \<Rightarrow> 'a::len word" where
  "from_le [] = 0"
| "from_le (b # bs) = ucast b OR push_bit 8 (from_le bs)"

text \<open>The octets of an integer as the host lays them out, and back: an assignment through a packed
  structure, or \<open>memcpy\<close>.\<close>

definition host_octets :: "byte_order \<Rightarrow> nat \<Rightarrow> 'a::len word \<Rightarrow> byte list" where
  "host_octets bo n w = (case bo of K5_LE \<Rightarrow> to_le n w | K5_BE \<Rightarrow> rev (to_le n w))"

definition host_word :: "byte_order \<Rightarrow> byte list \<Rightarrow> 'a::len word" where
  "host_word bo bs = (case bo of K5_LE \<Rightarrow> from_le bs | K5_BE \<Rightarrow> from_le (rev bs))"

definition bswap :: "nat \<Rightarrow> 'a::len word \<Rightarrow> 'a word" where
  "bswap n w = from_le (rev (to_le n w))"

definition writing :: "byte list \<Rightarrow> byte list \<Rightarrow> fault + byte list" where
  "writing p bs = (if length p < length bs then Inl (Undef BufferOverflow) else Inr (bs @ drop (length bs) p))"

definition reading :: "nat \<Rightarrow> byte list \<Rightarrow> (byte list \<Rightarrow> fault + 'a) \<Rightarrow> fault + 'a" where
  "reading n p f = (if length p < n then Inl (Undef OutOfBounds) else f (take n p))"

definition PUT :: "k5_build \<Rightarrow> nat \<Rightarrow> byte list \<Rightarrow> 'a::len word \<Rightarrow> fault + byte list" where
  "PUT B n p val = writing p (host_octets (host_order B) n val)"

definition GET :: "k5_build \<Rightarrow> nat \<Rightarrow> byte list \<Rightarrow> fault + 'a::len word" where
  "GET B n p = reading n p (\<lambda>bs. Inr (host_word (host_order B) bs))"

definition PUTSWAPPED :: "k5_build \<Rightarrow> nat \<Rightarrow> byte list \<Rightarrow> 'a::len word \<Rightarrow> fault + byte list" where
  "PUTSWAPPED B n p val = PUT B n p (bswap n val)"

definition GETSWAPPED :: "k5_build \<Rightarrow> nat \<Rightarrow> byte list \<Rightarrow> fault + 'a::len word" where
  "GETSWAPPED B n p = map_sum id (bswap n) (GET B n p)"

section \<open>Storing\<close>

definition store_16_be :: "k5_build \<Rightarrow> 32 word \<Rightarrow> byte list \<Rightarrow> fault + byte list" where
  "store_16_be B val p =
     (if packed_access B \<and> host_order B = K5_BE then PUT B 2 p (ucast val :: 16 word)
      else if packed_access B \<and> host_order B = K5_LE then PUTSWAPPED B 2 p (ucast val :: 16 word)
      else writing p [ucast (drop_bit 8 val AND 0xff), ucast (val AND 0xff)])"

definition store_32_be :: "k5_build \<Rightarrow> 32 word \<Rightarrow> byte list \<Rightarrow> fault + byte list" where
  "store_32_be B val p =
     (if packed_access B \<and> host_order B = K5_BE then PUT B 4 p val
      else if packed_access B \<and> host_order B = K5_LE then PUTSWAPPED B 4 p val
      else writing p [ucast (drop_bit 24 val AND 0xff), ucast (drop_bit 16 val AND 0xff),
        ucast (drop_bit 8 val AND 0xff), ucast (val AND 0xff)])"

definition store_64_be :: "k5_build \<Rightarrow> 64 word \<Rightarrow> byte list \<Rightarrow> fault + byte list" where
  "store_64_be B val p =
     (if packed_access B \<and> host_order B = K5_BE then PUT B 8 p val
      else if packed_access B \<and> host_order B = K5_LE then PUTSWAPPED B 8 p val
      else writing p [ucast (drop_bit 56 val AND 0xff), ucast (drop_bit 48 val AND 0xff),
        ucast (drop_bit 40 val AND 0xff), ucast (drop_bit 32 val AND 0xff),
        ucast (drop_bit 24 val AND 0xff), ucast (drop_bit 16 val AND 0xff),
        ucast (drop_bit 8 val AND 0xff), ucast (val AND 0xff)])"

definition store_16_le :: "k5_build \<Rightarrow> 32 word \<Rightarrow> byte list \<Rightarrow> fault + byte list" where
  "store_16_le B val p =
     (if packed_access B \<and> host_order B = K5_LE then PUT B 2 p (ucast val :: 16 word)
      else if packed_access B \<and> host_order B = K5_BE then PUTSWAPPED B 2 p (ucast val :: 16 word)
      else writing p [ucast (val AND 0xff), ucast (drop_bit 8 val AND 0xff)])"

definition store_32_le :: "k5_build \<Rightarrow> 32 word \<Rightarrow> byte list \<Rightarrow> fault + byte list" where
  "store_32_le B val p =
     (if packed_access B \<and> host_order B = K5_LE then PUT B 4 p val
      else if packed_access B \<and> host_order B = K5_BE then PUTSWAPPED B 4 p val
      else writing p [ucast (val AND 0xff), ucast (drop_bit 8 val AND 0xff),
        ucast (drop_bit 16 val AND 0xff), ucast (drop_bit 24 val AND 0xff)])"

definition store_64_le :: "k5_build \<Rightarrow> 64 word \<Rightarrow> byte list \<Rightarrow> fault + byte list" where
  "store_64_le B val p =
     (if packed_access B \<and> host_order B = K5_LE then PUT B 8 p val
      else if packed_access B \<and> host_order B = K5_BE then PUTSWAPPED B 8 p val
      else writing p [ucast (val AND 0xff), ucast (drop_bit 8 val AND 0xff),
        ucast (drop_bit 16 val AND 0xff), ucast (drop_bit 24 val AND 0xff),
        ucast (drop_bit 32 val AND 0xff), ucast (drop_bit 40 val AND 0xff),
        ucast (drop_bit 48 val AND 0xff), ucast (drop_bit 56 val AND 0xff)])"

definition store_16_n :: "k5_build \<Rightarrow> 32 word \<Rightarrow> byte list \<Rightarrow> fault + byte list" where
  "store_16_n B val p = writing p (host_octets (host_order B) 2 (ucast val :: 16 word))"

definition store_32_n :: "k5_build \<Rightarrow> 32 word \<Rightarrow> byte list \<Rightarrow> fault + byte list" where
  "store_32_n B val p = writing p (host_octets (host_order B) 4 val)"

definition store_64_n :: "k5_build \<Rightarrow> 64 word \<Rightarrow> byte list \<Rightarrow> fault + byte list" where
  "store_64_n B val p = writing p (host_octets (host_order B) 8 val)"

section \<open>Loading\<close>

text \<open>An \<open>unsigned char\<close> that is shifted is promoted to \<open>int\<close>: shifting into the sign bit is undefined.\<close>

definition load_16_be :: "k5_build \<Rightarrow> byte list \<Rightarrow> fault + 16 word" where
  "load_16_be B p =
     (if packed_access B \<and> host_order B = K5_BE then GET B 2 p
      else if packed_access B \<and> host_order B = K5_LE then GETSWAPPED B 2 p
      else reading 2 p (\<lambda>b. Inr (ucast (ucast (b ! 1) OR push_bit 8 (ucast (b ! 0)) :: 32 word))))"

definition load_32_be :: "k5_build \<Rightarrow> byte list \<Rightarrow> fault + 32 word" where
  "load_32_be B p =
     (if packed_access B \<and> host_order B = K5_BE then GET B 4 p
      else if packed_access B \<and> host_order B = K5_LE then GETSWAPPED B 4 p
      else reading 4 p (\<lambda>b. Inr (ucast (b ! 3) OR push_bit 8 (ucast (b ! 2)) OR
        push_bit 16 (ucast (b ! 1)) OR push_bit 24 (ucast (b ! 0)))))"

definition both :: "fault + 'a \<Rightarrow> fault + 'b \<Rightarrow> ('a \<Rightarrow> 'b \<Rightarrow> 'c) \<Rightarrow> fault + 'c" where
  "both x y f = (case x of Inl e \<Rightarrow> Inl e | Inr a \<Rightarrow> (case y of Inl e \<Rightarrow> Inl e | Inr b \<Rightarrow> Inr (f a b)))"

definition load_64_be :: "k5_build \<Rightarrow> byte list \<Rightarrow> fault + 64 word" where
  "load_64_be B p =
     (if packed_access B \<and> host_order B = K5_BE then GET B 8 p
      else if packed_access B \<and> host_order B = K5_LE then GETSWAPPED B 8 p
      else both (load_32_be B p) (load_32_be B (drop 4 p)) (\<lambda>hi lo. push_bit 32 (ucast hi) OR ucast lo))"

definition load_16_le :: "k5_build \<Rightarrow> byte list \<Rightarrow> fault + 16 word" where
  "load_16_le B p =
     (if packed_access B \<and> host_order B = K5_LE then GET B 2 p
      else if packed_access B \<and> host_order B = K5_BE then GETSWAPPED B 2 p
      else reading 2 p (\<lambda>b. Inr (ucast (ucast (b ! 0) OR push_bit 8 (ucast (b ! 1)) :: 32 word))))"

definition load_32_le :: "k5_build \<Rightarrow> byte list \<Rightarrow> fault + 32 word" where
  "load_32_le B p =
     (if packed_access B \<and> host_order B = K5_LE then GET B 4 p
      else if packed_access B \<and> host_order B = K5_BE then GETSWAPPED B 4 p
      else reading 4 p (\<lambda>b.
        if 128 \<le> unat (b ! 3) then Inl (Undef SignedOverflow)
        else Inr (ucast (b ! 0) OR push_bit 8 (ucast (b ! 1)) OR
          push_bit 16 (ucast (b ! 2)) OR push_bit 24 (ucast (b ! 3)))))"

definition load_64_le :: "k5_build \<Rightarrow> byte list \<Rightarrow> fault + 64 word" where
  "load_64_le B p =
     (if packed_access B \<and> host_order B = K5_LE then GET B 8 p
      else if packed_access B \<and> host_order B = K5_BE then GETSWAPPED B 8 p
      else both (load_32_le B (drop 4 p)) (load_32_le B p) (\<lambda>hi lo. push_bit 32 (ucast hi) OR ucast lo))"

definition load_16_n :: "k5_build \<Rightarrow> byte list \<Rightarrow> fault + 16 word" where
  "load_16_n B p = reading 2 p (\<lambda>bs. Inr (host_word (host_order B) bs))"

definition load_32_n :: "k5_build \<Rightarrow> byte list \<Rightarrow> fault + 32 word" where
  "load_32_n B p = reading 4 p (\<lambda>bs. Inr (host_word (host_order B) bs))"

definition load_64_n :: "k5_build \<Rightarrow> byte list \<Rightarrow> fault + 64 word" where
  "load_64_n B p = reading 8 p (\<lambda>bs. Inr (host_word (host_order B) bs))"

text \<open>To network order and back. These use the swap macro whatever the compiler.\<close>

definition k5_htonll :: "k5_build \<Rightarrow> 64 word \<Rightarrow> fault + 64 word" where
  "k5_htonll B val =
     (if order_known B \<and> host_order B = K5_BE then Inr val
      else if order_known B \<and> host_order B = K5_LE then Inr (bswap 8 val)
      else load_64_be B (host_octets (host_order B) 8 val))"

definition k5_ntohll :: "k5_build \<Rightarrow> 64 word \<Rightarrow> fault + 64 word" where
  "k5_ntohll B val = k5_htonll B val"

section \<open>Octets and words\<close>

lemma bit_from_le:
  "bit (from_le bs :: 'a::len word) i \<longleftrightarrow> i < LENGTH('a) \<and> i < 8 * length bs \<and> bit (bs ! (i div 8)) (i mod 8)"
proof (induction bs arbitrary: i)
  case (Cons b bs)
  show ?case
  proof (cases "i < 8")
    case True
    then show ?thesis by (auto simp: bit_simps bit_or_iff)
  next
    case False
    then obtain j where i: "i = j + 8" by (metis add.commute le_iff_add not_less)
    have d: "(j + 8) div 8 = Suc (j div 8)" "(j + 8) mod 8 = j mod 8" by simp_all
    show ?thesis
      using Cons [of j] bit_imp_le_length [of b "j + 8"] unfolding i d
      by (auto simp: bit_simps bit_or_iff simp del: div_add_self2)
  qed
qed simp

lemma length_to_le [simp]: "length (to_le n w) = n"
  by (simp add: to_le_def)

lemma bit_to_le: "i < n \<Longrightarrow> bit (to_le n w ! i) j \<longleftrightarrow> j < 8 \<and> bit w (8 * i + j)"
  by (auto simp: to_le_def bit_simps add.commute)

lemma to_le_from_le:
  assumes "length bs = n" and "8 * n \<le> LENGTH('a)"
  shows "to_le n (from_le bs :: 'a::len word) = bs"
proof (rule nth_equalityI)
  show "length (to_le n (from_le bs :: 'a word)) = length bs" using assms by simp
  fix i assume "i < length (to_le n (from_le bs :: 'a word))"
  then have i: "i < n" by simp
  show "to_le n (from_le bs :: 'a word) ! i = bs ! i"
  proof (rule bit_word_eqI)
    fix j assume "j < LENGTH(8)"
    with i assms show "bit (to_le n (from_le bs :: 'a word) ! i) j = bit (bs ! i) j"
      by (simp add: bit_to_le bit_from_le)
  qed
qed

lemma from_le_to_le: "LENGTH('a) \<le> 8 * n \<Longrightarrow> from_le (to_le n w) = (w :: 'a::len word)"
  by (rule bit_word_eqI) (simp add: bit_from_le bit_to_le less_mult_imp_div_less mult.commute)

lemma ucast_low_byte: "ucast (w AND 0xff :: 'a::len word) = (ucast w :: byte)"
proof -
  have m: "(0xff :: 'a word) = mask 8" by (simp add: mask_eq_exp_minus_1)
  show ?thesis
    unfolding m by (rule bit_word_eqI) (auto simp: bit_simps bit_and_iff dest: bit_imp_le_length)
qed

lemma to_le_2: "to_le 2 w = [ucast w, ucast (drop_bit 8 w)]"
  by (simp add: to_le_def numeral_2_eq_2)

lemma to_le_4: "to_le 4 w = [ucast w, ucast (drop_bit 8 w), ucast (drop_bit 16 w), ucast (drop_bit 24 w)]"
  by (simp add: to_le_def upt_rec)

lemma to_le_8: "to_le 8 w = [ucast w, ucast (drop_bit 8 w), ucast (drop_bit 16 w), ucast (drop_bit 24 w),
    ucast (drop_bit 32 w), ucast (drop_bit 40 w), ucast (drop_bit 48 w), ucast (drop_bit 56 w)]"
  by (simp add: to_le_def upt_rec)

lemma to_le_ucast: "8 * n \<le> LENGTH('b) \<Longrightarrow> to_le n (ucast w :: 'b::len word) = to_le n (w :: 'a::len word)"
  by (rule nth_equalityI) (auto intro!: bit_word_eqI simp: bit_to_le bit_simps)

section \<open>What the routines store\<close>

lemma to_le_bswap: "8 * n \<le> LENGTH('a) \<Longrightarrow> to_le n (bswap n w :: 'a::len word) = rev (to_le n w)"
  by (simp add: bswap_def to_le_from_le)

lemma portable_octets:
  "[ucast (drop_bit 8 w AND 0xff), ucast (w AND 0xff)] = rev (to_le 2 w)"
  "[ucast (drop_bit 24 w AND 0xff), ucast (drop_bit 16 w AND 0xff), ucast (drop_bit 8 w AND 0xff),
    ucast (w AND 0xff)] = rev (to_le 4 w)"
  "[ucast (drop_bit 56 w AND 0xff), ucast (drop_bit 48 w AND 0xff), ucast (drop_bit 40 w AND 0xff),
    ucast (drop_bit 32 w AND 0xff), ucast (drop_bit 24 w AND 0xff), ucast (drop_bit 16 w AND 0xff),
    ucast (drop_bit 8 w AND 0xff), ucast (w AND 0xff)] = rev (to_le 8 w)"
  "[ucast (w AND 0xff), ucast (drop_bit 8 w AND 0xff)] = to_le 2 w"
  "[ucast (w AND 0xff), ucast (drop_bit 8 w AND 0xff), ucast (drop_bit 16 w AND 0xff),
    ucast (drop_bit 24 w AND 0xff)] = to_le 4 w"
  "[ucast (w AND 0xff), ucast (drop_bit 8 w AND 0xff), ucast (drop_bit 16 w AND 0xff),
    ucast (drop_bit 24 w AND 0xff), ucast (drop_bit 32 w AND 0xff), ucast (drop_bit 40 w AND 0xff),
    ucast (drop_bit 48 w AND 0xff), ucast (drop_bit 56 w AND 0xff)] = to_le 8 w"
  unfolding ucast_low_byte by (simp_all add: to_le_2 to_le_4 to_le_8)

lemma packed_store:
  fixes w :: "'a::len word"
  assumes "8 * n \<le> LENGTH('a)"
  shows "bs = rev (to_le n w) \<Longrightarrow> (if packed_access B \<and> host_order B = K5_BE then PUT B n p w
      else if packed_access B \<and> host_order B = K5_LE then PUTSWAPPED B n p w else writing p bs) =
    writing p (rev (to_le n w))"
    and "bs = to_le n w \<Longrightarrow> (if packed_access B \<and> host_order B = K5_LE then PUT B n p w
      else if packed_access B \<and> host_order B = K5_BE then PUTSWAPPED B n p w else writing p bs) =
    writing p (to_le n w)"
  using to_le_bswap [OF assms, of w] by (auto simp: PUT_def PUTSWAPPED_def host_octets_def)

lemma store_be:
  "store_16_be B v p = writing p (rev (to_le 2 v))"
  "store_32_be B v p = writing p (rev (to_le 4 v))"
  "store_64_be B x p = writing p (rev (to_le 8 x))"
proof -
  have t: "to_le 2 (ucast v :: 16 word) = to_le 2 v" by (rule to_le_ucast) simp
  show "store_16_be B v p = writing p (rev (to_le 2 v))"
    unfolding store_16_be_def t [symmetric]
    by (rule packed_store(1)) (simp, simp only: portable_octets(1) t)
  show "store_32_be B v p = writing p (rev (to_le 4 v))"
    unfolding store_32_be_def by (rule packed_store(1)) (simp, rule portable_octets(2))
  show "store_64_be B x p = writing p (rev (to_le 8 x))"
    unfolding store_64_be_def by (rule packed_store(1)) (simp, rule portable_octets(3))
qed

lemma store_le:
  "store_16_le B v p = writing p (to_le 2 v)"
  "store_32_le B v p = writing p (to_le 4 v)"
  "store_64_le B x p = writing p (to_le 8 x)"
proof -
  have t: "to_le 2 (ucast v :: 16 word) = to_le 2 v" by (rule to_le_ucast) simp
  show "store_16_le B v p = writing p (to_le 2 v)"
    unfolding store_16_le_def t [symmetric]
    by (rule packed_store(2)) (simp, simp only: portable_octets(4) t)
  show "store_32_le B v p = writing p (to_le 4 v)"
    unfolding store_32_le_def by (rule packed_store(2)) (simp, rule portable_octets(5))
  show "store_64_le B x p = writing p (to_le 8 x)"
    unfolding store_64_le_def by (rule packed_store(2)) (simp, rule portable_octets(6))
qed

section \<open>What the routines load\<close>

lemma bswap_from_le: "length bs = n \<Longrightarrow> LENGTH('a) = 8 * n \<Longrightarrow> bswap n (from_le bs :: 'a::len word) = from_le (rev bs)"
  "length bs = n \<Longrightarrow> LENGTH('a) = 8 * n \<Longrightarrow> bswap n (from_le (rev bs) :: 'a::len word) = from_le bs"
  by (simp_all add: bswap_def to_le_from_le)

lemma packed_load:
  assumes "n \<le> length p" and "LENGTH('a) = 8 * n"
  shows "x = Inr (from_le (rev (take n p))) \<Longrightarrow>
    (if packed_access B \<and> host_order B = K5_BE then GET B n p
     else if packed_access B \<and> host_order B = K5_LE then GETSWAPPED B n p else x) =
    Inr (from_le (rev (take n p)) :: 'a::len word)"
    and "x = Inr (from_le (take n p)) \<Longrightarrow>
    (if packed_access B \<and> host_order B = K5_LE then GET B n p
     else if packed_access B \<and> host_order B = K5_BE then GETSWAPPED B n p else x) =
    Inr (from_le (take n p) :: 'a::len word)"
  using assms by (auto simp: GET_def GETSWAPPED_def reading_def host_word_def bswap_from_le)

lemma from_le_2: "from_le [a, b] = ucast a OR push_bit 8 (ucast b)"
  by simp

lemma from_le_4: "from_le [a, b, c, d] = ucast a OR push_bit 8 (ucast b) OR push_bit 16 (ucast c) OR push_bit 24 (ucast d)"
  by (simp add: push_bit_or or.assoc)

lemma from_le_append: "from_le (bs @ cs) = from_le bs OR push_bit (8 * length bs) (from_le cs)"
  by (induction bs) (simp_all add: push_bit_or or.assoc push_bit_push_bit add.commute)

lemma ucast_from_le: "8 * length bs \<le> LENGTH('b) \<Longrightarrow> ucast (from_le bs :: 'b::len word) = (from_le bs :: 'a::len word)"
  by (rule bit_word_eqI) (auto simp: bit_simps bit_from_le)

lemma from_le_halves:
  "length bs = 4 \<Longrightarrow> length cs = 4 \<Longrightarrow>
   push_bit 32 (ucast (from_le cs :: 32 word)) OR ucast (from_le bs :: 32 word) = (from_le (bs @ cs) :: 64 word)"
  by (simp add: from_le_append ucast_from_le or.commute)

lemma octets_2: "length bs = 2 \<Longrightarrow> bs = [bs ! 0, bs ! 1]"
  by (auto simp: numeral_2_eq_2 length_Suc_conv)

lemma octets_4: "length bs = 4 \<Longrightarrow> bs = [bs ! 0, bs ! 1, bs ! 2, bs ! 3]"
  by (auto simp: eval_nat_numeral length_Suc_conv)

lemma portable_words:
  "length bs = 4 \<Longrightarrow> ucast (bs ! 3) OR push_bit 8 (ucast (bs ! 2)) OR push_bit 16 (ucast (bs ! 1)) OR
    push_bit 24 (ucast (bs ! 0)) = from_le (rev bs)"
  "length bs = 4 \<Longrightarrow> ucast (bs ! 0) OR push_bit 8 (ucast (bs ! 1)) OR push_bit 16 (ucast (bs ! 2)) OR
    push_bit 24 (ucast (bs ! 3)) = from_le bs"
  "length bs = 2 \<Longrightarrow> ucast (ucast (bs ! 1) OR push_bit 8 (ucast (bs ! 0)) :: 32 word) = (from_le (rev bs) :: 16 word)"
  "length bs = 2 \<Longrightarrow> ucast (ucast (bs ! 0) OR push_bit 8 (ucast (bs ! 1)) :: 32 word) = (from_le bs :: 16 word)"
proof -
  assume "length bs = 4"
  then obtain a b c d where bs: "bs = [a, b, c, d]" using octets_4 by blast
  show "ucast (bs ! 3) OR push_bit 8 (ucast (bs ! 2)) OR push_bit 16 (ucast (bs ! 1)) OR
      push_bit 24 (ucast (bs ! 0)) = from_le (rev bs)"
    "ucast (bs ! 0) OR push_bit 8 (ucast (bs ! 1)) OR push_bit 16 (ucast (bs ! 2)) OR
      push_bit 24 (ucast (bs ! 3)) = from_le bs"
    unfolding bs rev.simps append.simps from_le_4 by (simp_all add: numeral_3_eq_3)
next
  assume "length bs = 2"
  then obtain a b where bs: "bs = [a, b]" using octets_2 by blast
  have u: "8 * length [b, a] \<le> LENGTH(32)" "8 * length [a, b] \<le> LENGTH(32)" by simp_all
  show "ucast (ucast (bs ! 1) OR push_bit 8 (ucast (bs ! 0)) :: 32 word) = (from_le (rev bs) :: 16 word)"
    "ucast (ucast (bs ! 0) OR push_bit 8 (ucast (bs ! 1)) :: 32 word) = (from_le bs :: 16 word)"
    using ucast_from_le [OF u(1), where 'a = 16] ucast_from_le [OF u(2), where 'a = 16]
    unfolding bs by (simp_all add: from_le_2)
qed

lemma load_be:
  "2 \<le> length p \<Longrightarrow> load_16_be B p = Inr (from_le (rev (take 2 p)))"
  "4 \<le> length p \<Longrightarrow> load_32_be B p = Inr (from_le (rev (take 4 p)))"
  "8 \<le> length p \<Longrightarrow> load_64_be B p = Inr (from_le (rev (take 8 p)))"
proof -
  show "load_16_be B p = Inr (from_le (rev (take 2 p)))" if "2 \<le> length p"
    unfolding load_16_be_def using that portable_words(3) [of "take 2 p"]
    by (intro packed_load(1)) (simp_all add: reading_def)
  show 4: "load_32_be B p = Inr (from_le (rev (take 4 p)))" if "4 \<le> length p" for p
    unfolding load_32_be_def using that portable_words(1) [of "take 4 p"]
    by (intro packed_load(1)) (simp_all add: reading_def)
  show "load_64_be B p = Inr (from_le (rev (take 8 p)))" if "8 \<le> length p"
  proof -
    have "take 8 p = take 4 p @ take 4 (drop 4 p)" using take_add [of 4 4 p] by simp
    then show ?thesis
      unfolding load_64_be_def
      using that 4 [of p] 4 [of "drop 4 p"] from_le_halves [of "rev (take 4 (drop 4 p))" "rev (take 4 p)"]
      by (intro packed_load(1)) (simp_all add: both_def)
  qed
qed

text \<open>Little endian words are read from any octets by a build with packed access, by the others when the top octets
  do not reach the sign bit.\<close>

definition le_readable :: "k5_build \<Rightarrow> byte list \<Rightarrow> bool" where
  "le_readable B bs \<longleftrightarrow> packed_access B \<or> (\<forall>i < length bs. i mod 4 = 3 \<longrightarrow> unat (bs ! i) < 128)"

lemma le_readable_append:
  assumes "le_readable B (bs @ cs)" and "length bs = 4"
  shows "le_readable B bs" and "le_readable B cs"
proof -
  have d: "unat ((bs @ cs) ! i) < 128" if "\<not> packed_access B" "i < length (bs @ cs)" "i mod 4 = 3" for i
    using assms(1) that unfolding le_readable_def by blast
  have "unat (bs ! i) < 128" if "\<not> packed_access B" "i < length bs" "i mod 4 = 3" for i
    using d [of i] that by (simp add: nth_append)
  then show "le_readable B bs" by (auto simp: le_readable_def)
  have "unat (cs ! i) < 128" if "\<not> packed_access B" "i < length cs" "i mod 4 = 3" for i
    using d [of "i + 4"] that assms(2) by (simp add: nth_append)
  then show "le_readable B cs" by (auto simp: le_readable_def)
qed

lemma load_le:
  "2 \<le> length p \<Longrightarrow> load_16_le B p = Inr (from_le (take 2 p))"
  "4 \<le> length p \<Longrightarrow> le_readable B (take 4 p) \<Longrightarrow> load_32_le B p = Inr (from_le (take 4 p))"
  "8 \<le> length p \<Longrightarrow> le_readable B (take 8 p) \<Longrightarrow> load_64_le B p = Inr (from_le (take 8 p))"
proof -
  show "load_16_le B p = Inr (from_le (take 2 p))" if "2 \<le> length p"
    unfolding load_16_le_def using that portable_words(4) [of "take 2 p"]
    by (intro packed_load(2)) (simp_all add: reading_def)
  show 4: "load_32_le B p = Inr (from_le (take 4 p))" if "4 \<le> length p" "le_readable B (take 4 p)" for p
  proof (cases "packed_access B")
    case True
    then show ?thesis
      using that packed_load(2) [of 4 p "Inr (from_le (take 4 p) :: 32 word)" B] by (cases "host_order B") (auto simp: load_32_le_def)
  next
    case False
    with that have "unat (take 4 p ! 3) < 128" by (auto simp: le_readable_def)
    then show ?thesis
      unfolding load_32_le_def using that portable_words(2) [of "take 4 p"]
      by (intro packed_load(2)) (simp_all add: reading_def)
  qed
  show "load_64_le B p = Inr (from_le (take 8 p))" if l: "8 \<le> length p" "le_readable B (take 8 p)"
  proof -
    have t: "take 8 p = take 4 p @ take 4 (drop 4 p)" using take_add [of 4 4 p] by simp
    have "le_readable B (take 4 p)" "le_readable B (take 4 (drop 4 p))"
      using le_readable_append [of B "take 4 p" "take 4 (drop 4 p)"] l t by auto
    then show ?thesis
      unfolding load_64_le_def
      using l(1) t 4 [of p] 4 [of "drop 4 p"] from_le_halves [of "take 4 p" "take 4 (drop 4 p)"]
      by (intro packed_load(2)) (simp_all add: both_def)
  qed
qed

section \<open>Storing and loading back\<close>

text \<open>
  What a pair of routines for one width and order promises: the octets stored do not depend on the
  build, and loading reads them. \<open>readable\<close> says of which octets the load is defined.
\<close>

locale octet_codec =
  fixes n :: nat and enc :: "'v \<Rightarrow> byte list" and dec :: "byte list \<Rightarrow> 'r" and conv :: "'v \<Rightarrow> 'r"
    and store :: "k5_build \<Rightarrow> 'v \<Rightarrow> byte list \<Rightarrow> fault + byte list"
    and load :: "k5_build \<Rightarrow> byte list \<Rightarrow> fault + 'r"
    and readable :: "k5_build \<Rightarrow> byte list \<Rightarrow> bool"
  assumes enc_length: "length (enc v) = n"
    and dec_enc: "dec (enc v) = conv v"
    and store_enc: "store B v p = writing p (enc v)"
    and load_dec: "n \<le> length p \<Longrightarrow> readable B (take n p) \<Longrightarrow> load B p = Inr (dec (take n p))"
begin

lemma stored:
  assumes "n \<le> length p" and "readable B' (enc v)"
  shows "\<exists>p'. store B v p = Inr p' \<and> length p' = length p \<and> drop n p' = drop n p \<and> load B' p' = Inr (conv v)"
proof -
  let ?p = "enc v @ drop n p"
  have "store B v p = Inr ?p" using assms(1) by (simp add: store_enc writing_def enc_length)
  moreover have "load B' ?p = Inr (conv v)"
    using load_dec [of ?p B'] assms by (simp add: enc_length dec_enc)
  ultimately show ?thesis using assms(1) by (simp add: enc_length)
qed

lemma too_short: "length p < n \<Longrightarrow> store B v p = Inl (Undef BufferOverflow)"
  by (simp add: store_enc writing_def enc_length)

lemma builds_agree: "store B v p = store B' v p"
  by (simp add: store_enc)

end

lemma from_le_to_le_ucast: "LENGTH('b) \<le> 8 * n \<Longrightarrow> LENGTH('b) \<le> LENGTH('a) \<Longrightarrow>
    from_le (to_le n (w :: 'a::len word)) = (ucast w :: 'b::len word)"
  by (rule bit_word_eqI) (auto simp: bit_from_le bit_to_le bit_simps less_mult_imp_div_less mult.commute)

interpretation be16: octet_codec 2 "\<lambda>v. rev (to_le 2 v)" "\<lambda>bs. from_le (rev bs)" ucast store_16_be load_16_be "\<lambda>_ _. True"
  by unfold_locales (simp_all add: from_le_to_le_ucast store_be load_be)

interpretation be32: octet_codec 4 "\<lambda>v. rev (to_le 4 v)" "\<lambda>bs. from_le (rev bs)" "\<lambda>v. v" store_32_be load_32_be "\<lambda>_ _. True"
  by unfold_locales (simp_all add: from_le_to_le store_be load_be)

interpretation be64: octet_codec 8 "\<lambda>v. rev (to_le 8 v)" "\<lambda>bs. from_le (rev bs)" "\<lambda>v. v" store_64_be load_64_be "\<lambda>_ _. True"
  by unfold_locales (simp_all add: from_le_to_le store_be load_be)

interpretation le16: octet_codec 2 "to_le 2" from_le ucast store_16_le load_16_le "\<lambda>_ _. True"
  by unfold_locales (simp_all add: from_le_to_le_ucast store_le load_le)

interpretation le32: octet_codec 4 "to_le 4" from_le "\<lambda>v. v" store_32_le load_32_le le_readable
  by unfold_locales (simp_all add: from_le_to_le store_le load_le)

interpretation le64: octet_codec 8 "to_le 8" from_le "\<lambda>v. v" store_64_le load_64_le le_readable
  by unfold_locales (simp_all add: from_le_to_le store_le load_le)

text \<open>
  C27: Big endian words survive the change of hosts: what one build stores, any other build reads back, and the memory
  behind is left alone, whatever order the hosts have and whichever variant of the routines was compiled.
\<close>
theorem network_order_roundtrip:
  assumes "8 \<le> length p"
  shows "(\<exists>p'. store_16_be B v p = Inr p' \<and> drop 2 p' = drop 2 p \<and> load_16_be B' p' = Inr (ucast v)) \<and>
    (\<exists>p'. store_32_be B v p = Inr p' \<and> drop 4 p' = drop 4 p \<and> load_32_be B' p' = Inr v) \<and>
    (\<exists>p'. store_64_be B x p = Inr p' \<and> drop 8 p' = drop 8 p \<and> load_64_be B' p' = Inr x)"
proof (intro conjI)
  have l: "2 \<le> length p" "4 \<le> length p" using assms by simp_all
  show "\<exists>p'. store_16_be B v p = Inr p' \<and> drop 2 p' = drop 2 p \<and> load_16_be B' p' = Inr (ucast v)"
    using be16.stored [OF l(1) TrueI] by blast
  show "\<exists>p'. store_32_be B v p = Inr p' \<and> drop 4 p' = drop 4 p \<and> load_32_be B' p' = Inr v"
    using be32.stored [OF l(2) TrueI] by blast
  show "\<exists>p'. store_64_be B x p = Inr p' \<and> drop 8 p' = drop 8 p \<and> load_64_be B' p' = Inr x"
    using be64.stored [OF assms TrueI] by blast
qed

text \<open>
  The variant for unknown compilers reads little endian words only up to a point: with the top octet from
  128 on, the shift of the promoted \<open>int\<close> overflows, while the packed variant reads the word.
\<close>
theorem portable_load_le_overflow:
  assumes "4 \<le> length p" and "128 \<le> unat (p ! 3)" and "\<not> packed_access B" and "packed_access B'"
  shows "load_32_le B p = Inl (Undef SignedOverflow) \<and> load_32_le B' p = Inr (from_le (take 4 p))"
proof -
  have "load_32_le B' p = Inr (from_le (take 4 p))"
    using assms(1,4) by (intro load_le) (simp_all add: le_readable_def)
  moreover have "take 4 p ! 3 = p ! 3" by simp
  ultimately show ?thesis using assms(1-3) by (simp add: load_32_le_def reading_def)
qed

lemma htonll_octets:
  "k5_htonll B val = Inr (if host_order B = K5_BE then val else bswap 8 val)"
proof (cases "order_known B")
  case False
  then show ?thesis
    by (cases "host_order B") (simp_all add: k5_htonll_def load_be host_octets_def from_le_to_le bswap_def)
next
  case True
  then show ?thesis by (cases "host_order B") (simp_all add: k5_htonll_def)
qed

lemma ntohll_htonll: "k5_htonll B val = Inr x \<Longrightarrow> k5_ntohll B x = Inr val"
  by (auto simp: htonll_octets k5_ntohll_def bswap_def to_le_from_le from_le_to_le split: if_splits)

section \<open>Two hosts\<close>

definition amd64 :: k5_build where
  "amd64 = \<lparr>host_order = K5_LE, order_known = True, gnu_c = True\<rparr>"

definition other_compiler :: k5_build where
  "other_compiler = \<lparr>host_order = K5_BE, order_known = True, gnu_c = False\<rparr>"

theorem network_order_roundtrip_witness:
  "\<exists>p'. store_32_be amd64 258 (replicate 9 7) = Inr p' \<and> drop 4 p' = replicate 5 7 \<and> load_32_be other_compiler p' = Inr 258"
proof -
  have "8 \<le> length (replicate 9 (7 :: byte))" "drop 4 (replicate 9 (7 :: byte)) = replicate 5 7"
    by (simp_all add: drop_replicate)
  with network_order_roundtrip [OF this(1), of amd64 258 other_compiler 0] show ?thesis by metis
qed

theorem portable_load_le_overflow_witness:
  "load_32_le other_compiler [0, 0, 0, 128] = Inl (Undef SignedOverflow) \<and>
   load_32_le amd64 [0, 0, 0, 128] = Inr (from_le [0, 0, 0, 128])"
  using portable_load_le_overflow [of "[0, 0, 0, 128]" other_compiler amd64]
  by (simp add: packed_access_def other_compiler_def amd64_def)

end
