(* ===== verification/K5_Wire.thy ===== *)
theory K5_Wire
  imports K5_Octets
begin

text \<open>
  Users of the octet routines in the Kerberos headers: the inline functions that append numbers to
  a growing buffer (auth/kinit_client/k5-buf.h), and those that read and set the port of a socket
  address (auth/kinit_client/socket-utils.h). The buffer's own routines, \<open>k5_buf_get_space\<close> and
  \<open>k5_buf_add_len\<close>, are declared in the header only, and are parameters here.
\<close>

section \<open>Growing buffers\<close>

text \<open>
  The bytes the buffer holds after a call, and whether it returned a pointer, which is to the space
  after the bytes it held before.
\<close>

type_synonym get_space = "byte list \<Rightarrow> nat \<Rightarrow> byte list \<times> bool"

text \<open>What k5-buf.h documents: the length grows by as much as was asked for, or the result is NULL.\<close>

definition extends_buffer :: "get_space \<Rightarrow> bool" where
  "extends_buffer space \<longleftrightarrow>
     (\<forall>buf n buf'. space buf n = (buf', True) \<longrightarrow> length buf' = length buf + n \<and> take (length buf) buf' = buf)"

definition add_word ::
    "get_space \<Rightarrow> nat \<Rightarrow> (byte list \<Rightarrow> fault + byte list) \<Rightarrow> byte list \<Rightarrow> fault + byte list" where
  "add_word space n store buf =
     (case space buf n of
        (buf', False) \<Rightarrow> Inr buf'
      | (buf', True) \<Rightarrow> map_sum id (\<lambda>q. take (length buf) buf' @ q) (store (drop (length buf) buf')))"

definition k5_buf_add_byte :: "(byte list \<Rightarrow> byte list \<Rightarrow> byte list) \<Rightarrow> byte list \<Rightarrow> byte \<Rightarrow> byte list" where
  "k5_buf_add_byte k5_buf_add_len buf val = k5_buf_add_len buf [val]"

definition k5_buf_add_uint16_be :: "get_space \<Rightarrow> k5_build \<Rightarrow> byte list \<Rightarrow> 16 word \<Rightarrow> fault + byte list" where
  "k5_buf_add_uint16_be space B buf val = add_word space 2 (store_16_be B (ucast val)) buf"

definition k5_buf_add_uint16_le :: "get_space \<Rightarrow> k5_build \<Rightarrow> byte list \<Rightarrow> 16 word \<Rightarrow> fault + byte list" where
  "k5_buf_add_uint16_le space B buf val = add_word space 2 (store_16_le B (ucast val)) buf"

definition k5_buf_add_uint32_be :: "get_space \<Rightarrow> k5_build \<Rightarrow> byte list \<Rightarrow> 32 word \<Rightarrow> fault + byte list" where
  "k5_buf_add_uint32_be space B buf val = add_word space 4 (store_32_be B val) buf"

definition k5_buf_add_uint32_le :: "get_space \<Rightarrow> k5_build \<Rightarrow> byte list \<Rightarrow> 32 word \<Rightarrow> fault + byte list" where
  "k5_buf_add_uint32_le space B buf val = add_word space 4 (store_32_le B val) buf"

definition k5_buf_add_uint64_be :: "get_space \<Rightarrow> k5_build \<Rightarrow> byte list \<Rightarrow> 64 word \<Rightarrow> fault + byte list" where
  "k5_buf_add_uint64_be space B buf val = add_word space 8 (store_64_be B val) buf"

definition k5_buf_add_uint64_le :: "get_space \<Rightarrow> k5_build \<Rightarrow> byte list \<Rightarrow> 64 word \<Rightarrow> fault + byte list" where
  "k5_buf_add_uint64_le space B buf val = add_word space 8 (store_64_le B val) buf"

text \<open>A word is appended with its octets, and what the buffer held before stays.\<close>

lemma add_word_appends:
  assumes "extends_buffer space" and "space buf n = (buf', True)"
    and "\<And>p. store p = writing p octets" and "length octets = n"
  shows "add_word space n store buf = Inr (buf @ octets)"
  using assms by (auto simp: add_word_def writing_def extends_buffer_def)

lemma add_words_append:
  assumes "extends_buffer space"
  shows "space buf 2 = (b1, True) \<Longrightarrow> k5_buf_add_uint16_be space B buf h = Inr (buf @ rev (to_le 2 h))"
    and "space buf 2 = (b1, True) \<Longrightarrow> k5_buf_add_uint16_le space B buf h = Inr (buf @ to_le 2 h)"
    and "space buf 4 = (b1, True) \<Longrightarrow> k5_buf_add_uint32_be space B buf w = Inr (buf @ rev (to_le 4 w))"
    and "space buf 4 = (b1, True) \<Longrightarrow> k5_buf_add_uint32_le space B buf w = Inr (buf @ to_le 4 w)"
    and "space buf 8 = (b1, True) \<Longrightarrow> k5_buf_add_uint64_be space B buf x = Inr (buf @ rev (to_le 8 x))"
    and "space buf 8 = (b1, True) \<Longrightarrow> k5_buf_add_uint64_le space B buf x = Inr (buf @ to_le 8 x)"
proof -
  have t: "to_le 2 (ucast h :: 32 word) = to_le 2 h" by (rule to_le_ucast) simp
  note app = add_word_appends [OF assms]
  show "space buf 2 = (b1, True) \<Longrightarrow> k5_buf_add_uint16_be space B buf h = Inr (buf @ rev (to_le 2 h))"
    unfolding k5_buf_add_uint16_be_def t [symmetric] by (rule app) (simp_all add: store_be)
  show "space buf 2 = (b1, True) \<Longrightarrow> k5_buf_add_uint16_le space B buf h = Inr (buf @ to_le 2 h)"
    unfolding k5_buf_add_uint16_le_def t [symmetric] by (rule app) (simp_all add: store_le)
  show "space buf 4 = (b1, True) \<Longrightarrow> k5_buf_add_uint32_be space B buf w = Inr (buf @ rev (to_le 4 w))"
    unfolding k5_buf_add_uint32_be_def by (rule app) (simp_all add: store_be)
  show "space buf 4 = (b1, True) \<Longrightarrow> k5_buf_add_uint32_le space B buf w = Inr (buf @ to_le 4 w)"
    unfolding k5_buf_add_uint32_le_def by (rule app) (simp_all add: store_le)
  show "space buf 8 = (b1, True) \<Longrightarrow> k5_buf_add_uint64_be space B buf x = Inr (buf @ rev (to_le 8 x))"
    unfolding k5_buf_add_uint64_be_def by (rule app) (simp_all add: store_be)
  show "space buf 8 = (b1, True) \<Longrightarrow> k5_buf_add_uint64_le space B buf x = Inr (buf @ to_le 8 x)"
    unfolding k5_buf_add_uint64_le_def by (rule app) (simp_all add: store_le)
qed

section \<open>Socket addresses\<close>

text \<open>
  The three families the inline functions tell apart; ports and IPv4 addresses are kept as
  the structures keep them, in network order.
\<close>

datatype sockaddr = Sa_inet "16 word" "32 word" | Sa_inet6 "16 word" "byte list" | Sa_other "16 word"

definition htons :: "k5_build \<Rightarrow> 16 word \<Rightarrow> 16 word" where
  "htons B p = (case host_order B of K5_BE \<Rightarrow> p | K5_LE \<Rightarrow> bswap 2 p)"

definition ntohs :: "k5_build \<Rightarrow> 16 word \<Rightarrow> 16 word" where
  "ntohs B p = htons B p"

definition sa_setport :: "k5_build \<Rightarrow> sockaddr \<Rightarrow> 16 word \<Rightarrow> sockaddr" where
  "sa_setport B sa port =
     (case sa of
        Sa_inet _ addr \<Rightarrow> Sa_inet (htons B port) addr
      | Sa_inet6 _ addr \<Rightarrow> Sa_inet6 (htons B port) addr
      | Sa_other f \<Rightarrow> Sa_other f)"

definition sa_getport :: "k5_build \<Rightarrow> sockaddr \<Rightarrow> 16 word" where
  "sa_getport B sa =
     (case sa of Sa_inet port _ \<Rightarrow> ntohs B port | Sa_inet6 port _ \<Rightarrow> ntohs B port | Sa_other _ \<Rightarrow> 0)"

definition sa_is_inet :: "sockaddr \<Rightarrow> bool" where
  "sa_is_inet sa = (case sa of Sa_other _ \<Rightarrow> False | _ \<Rightarrow> True)"

definition sa_is_wildcard :: "sockaddr \<Rightarrow> bool" where
  "sa_is_wildcard sa =
     (case sa of
        Sa_inet6 _ addr \<Rightarrow> (\<forall>b \<in> set addr. b = 0)
      | Sa_inet _ addr \<Rightarrow> addr = 0
      | Sa_other _ \<Rightarrow> False)"

definition sa_socklen :: "sockaddr \<Rightarrow> fault + nat" where
  "sa_socklen sa = (case sa of Sa_inet6 _ _ \<Rightarrow> Inr 28 | Sa_inet _ _ \<Rightarrow> Inr 16 | Sa_other _ \<Rightarrow> Inl Abort)"

lemma ntohs_htons: "ntohs B (htons B p) = p"
  by (cases "host_order B") (simp_all add: ntohs_def htons_def bswap_def to_le_from_le from_le_to_le)

text \<open>The port that is set is the port that is read, the rest of the address stays.\<close>

lemma setport_getport:
  "sa_getport B (sa_setport B sa port) = (if sa_is_inet sa then port else 0)"
  "sa_is_inet (sa_setport B sa port) = sa_is_inet sa"
  "sa_is_wildcard (sa_setport B sa port) = sa_is_wildcard sa"
  "sa_socklen (sa_setport B sa port) = sa_socklen sa"
  by (cases sa; simp add: sa_getport_def sa_setport_def sa_is_inet_def sa_is_wildcard_def sa_socklen_def
      ntohs_htons)+

text \<open>The length is that of an Internet socket address, and there is none exactly for the other families.\<close>

lemma socklen_inet: "(\<exists>n. sa_socklen sa = Inr n) \<longleftrightarrow> sa_is_inet sa"
  by (cases sa) (simp_all add: sa_socklen_def sa_is_inet_def)

section \<open>A packet on the wire\<close>

text \<open>
  Numbers appended to a buffer on one host are found on every other, each at the offset where it was
  appended, in network order and, with packed access, in little endian order, and the bytes before them are kept.
\<close>
theorem buffer_words_read_back:
  assumes "extends_buffer space" and "space buf 4 = (b1, True)"
    and "k5_buf_add_uint32_be space B buf w = Inr buf1" and "space buf1 8 = (b2, True)"
    and "k5_buf_add_uint64_le space B buf1 x = Inr buf2" and "packed_access B'"
  shows "take (length buf) buf2 = buf \<and> length buf2 = length buf + 12 \<and>
    load_32_be B' (drop (length buf) buf2) = Inr w \<and> load_64_le B' (drop (length buf + 4) buf2) = Inr x"
proof -
  have b: "buf1 = buf @ rev (to_le 4 w)" "buf2 = buf1 @ to_le 8 x"
    using add_words_append(3) [OF assms(1,2), of B w] add_words_append(6) [OF assms(1,4), of B x] assms(3,5) by auto
  have "load_32_be B' (rev (to_le 4 w) @ to_le 8 x) = Inr w"
    by (simp add: load_be from_le_to_le)
  moreover have "load_64_le B' (to_le 8 x) = Inr x"
    using load_le(3) [of "to_le 8 x" B'] assms(6) by (simp add: le_readable_def from_le_to_le)
  ultimately show ?thesis by (simp add: b)
qed

definition roomy :: get_space where "roomy buf n = (buf @ replicate n 0, True)"

theorem buffer_words_read_back_witness:
  "\<exists>buf2. take 1 buf2 = [7] \<and> load_32_be amd64 (drop 1 buf2) = Inr 258 \<and> load_64_le amd64 (drop 5 buf2) = Inr 65535"
proof -
  have s: "extends_buffer roomy" by (simp add: extends_buffer_def roomy_def)
  have p: "packed_access amd64" by (simp add: packed_access_def amd64_def)
  let ?b1 = "[7] @ rev (to_le 4 (258 :: 32 word))"
  have 1: "k5_buf_add_uint32_be roomy amd64 [7] 258 = Inr ?b1"
    by (rule add_words_append(3) [OF s]) (simp add: roomy_def)
  have 2: "k5_buf_add_uint64_le roomy amd64 ?b1 65535 = Inr (?b1 @ to_le 8 (65535 :: 64 word))"
    by (rule add_words_append(6) [OF s]) (simp add: roomy_def)
  from buffer_words_read_back [OF s _ 1 _ 2 p] show ?thesis
    by (intro exI [of _ "?b1 @ to_le 8 (65535 :: 64 word)"]) (auto simp: roomy_def)
qed

end
