(* ===== verification/K5_Init.thy ===== *)
theory K5_Init
  imports Prelude
begin

text \<open>
  One-time initialisation in the Kerberos headers: the \<open>once\<close> control of a process without a thread library
  (auth/kinit_client/k5-thread.h \<open>k5_os_nothread_once\<close>), the initialisers built on it
  (auth/kinit_client/k5-platform.h \<open>MAKE_INIT_FUNCTION\<close>, \<open>CALL_INIT_FUNCTION\<close>, \<open>INITIALIZER_RAN\<close>) and the checked
  mutex operations. The library's own state \<open>'s\<close> is what its initialiser works on; an initialiser may call
  the initialiser again, so it acts on the whole state.
\<close>

section \<open>The once control\<close>

record 's k5_init =
  once :: nat
  init_error :: int
  did_run :: bool
  lib :: 's

type_synonym ('s, 'a) IM = "('s k5_init, 'a) M"

definition K5_OS_NOTHREAD_ONCE_INIT :: nat where "K5_OS_NOTHREAD_ONCE_INIT = 2"

definition k5_os_nothread_once :: "('s, unit) IM \<Rightarrow> ('s, int) IM" where
  "k5_os_nothread_once F =
     bindM (getM once) (\<lambda>st.
       if st = 3 then ret 0
       else if st = 2 then
         thenM (modM (\<lambda>s. s\<lparr>once := 4\<rparr>))
        (thenM F
        (thenM (modM (\<lambda>s. s\<lparr>once := 3\<rparr>))
          (ret 0)))
       else raise Abort)"

section \<open>Initialisers\<close>

definition MAKE_INIT_FUNCTION :: "'s \<Rightarrow> 's k5_init" where
  "MAKE_INIT_FUNCTION x = \<lparr>once = K5_OS_NOTHREAD_ONCE_INIT, init_error = 0, did_run = False, lib = x\<rparr>"

text \<open>The function the control runs, and the call.\<close>

definition init_aux :: "('s, int) IM \<Rightarrow> ('s, unit) IM" where
  "init_aux NAME =
     thenM (modM (\<lambda>s. s\<lparr>did_run := True\<rparr>))
    (bindM NAME (\<lambda>e. modM (\<lambda>s. s\<lparr>init_error := e\<rparr>)))"

definition k5_call_init_function :: "('s, int) IM \<Rightarrow> ('s, int) IM" where
  "k5_call_init_function NAME =
     bindM (k5_os_nothread_once (init_aux NAME)) (\<lambda>err.
       if err \<noteq> 0 then ret err
       else bindM (getM did_run) (\<lambda>ran.
         if \<not> ran then raise Abort else getM init_error))"

definition INITIALIZER_RAN :: "'s k5_init \<Rightarrow> bool" where
  "INITIALIZER_RAN s \<longleftrightarrow> did_run s \<and> init_error s = 0"

section \<open>Checked mutex operations\<close>

text \<open>Both with their assertion on the result of the operating system's routine.\<close>

definition k5_mutex_lock :: "('w, int) M \<Rightarrow> ('w, unit) M" where
  "k5_mutex_lock os_lock = bindM os_lock (\<lambda>r. if r = 0 then ret () else raise Abort)"

definition k5_mutex_unlock :: "('w, int) M \<Rightarrow> ('w, unit) M" where
  "k5_mutex_unlock os_unlock = bindM os_unlock (\<lambda>r. if r = 0 then ret () else raise Abort)"

section \<open>An initialiser runs once\<close>

text \<open>What holds between calls: the control has run exactly when the initialiser has.\<close>

definition init_ok :: "'s k5_init \<Rightarrow> bool" where
  "init_ok s \<longleftrightarrow> once s = 2 \<and> \<not> did_run s \<and> init_error s = 0 \<or> once s = 3 \<and> did_run s"

lemma init_start: "init_ok (MAKE_INIT_FUNCTION x)"
  by (simp add: init_ok_def MAKE_INIT_FUNCTION_def K5_OS_NOTHREAD_ONCE_INIT_def)

text \<open>An initialiser proper works on the library and leaves its control alone.\<close>

definition on_library :: "('s \<Rightarrow> int \<times> 's) \<Rightarrow> ('s, int) IM" where
  "on_library f = (\<lambda>s. case f (lib s) of (e, x) \<Rightarrow> (Inr e, s\<lparr>lib := x\<rparr>))"

lemma first_call:
  assumes "once s = 2"
  shows "k5_call_init_function (on_library f) s =
    (Inr (fst (f (lib s))), \<lparr>once = 3, init_error = fst (f (lib s)), did_run = True, lib = snd (f (lib s))\<rparr>)"
  using assms
  by (cases s)
     (simp add: k5_call_init_function_def k5_os_nothread_once_def init_aux_def on_library_def bindM_def thenM_def
        split: prod.splits)

lemma later_call:
  assumes "once s = 3" and "did_run s"
  shows "k5_call_init_function NAME s = (Inr (init_error s), s)"
  using assms by (simp add: k5_call_init_function_def k5_os_nothread_once_def)

lemma call_ok:
  assumes "init_ok s"
  shows "\<exists>t. k5_call_init_function (on_library f) s = (Inr (init_error t), t) \<and> init_ok t \<and> once t = 3"
proof (cases "once s = 2")
  case True
  then show ?thesis by (simp add: first_call init_ok_def)
next
  case False
  with assms have "once s = 3" "did_run s" by (auto simp: init_ok_def)
  then show ?thesis using assms by (simp add: later_call)
qed

text \<open>A sequence of calls, as the entry points of a library make them.\<close>

fun init_calls :: "('s, int) IM \<Rightarrow> nat \<Rightarrow> ('s, int list) IM" where
  "init_calls NAME 0 = ret []"
| "init_calls NAME (Suc n) =
     bindM (k5_call_init_function NAME) (\<lambda>e. bindM (init_calls NAME n) (\<lambda>es. ret (e # es)))"

lemma calls_after:
  "once s = 3 \<Longrightarrow> did_run s \<Longrightarrow> init_calls NAME n s = (Inr (replicate n (init_error s)), s)"
  by (induction n) (simp_all add: later_call bindM_def)

text \<open>
  However often a library's entry points ask for its initialisation, the initialiser runs once, every
  one of them gets its result, and the finaliser will see that it ran exactly when it reported no error.
\<close>
theorem initialiser_runs_once:
  assumes "f x = (e, y)" and "0 < n"
  shows "\<exists>s. init_calls (on_library f) n (MAKE_INIT_FUNCTION x) = (Inr (replicate n e), s) \<and> lib s = y \<and>
    (INITIALIZER_RAN s \<longleftrightarrow> e = 0)"
proof -
  obtain m where n: "n = Suc m" using assms(2) by (cases n) auto
  let ?s = "\<lparr>once = 3, init_error = e, did_run = True, lib = y\<rparr>"
  have "k5_call_init_function (on_library f) (MAKE_INIT_FUNCTION x) = (Inr e, ?s)"
    using first_call [of "MAKE_INIT_FUNCTION x" f] assms(1)
    by (simp add: MAKE_INIT_FUNCTION_def K5_OS_NOTHREAD_ONCE_INIT_def)
  then show ?thesis using calls_after [of ?s "on_library f" m] by (simp add: n bindM_def INITIALIZER_RAN_def)
qed

text \<open>An initialiser that asks for its own initialisation ends the process: the control detects it.\<close>

lemma recursive_initialiser_aborts:
  "once s = 2 \<Longrightarrow> fst (k5_call_init_function (k5_call_init_function NAME) s) = Inl Abort"
  by (simp add: k5_call_init_function_def k5_os_nothread_once_def init_aux_def bindM_def thenM_def)

theorem initialiser_runs_once_witness:
  "\<exists>s. init_calls (on_library (\<lambda>k. (0, k + 1))) 3 (MAKE_INIT_FUNCTION (0 :: nat)) = (Inr (replicate 3 0), s) \<and>
     lib s = 1 \<and> INITIALIZER_RAN s"
proof -
  let ?f = "\<lambda>k :: nat. (0 :: int, k + 1)"
  have "?f 0 = (0, 1)" "0 < (3 :: nat)" by simp_all
  with initialiser_runs_once [where f = ?f and x = 0 and e = 0 and y = 1 and n = 3]
  show ?thesis by (simp only: simp_thms)
qed

end
