(* ===== verification/K5_Mutex.thy ===== *)
theory K5_Mutex
  imports K5_Init
begin

text \<open>
  The mutexes behind the checked operations of the Kerberos headers (auth/kinit_client/k5-thread.h): those
  of a process without threads, which do nothing, and those of Windows, a kernel object with a flag
  beside it. The calls of Windows are parameters; the last part takes them as they are documented, with a
  kernel mutex that counts how often its owner has taken it, and runs several threads.
\<close>

section \<open>Without threads\<close>

definition k5_os_nothread_mutex_finish_init :: "('w, int) M" where "k5_os_nothread_mutex_finish_init = ret 0"
definition k5_os_nothread_mutex_init :: "('w, int) M" where "k5_os_nothread_mutex_init = ret 0"
definition k5_os_nothread_mutex_destroy :: "('w, int) M" where "k5_os_nothread_mutex_destroy = ret 0"
definition k5_os_nothread_mutex_lock :: "('w, int) M" where "k5_os_nothread_mutex_lock = ret 0"
definition k5_os_nothread_mutex_unlock :: "('w, int) M" where "k5_os_nothread_mutex_unlock = ret 0"

section \<open>Windows\<close>

datatype handle = NULL | INVALID_HANDLE_VALUE | Handle nat

datatype wait_result = WAIT_OBJECT_0 | WAIT_TIMEOUT | WAIT_ABANDONED | WAIT_FAILED | Other_wait int

record 'k win_mutex =
  mutex_h :: handle
  is_locked :: int
  kernel :: 'k

text \<open>What a thread can call.\<close>

record 'k win_calls =
  CreateMutex :: "'k \<Rightarrow> handle \<times> 'k"
  CloseHandle :: "handle \<Rightarrow> 'k \<Rightarrow> bool \<times> 'k"
  WaitForSingleObject :: "handle \<Rightarrow> 'k \<Rightarrow> wait_result \<times> 'k"
  ReleaseMutex :: "handle \<Rightarrow> 'k \<Rightarrow> bool \<times> 'k"
  GetLastError :: "'k \<Rightarrow> int"

type_synonym ('k, 'a) WinM = "('k win_mutex, 'a) M"

definition win_call :: "(handle \<Rightarrow> 'k \<Rightarrow> 'a \<times> 'k) \<Rightarrow> ('k, 'a) WinM" where
  "win_call f = (\<lambda>m. case f (mutex_h m) (kernel m) of (x, k) \<Rightarrow> (Inr x, m\<lparr>kernel := k\<rparr>))"

definition last_win_error :: "'k win_calls \<Rightarrow> ('k, int) WinM" where
  "last_win_error W = getM (\<lambda>m. GetLastError W (kernel m))"

definition assertM :: "('w \<Rightarrow> bool) \<Rightarrow> ('w, unit) M" where
  "assertM P = bindM (getM P) (\<lambda>b. if b then ret () else raise Abort)"

definition K5_OS_MUTEX_PARTIAL_INITIALIZER :: "'k \<Rightarrow> 'k win_mutex" where
  "K5_OS_MUTEX_PARTIAL_INITIALIZER k = \<lparr>mutex_h = INVALID_HANDLE_VALUE, is_locked = 0, kernel = k\<rparr>"

text \<open>\<open>( M->h = CreateMutex( NULL, FALSE, NULL ) ) ? 0 : GetLastError()\<close>\<close>

definition create_handle :: "'k win_calls \<Rightarrow> ('k, int) WinM" where
  "create_handle W =
     bindM (win_call (\<lambda>_. CreateMutex W)) (\<lambda>h.
     thenM (modM (\<lambda>m. m\<lparr>mutex_h := h\<rparr>))
       (if h \<noteq> NULL then ret 0 else last_win_error W))"

definition k5_os_mutex_finish_init :: "'k win_calls \<Rightarrow> ('k, int) WinM" where
  "k5_os_mutex_finish_init W = thenM (assertM (\<lambda>m. mutex_h m = INVALID_HANDLE_VALUE)) (create_handle W)"

definition k5_os_mutex_init :: "'k win_calls \<Rightarrow> ('k, int) WinM" where
  "k5_os_mutex_init W = thenM (modM (\<lambda>m. m\<lparr>is_locked := 0\<rparr>)) (create_handle W)"

definition k5_os_mutex_destroy :: "'k win_calls \<Rightarrow> ('k, int) WinM" where
  "k5_os_mutex_destroy W =
     bindM (win_call (CloseHandle W)) (\<lambda>closed.
       if closed then thenM (modM (\<lambda>m. m\<lparr>mutex_h := NULL\<rparr>)) (ret 0) else last_win_error W)"

definition k5_win_mutex_lock :: "'k win_calls \<Rightarrow> ('k, int) WinM" where
  "k5_win_mutex_lock W =
     bindM (win_call (WaitForSingleObject W)) (\<lambda>res.
     if res = WAIT_FAILED then last_win_error W
     else
       thenM (assertM (\<lambda>_. res \<noteq> WAIT_TIMEOUT))
      (thenM (assertM (\<lambda>_. res \<noteq> WAIT_ABANDONED))
      (thenM (assertM (\<lambda>_. res = WAIT_OBJECT_0))
      (thenM (assertM (\<lambda>m. is_locked m = 0))
      (thenM (modM (\<lambda>m. m\<lparr>is_locked := 1\<rparr>))
        (ret 0))))))"

definition k5_os_mutex_unlock :: "'k win_calls \<Rightarrow> ('k, int) WinM" where
  "k5_os_mutex_unlock W =
     thenM (assertM (\<lambda>m. is_locked m = 1))
    (thenM (modM (\<lambda>m. m\<lparr>is_locked := 0\<rparr>))
    (bindM (win_call (ReleaseMutex W)) (\<lambda>released.
       if released then ret 0 else last_win_error W)))"

section \<open>Results\<close>

text \<open>Without threads the checked operations do nothing and never fail.\<close>

lemma nothread_checked:
  "k5_mutex_lock k5_os_nothread_mutex_lock s = (Inr (), s)"
  "k5_mutex_unlock k5_os_nothread_mutex_unlock s = (Inr (), s)"
  by (simp_all add: k5_mutex_lock_def k5_mutex_unlock_def k5_os_nothread_mutex_lock_def
      k5_os_nothread_mutex_unlock_def)

lemma assertM_apply: "assertM P s = (if P s then (Inr (), s) else (Inl Abort, s))"
  by (simp add: assertM_def)

text \<open>When the checked lock returns, the wait was granted, the flag was down and is up.\<close>

lemma win_lock_returns:
  assumes "k5_mutex_lock (k5_win_mutex_lock W) m = (Inr (), m')" and "\<And>k. GetLastError W k \<noteq> 0"
  shows "\<exists>k. WaitForSingleObject W (mutex_h m) (kernel m) = (WAIT_OBJECT_0, k) \<and> is_locked m = 0 \<and>
    m\<lparr>kernel := k, is_locked := 1\<rparr> = m'"
proof -
  obtain res k where "WaitForSingleObject W (mutex_h m) (kernel m) = (res, k)" by force
  with assms show ?thesis
    by (cases res; cases "is_locked m = 0")
       (simp_all add: k5_mutex_lock_def k5_win_mutex_lock_def win_call_def last_win_error_def assertM_apply bindM_def
          thenM_def)
qed

section \<open>Several threads\<close>

text \<open>
  The kernel's mutex: free, or taken by a thread so many times. A wait by the owner is granted at
  once; one by another thread does not return before the mutex is free.
\<close>

type_synonym kernel_mutex = "(nat \<times> nat) option"

definition wait_returns :: "nat \<Rightarrow> kernel_mutex \<Rightarrow> bool" where
  "wait_returns t k \<longleftrightarrow> (case k of None \<Rightarrow> True | Some (owner, n) \<Rightarrow> owner = t)"

definition ERROR_NOT_OWNER :: int where "ERROR_NOT_OWNER = 288"

definition calls_of :: "nat \<Rightarrow> kernel_mutex win_calls" where
  "calls_of t = \<lparr>
     CreateMutex = (\<lambda>k. (Handle 1, None)),
     CloseHandle = (\<lambda>h k. (True, k)),
     WaitForSingleObject = (\<lambda>h k. case k of
        None \<Rightarrow> (WAIT_OBJECT_0, Some (t, 1))
      | Some (owner, n) \<Rightarrow> (WAIT_OBJECT_0, Some (owner, n + 1))),
     ReleaseMutex = (\<lambda>h k. case k of
        None \<Rightarrow> (False, k)
      | Some (owner, n) \<Rightarrow>
          if owner \<noteq> t then (False, k) else (True, if n = 1 then None else Some (owner, n - 1))),
     GetLastError = (\<lambda>k. ERROR_NOT_OWNER)\<rparr>"

datatype mutex_action = Lock nat | Unlock nat

text \<open>A thread's operation, when it returns.\<close>

inductive mutex_step :: "mutex_action \<Rightarrow> kernel_mutex win_mutex \<Rightarrow> kernel_mutex win_mutex \<Rightarrow> bool" where
  lock: "wait_returns t (kernel m) \<Longrightarrow> k5_mutex_lock (k5_win_mutex_lock (calls_of t)) m = (Inr (), m') \<Longrightarrow>
    mutex_step (Lock t) m m'"
| unlock: "k5_mutex_unlock (k5_os_mutex_unlock (calls_of t)) m = (Inr (), m') \<Longrightarrow> mutex_step (Unlock t) m m'"

inductive_simps mutex_lock_step: "mutex_step (Lock t) m m'"
inductive_simps mutex_unlock_step: "mutex_step (Unlock t) m m'"

inductive mutex_reach :: "kernel_mutex win_mutex \<Rightarrow> bool" where
  start: "k5_os_mutex_init (calls_of t) m0 = (Inr 0, m) \<Longrightarrow> mutex_reach m"
| step: "mutex_reach m \<Longrightarrow> mutex_step a m m' \<Longrightarrow> mutex_reach m'"

text \<open>The flag says what the kernel knows: free and down, or taken once and up.\<close>

definition flag_ok :: "kernel_mutex win_mutex \<Rightarrow> bool" where
  "flag_ok m \<longleftrightarrow> kernel m = None \<and> is_locked m = 0 \<or> (\<exists>t. kernel m = Some (t, 1)) \<and> is_locked m = 1"

text \<open>What the operations of a thread do to a mutex on which the two agree.\<close>

lemma lock_free:
  "kernel m = None \<Longrightarrow> is_locked m = 0 \<Longrightarrow>
   k5_mutex_lock (k5_win_mutex_lock (calls_of t)) m = (Inr (), m\<lparr>is_locked := 1, kernel := Some (t, 1)\<rparr>)"
  by (simp add: k5_mutex_lock_def k5_win_mutex_lock_def win_call_def calls_of_def assertM_apply bindM_def thenM_def)

lemma lock_again:
  "kernel m = Some (t, 1) \<Longrightarrow> is_locked m = 1 \<Longrightarrow>
   k5_mutex_lock (k5_win_mutex_lock (calls_of t)) m = (Inl Abort, m\<lparr>kernel := Some (t, 2)\<rparr>)"
  by (simp add: k5_mutex_lock_def k5_win_mutex_lock_def win_call_def calls_of_def assertM_apply bindM_def thenM_def)

lemma unlock_taken:
  "kernel m = Some (owner, 1) \<Longrightarrow> is_locked m = 1 \<Longrightarrow>
   k5_mutex_unlock (k5_os_mutex_unlock (calls_of t)) m =
     (if owner = t then (Inr (), m\<lparr>is_locked := 0, kernel := None\<rparr>) else (Inl Abort, m\<lparr>is_locked := 0\<rparr>))"
  by (simp add: k5_mutex_unlock_def k5_os_mutex_unlock_def win_call_def calls_of_def assertM_apply bindM_def thenM_def
      last_win_error_def ERROR_NOT_OWNER_def)

lemma unlock_free:
  "is_locked m = 0 \<Longrightarrow> k5_mutex_unlock (k5_os_mutex_unlock (calls_of t)) m = (Inl Abort, m)"
  by (simp add: k5_mutex_unlock_def k5_os_mutex_unlock_def assertM_apply bindM_def thenM_def)

lemma reach_flag_ok: "mutex_reach m \<Longrightarrow> flag_ok m"
proof (induction rule: mutex_reach.induct)
  case (start t m0 m)
  then show ?case
    by (auto simp: k5_os_mutex_init_def create_handle_def win_call_def calls_of_def flag_ok_def bindM_def thenM_def)
next
  case (step m a m')
  then consider "kernel m = None" "is_locked m = 0" | owner where "kernel m = Some (owner, 1)" "is_locked m = 1"
    by (auto simp: flag_ok_def)
  then show ?case
  proof cases
    case 1
    with step show ?thesis
      using lock_free [of m] unlock_free [of m] by (cases a) (auto simp: mutex_lock_step mutex_unlock_step flag_ok_def)
  next
    case 2
    with step show ?thesis
      using lock_again [of m owner] unlock_taken [of m owner]
      by (cases a) (auto simp: mutex_lock_step mutex_unlock_step flag_ok_def wait_returns_def split: if_splits)
  qed
qed

text \<open>
  Mutual exclusion: in every state the threads reach, while one of them holds the mutex no lock
  returns, the holder's own included, which aborts, and no unlock of another thread, which aborts
  too; the holder's unlock frees it.
\<close>

lemma mutex_excludes:
  assumes "mutex_reach m" and "kernel m = Some (t, n)"
  shows "\<not> mutex_step (Lock u) m m'" and "mutex_step (Unlock u) m m' \<longleftrightarrow> u = t \<and> m' = m\<lparr>is_locked := 0, kernel := None\<rparr>"
proof -
  from reach_flag_ok [OF assms(1)] assms(2) have k: "kernel m = Some (t, 1)" "is_locked m = 1"
    by (auto simp: flag_ok_def)
  show "\<not> mutex_step (Lock u) m m'"
    using lock_again [OF k] k by (auto simp: mutex_lock_step wait_returns_def)
  show "mutex_step (Unlock u) m m' \<longleftrightarrow> u = t \<and> m' = m\<lparr>is_locked := 0, kernel := None\<rparr>"
    using unlock_taken [OF k, of u] by (auto simp: mutex_unlock_step)
qed

text \<open>The unchecked unlock by another thread reports an error and still puts the flag down under the holder.\<close>

lemma foreign_unlock_clears_flag:
  "kernel m = Some (owner, 1) \<Longrightarrow> is_locked m = 1 \<Longrightarrow> owner \<noteq> t \<Longrightarrow>
   k5_os_mutex_unlock (calls_of t) m = (Inr ERROR_NOT_OWNER, m\<lparr>is_locked := 0\<rparr>)"
  by (simp add: k5_os_mutex_unlock_def win_call_def calls_of_def assertM_apply bindM_def thenM_def last_win_error_def)

end
