(* ===== verification/K5_Data.thy ===== *)
theory K5_Data
  imports K5_Octets
begin

text \<open>
  The inline functions of auth/kinit_client/k5-int.h: counted data and its comparison, allocation with
  an error code, wiping before release, and the arithmetic of 32-bit timestamps, whose negative
  range stands for the years 2038 to 2106. A pointer to memory is the list of bytes from it on, or
  \<open>None\<close> for NULL; whether \<open>calloc\<close> finds memory is an argument.
\<close>

section \<open>Memory\<close>

type_synonym pointer = "byte list option"

definition ENOMEM :: int where "ENOMEM = 12"

text \<open>The magic number of krb5.h is a name here.\<close>

datatype krb5_magic = KV5M_DATA | Magic int

definition memory :: "pointer \<Rightarrow> fault + byte list" where
  "memory p = (case p of None \<Rightarrow> Inl (Undef NullDeref) | Some m \<Rightarrow> Inr m)"

definition memcmp_eq :: "pointer \<Rightarrow> pointer \<Rightarrow> nat \<Rightarrow> fault + bool" where
  "memcmp_eq p q n =
     (case (memory p, memory q) of
        (Inr a, Inr b) \<Rightarrow> if length a < n \<or> length b < n then Inl (Undef OutOfBounds) else Inr (take n a = take n b)
      | _ \<Rightarrow> Inl (Undef NullDeref))"

text \<open>\<open>strlen\<close>: the bytes before the first zero, which must be there.\<close>

definition strlen :: "byte list \<Rightarrow> fault + nat" where
  "strlen m = (if 0 \<in> set m then Inr (length (takeWhile (\<lambda>b. b \<noteq> 0) m)) else Inl (Undef OutOfBounds))"

section \<open>Counted data\<close>

record krb5_data =
  magic :: krb5_magic
  data_length :: "32 word"
  data_bytes :: pointer

definition data_eq :: "krb5_data \<Rightarrow> krb5_data \<Rightarrow> fault + bool" where
  "data_eq d1 d2 =
     (if data_length d1 \<noteq> data_length d2 then Inr False
      else if data_length d1 = 0 then Inr True
      else memcmp_eq (data_bytes d1) (data_bytes d2) (unat (data_length d1)))"

definition data_eq_string :: "krb5_data \<Rightarrow> byte list \<Rightarrow> fault + bool" where
  "data_eq_string d s =
     (case strlen s of
        Inl e \<Rightarrow> Inl e
      | Inr n \<Rightarrow>
          if unat (data_length d) \<noteq> n then Inr False
          else if data_length d = 0 then Inr True
          else memcmp_eq (data_bytes d) (Some s) (unat (data_length d)))"

definition make_data :: "pointer \<Rightarrow> 32 word \<Rightarrow> krb5_data" where
  "make_data p len = \<lparr>magic = KV5M_DATA, data_length = len, data_bytes = p\<rparr>"

definition empty_data :: krb5_data where
  "empty_data = make_data None 0"

text \<open>The length of the string is converted to \<open>unsigned int\<close>.\<close>

definition string2data :: "byte list \<Rightarrow> fault + krb5_data" where
  "string2data s = map_sum id (\<lambda>n. make_data (Some s) (of_nat n)) (strlen s)"

record krb5_authdata =
  ad_type :: int
  ad_length :: "32 word"
  ad_contents :: pointer

definition authdata_eq :: "krb5_authdata \<Rightarrow> krb5_authdata \<Rightarrow> fault + bool" where
  "authdata_eq a1 a2 =
     (if ad_type a1 \<noteq> ad_type a2 \<or> ad_length a1 \<noteq> ad_length a2 then Inr False
      else if ad_length a1 = 0 then Inr True
      else memcmp_eq (ad_contents a1) (ad_contents a2) (unat (ad_length a1)))"

section \<open>Allocation\<close>

definition calloc :: "bool \<Rightarrow> nat \<Rightarrow> nat \<Rightarrow> pointer" where
  "calloc found nmemb sz = (if found then Some (replicate (nmemb * sz) 0) else None)"

definition alloc_data :: "bool \<Rightarrow> krb5_data \<Rightarrow> 32 word \<Rightarrow> int \<times> krb5_data" where
  "alloc_data found d len =
     (case calloc found (if 0 < len then unat len else 1) 1 of
        None \<Rightarrow> (ENOMEM, d)
      | Some m \<Rightarrow> (0, \<lparr>magic = KV5M_DATA, data_length = len, data_bytes = Some m\<rparr>))"

definition k5calloc :: "bool \<Rightarrow> 64 word \<Rightarrow> 64 word \<Rightarrow> pointer \<times> int" where
  "k5calloc found nmemb sz =
     (let ptr = calloc found (unat (if nmemb = 0 then 1 else nmemb)) (unat (if sz = 0 then 1 else sz)) in
        (ptr, if ptr = None then ENOMEM else 0))"

definition k5alloc :: "bool \<Rightarrow> 64 word \<Rightarrow> pointer \<times> int" where
  "k5alloc found sz = k5calloc found 1 sz"

text \<open>\<open>memcpy\<close> to the start of allocated memory.\<close>

definition memcpy :: "byte list \<Rightarrow> byte list \<Rightarrow> nat \<Rightarrow> fault + byte list" where
  "memcpy p src n = (if length src < n then Inl (Undef OutOfBounds) else writing p (take n src))"

definition copy_in :: "pointer \<times> int \<Rightarrow> byte list \<Rightarrow> 64 word \<Rightarrow> fault + pointer \<times> int" where
  "copy_in r src len =
     (case r of
        (Some m, code) \<Rightarrow>
          if 0 < len then map_sum id (\<lambda>m'. (Some m', code)) (memcpy m src (unat len)) else Inr r
      | (None, code) \<Rightarrow> Inr r)"

definition k5memdup :: "bool \<Rightarrow> byte list \<Rightarrow> 64 word \<Rightarrow> fault + pointer \<times> int" where
  "k5memdup found src len = copy_in (k5alloc found len) src len"

definition k5memdup0 :: "bool \<Rightarrow> byte list \<Rightarrow> 64 word \<Rightarrow> fault + pointer \<times> int" where
  "k5memdup0 found src len = copy_in (k5alloc found (len + 1)) src len"

section \<open>Wiping\<close>

text \<open>The result is the memory as it is handed to \<open>free\<close>.\<close>

definition zap :: "byte list \<Rightarrow> nat \<Rightarrow> fault + byte list" where
  "zap m len = writing m (replicate len 0)"

definition zapfree :: "pointer \<Rightarrow> nat \<Rightarrow> fault + pointer" where
  "zapfree p len = (case p of None \<Rightarrow> Inr None | Some m \<Rightarrow> map_sum id Some (zap m len))"

definition zapfreestr :: "pointer \<Rightarrow> fault + pointer" where
  "zapfreestr str =
     (case str of
        None \<Rightarrow> Inr None
      | Some m \<Rightarrow> (case strlen m of Inl e \<Rightarrow> Inl e | Inr n \<Rightarrow> map_sum id Some (zap m n)))"

definition zapfreedata :: "krb5_data option \<Rightarrow> fault + pointer" where
  "zapfreedata d = (case d of None \<Rightarrow> Inr None | Some x \<Rightarrow> zapfree (data_bytes x) (unat (data_length x)))"

section \<open>Timestamps\<close>

type_synonym krb5_timestamp = "32 word"
type_synonym krb5_deltat = "32 word"

definition ts2tt :: "krb5_timestamp \<Rightarrow> 64 word" where
  "ts2tt timestamp = ucast timestamp"

definition ts_delta :: "krb5_timestamp \<Rightarrow> krb5_timestamp \<Rightarrow> krb5_deltat" where
  "ts_delta a b = a - b"

definition ts_interval :: "krb5_timestamp \<Rightarrow> krb5_timestamp \<Rightarrow> 32 word" where
  "ts_interval start stop = (if stop < start then 0 else stop - start)"

definition ts_incr :: "krb5_timestamp \<Rightarrow> krb5_deltat \<Rightarrow> krb5_timestamp" where
  "ts_incr ts delta = ts + delta"

definition ts_after :: "krb5_timestamp \<Rightarrow> krb5_timestamp \<Rightarrow> bool" where
  "ts_after a b \<longleftrightarrow> b < a"

definition ts_within :: "krb5_timestamp \<Rightarrow> krb5_timestamp \<Rightarrow> krb5_deltat \<Rightarrow> bool" where
  "ts_within a b d \<longleftrightarrow> \<not> ts_after a (ts_incr b d) \<and> \<not> ts_after b (ts_incr a d)"

section \<open>What comparison, copies and wiping do\<close>

definition valid_data :: "krb5_data \<Rightarrow> bool" where
  "valid_data d \<longleftrightarrow> data_length d = 0 \<or> (\<exists>m. data_bytes d = Some m \<and> unat (data_length d) \<le> length m)"

definition contents :: "krb5_data \<Rightarrow> byte list" where
  "contents d = (case data_bytes d of None \<Rightarrow> [] | Some m \<Rightarrow> take (unat (data_length d)) m)"

lemma contents_length: "valid_data d \<Longrightarrow> length (contents d) = unat (data_length d)"
  by (auto simp: valid_data_def contents_def split: option.splits)

lemma data_eq_contents:
  assumes "valid_data d1" and "valid_data d2"
  shows "data_eq d1 d2 = Inr (contents d1 = contents d2)"
proof (cases "data_length d1 = data_length d2")
  case True
  show ?thesis
  proof (cases "data_length d1 = 0")
    case True
    with \<open>data_length d1 = data_length d2\<close> show ?thesis
      by (auto simp: data_eq_def contents_def split: option.splits)
  next
    case False
    with True assms show ?thesis
      by (auto simp: data_eq_def valid_data_def contents_def memcmp_eq_def memory_def)
  qed
next
  case False
  then have "unat (data_length d1) \<noteq> unat (data_length d2)" using word_unat_eq_iff by blast
  then have "contents d1 \<noteq> contents d2" using contents_length assms by metis
  with False show ?thesis by (simp add: data_eq_def)
qed

lemma string2data_eq:
  assumes "strlen s = Inr n" and "n < 2 ^ 32" and "string2data s = Inr d" and "valid_data e"
  shows "data_eq_string e s = data_eq e d"
proof -
  have d: "d = make_data (Some s) (of_nat n)" using assms(1,3) by (simp add: string2data_def)
  have n: "unat (of_nat n :: 32 word) = n" using assms(2) by (simp add: unat_of_nat)
  have "unat (data_length e) = n \<longleftrightarrow> data_length e = of_nat n" using n by auto
  then show ?thesis
    by (auto simp: data_eq_string_def data_eq_def assms(1) d make_data_def)
qed

lemma alloc_code: "snd (k5calloc found nmemb sz) = 0 \<longleftrightarrow> fst (k5calloc found nmemb sz) \<noteq> None"
  by (simp add: k5calloc_def Let_def ENOMEM_def)

lemma memdup_copies:
  assumes "unat len \<le> length src" and "len \<noteq> 0"
  shows "k5memdup True src len = Inr (Some (take (unat len) src), 0)"
  using assms
  by (simp add: k5memdup_def k5alloc_def k5calloc_def calloc_def copy_in_def memcpy_def writing_def Let_def
      word_neq_0_conv unat_gt_0)

lemma zap_clears: "n \<le> length m \<Longrightarrow> zap m n = Inr (replicate n 0 @ drop n m)"
  by (simp add: zap_def writing_def)

lemma first_zero:
  "0 \<in> set m \<Longrightarrow> length (takeWhile (\<lambda>b. b \<noteq> 0) m) < length m \<and> m ! length (takeWhile (\<lambda>b. b \<noteq> 0) m) = (0 :: byte)"
  by (induction m) auto

text \<open>Before a string is released all of it is zero, its terminator included; what lies behind it is not touched.\<close>

lemma zapfreestr_clears:
  assumes "strlen m = Inr n"
  shows "\<exists>m'. zapfreestr (Some m) = Inr (Some m') \<and> (\<forall>b \<in> set (take (n + 1) m'). b = 0) \<and>
    drop (n + 1) m' = drop (n + 1) m"
proof -
  have "n < length m \<and> m ! n = 0"
    using assms first_zero [of m] by (auto simp: strlen_def split: if_splits)
  then have l: "n < length m" and d: "drop n m = 0 # drop (n + 1) m"
    using Cons_nth_drop_Suc [of n m] by auto
  have "zapfreestr (Some m) = Inr (Some (replicate n 0 @ drop n m))"
    using assms l by (simp add: zapfreestr_def zap_clears)
  then show ?thesis by (simp add: d)
qed

section \<open>Copies\<close>

lemma memdup0_copies:
  assumes "unat len \<le> length src" and "unat len < 2 ^ 64 - 1"
  shows "k5memdup0 True src len = Inr (Some (take (unat len) src @ [0]), 0)"
proof -
  have len: "unat (len + 1) = Suc (unat len)"
    using assms(2) by (simp add: unat_word_ariths)
  then have "len + 1 \<noteq> 0" by (metis nat.distinct(1) unat_0)
  with len have a: "k5alloc True (len + 1) = (Some (replicate (Suc (unat len)) 0), 0)"
    by (simp add: k5alloc_def k5calloc_def calloc_def Let_def)
  show ?thesis
  proof (cases "len = 0")
    case True
    with a show ?thesis by (simp add: k5memdup0_def copy_in_def)
  next
    case False
    then have "0 < len" by (simp add: word_neq_0_conv)
    then show ?thesis
      unfolding k5memdup0_def a copy_in_def using assms(1)
      by (simp add: memcpy_def writing_def drop_replicate Suc_diff_le del: replicate_Suc) simp
  qed
qed

text \<open>
  With the greatest length the byte for the terminator makes the length wrap round to zero: one byte
  is allocated, and the copy runs past it.
\<close>

lemma memdup0_wraps:
  assumes "unat (- 1 :: 64 word) \<le> length src"
  shows "k5memdup0 True src (- 1) = Inl (Undef BufferOverflow)"
proof -
  have u: "unat (- 1 :: 64 word) = 2 ^ 64 - 1" by (simp add: unsigned_minus_1_eq_mask mask_eq_exp_minus_1)
  then have p: "(0 :: 64 word) < - 1" by (simp add: word_less_nat_alt)
  have "k5alloc True (- 1 + 1) = (Some [0], 0)"
    by (simp add: k5alloc_def k5calloc_def calloc_def Let_def)
  then show ?thesis
    unfolding k5memdup0_def copy_in_def using assms
    by (simp add: memcpy_def writing_def u p)
qed

section \<open>What the timestamp functions compute\<close>

text \<open>Times are compared as the 64-bit times they stand for, in the whole range from 1970 to 2106.\<close>

lemma unat_bound: "unat (t :: 32 word) < 2 ^ 32"
proof -
  have "unat t < 2 ^ LENGTH(32)" by (rule unsigned_less)
  then show ?thesis by simp
qed

lemma unat_ts2tt: "unat (ts2tt t) = unat t"
  using unat_bound [of t] by (simp add: ts2tt_def unsigned_ucast_eq take_bit_nat_eq_self)

lemma ts_after_tt: "ts_after a b \<longleftrightarrow> ts2tt b < ts2tt a"
  by (simp add: ts_after_def word_less_nat_alt unat_ts2tt)

lemma ts_interval_tt: "unat (ts_interval a b) = unat (ts2tt b) - unat (ts2tt a)"
  by (auto simp: ts_interval_def unat_ts2tt word_less_nat_alt unat_sub_if' word_le_nat_alt)

lemma ts_incr_delta: "ts_incr b (ts_delta a b) = a"
  by (simp add: ts_incr_def ts_delta_def)

lemma ts_incr_exact: "unat t + unat d < 2 ^ 32 \<Longrightarrow> unat (ts_incr t d) = unat t + unat d"
  by (simp add: ts_incr_def unat_word_ariths)

text \<open>
  C40: Two times are within \<open>d\<close> seconds of each other when their distance is at most \<open>d\<close>, as long as neither
  is less than \<open>d\<close> before the end of the range; there the sum wraps round, and a time is not
  even within \<open>d\<close> seconds of itself.
\<close>
theorem ts_within_exact:
  shows "(unat a + unat d < 2 ^ 32 \<and> unat b + unat d < 2 ^ 32 \<longrightarrow>
      (ts_within a b d \<longleftrightarrow> \<bar>int (unat a) - int (unat b)\<bar> \<le> int (unat d))) \<and>
    (2 ^ 32 \<le> unat a + unat d \<longrightarrow> \<not> ts_within a a d)"
proof (intro conjI impI)
  assume "unat a + unat d < 2 ^ 32 \<and> unat b + unat d < 2 ^ 32"
  then have "unat (ts_incr a d) = unat a + unat d" "unat (ts_incr b d) = unat b + unat d"
    using ts_incr_exact by blast+
  then show "ts_within a b d \<longleftrightarrow> \<bar>int (unat a) - int (unat b)\<bar> \<le> int (unat d)"
    by (auto simp: ts_within_def ts_after_def word_less_nat_alt simp del: of_nat_unat)
next
  assume w: "2 ^ 32 \<le> unat a + unat d"
  have l: "unat a < 2 ^ 32" "unat d < 2 ^ 32" by (rule unat_bound)+
  have "unat (ts_incr a d) = (unat a + unat d) mod 2 ^ 32"
    by (simp add: ts_incr_def unat_word_ariths)
  also have "\<dots> = unat a + unat d - 2 ^ 32" using w l by (simp add: mod_if)
  finally show "\<not> ts_within a a d"
    using w l by (simp add: ts_within_def ts_after_def word_less_nat_alt)
qed

theorem ts_within_exact_witness:
  "ts_within 100 90 10 \<and> \<not> ts_within 100 90 9 \<and> \<not> ts_within 4294967290 4294967290 6"
  using ts_within_exact [of 100 10 90] ts_within_exact [of 100 9 90] ts_within_exact [of 4294967290 6 0] by simp

end
