(* ===== verification/K5_Messages.thy ===== *)
theory K5_Messages
  imports K5_Data
begin

text \<open>
  How the Kerberos library tells its messages apart (auth/kinit_client/k5-int.h \<open>krb5int_is_app_tag\<close> and
  the macros built on it): by the application tag in the first octet of an encoding, with the bit for
  constructed encodings left out of account.
\<close>

unbundle bit_operations_syntax

datatype krb5_message = Ticket | Authenticator | As_req | As_rep | Tgs_req | Tgs_rep | Ap_req | Ap_rep
  | Krb_safe | Krb_priv | Krb_cred | Enc_as_rep_part | Enc_tgs_rep_part | Enc_ap_rep_part
  | Enc_krb_priv_part | Enc_krb_cred_part | Krb_error

text \<open>\<open>data\<close> is a \<open>char *\<close>, whose elements are signed and are promoted to \<open>int\<close>.\<close>

definition krb5int_is_app_tag :: "krb5_data option \<Rightarrow> 32 word \<Rightarrow> fault + bool" where
  "krb5int_is_app_tag dat tag =
     (case dat of
        None \<Rightarrow> Inr False
      | Some d \<Rightarrow>
          if data_length d = 0 then Inr False
          else (case memory (data_bytes d) of
                  Inl e \<Rightarrow> Inl e
                | Inr [] \<Rightarrow> Inl (Undef OutOfBounds)
                | Inr (b # _) \<Rightarrow> Inr ((scast b :: 32 word) AND NOT 0x20 = tag OR 0x40)))"

fun app_tag :: "krb5_message \<Rightarrow> 32 word" where
  "app_tag Ticket = 1"
| "app_tag Authenticator = 2"
| "app_tag As_req = 10"
| "app_tag As_rep = 11"
| "app_tag Tgs_req = 12"
| "app_tag Tgs_rep = 13"
| "app_tag Ap_req = 14"
| "app_tag Ap_rep = 15"
| "app_tag Krb_safe = 20"
| "app_tag Krb_priv = 21"
| "app_tag Krb_cred = 22"
| "app_tag Enc_as_rep_part = 25"
| "app_tag Enc_tgs_rep_part = 26"
| "app_tag Enc_ap_rep_part = 27"
| "app_tag Enc_krb_priv_part = 28"
| "app_tag Enc_krb_cred_part = 29"
| "app_tag Krb_error = 30"

text \<open>\<open>krb5_is_krb_ticket( dat )\<close> and its like, one for each message.\<close>

definition krb5_is :: "krb5_message \<Rightarrow> krb5_data option \<Rightarrow> fault + bool" where
  "krb5_is m dat = krb5int_is_app_tag dat (app_tag m)"

section \<open>The octets of a tag\<close>

text \<open>Class APPLICATION and the number, primitive or constructed.\<close>

definition tag_octets :: "krb5_message \<Rightarrow> byte list" where
  "tag_octets m = [ucast (app_tag m) OR 0x40, ucast (app_tag m) OR 0x60]"

lemma without_constructed_bit: "ucast ((scast b :: 32 word) AND NOT 0x20) = (b AND NOT 0x20 :: byte)"
proof (rule bit_word_eqI)
  fix n assume n: "n < LENGTH(8)"
  have "(0x20 :: 32 word) = 2 ^ 5" "(0x20 :: byte) = 2 ^ 5" by simp_all
  then show "bit (ucast ((scast b :: 32 word) AND NOT 0x20) :: byte) n \<longleftrightarrow> bit (b AND NOT 0x20) n"
    using n by (simp only:) (auto simp: bit_simps)
qed

lemma constructed_bit: "b = (b AND NOT 0x20) OR (if bit b 5 then 0x20 else 0)" for b :: byte
proof (rule bit_word_eqI)
  fix n assume n: "n < LENGTH(8)"
  have "bit (2 ^ 5 :: byte) n \<longleftrightarrow> n = 5" using n by (auto simp only: bit_exp_iff) (auto simp: bit_simps)
  then have e: "bit (0x20 :: byte) n \<longleftrightarrow> n = 5" by simp
  have "bit (NOT 0x20 :: byte) n \<longleftrightarrow> n \<noteq> 5" unfolding bit_not_iff e using n by simp
  with e show "bit b n \<longleftrightarrow> bit ((b AND NOT 0x20) OR (if bit b 5 then 0x20 else 0)) n"
    by (cases "bit b 5") (auto simp only: bit_or_iff bit_and_iff if_True if_False bit_0_eq bot_apply bot_bool_def)
qed

lemma octet_of_tag: "(scast b :: 32 word) AND NOT 0x20 = app_tag m OR 0x40 \<longleftrightarrow> b \<in> set (tag_octets m)" for b :: byte
proof
  assume "(scast b :: 32 word) AND NOT 0x20 = app_tag m OR 0x40"
  then have "b AND NOT 0x20 = ucast (app_tag m OR 0x40 :: 32 word)"
    unfolding without_constructed_bit [symmetric] by simp
  with constructed_bit [of b] have
    "b = ucast (app_tag m OR 0x40 :: 32 word) \<or> b = ucast (app_tag m OR 0x40 :: 32 word) OR 0x20"
    by (auto split: if_splits)
  then show "b \<in> set (tag_octets m)" by (cases m) (auto simp: tag_octets_def)
next
  have "list_all (\<lambda>b. (scast b :: 32 word) AND NOT 0x20 = app_tag m OR 0x40) (tag_octets m)"
    by (cases m; simp only:; code_simp)
  then show "b \<in> set (tag_octets m) \<Longrightarrow> (scast b :: 32 word) AND NOT 0x20 = app_tag m OR 0x40"
    by (simp add: list_all_iff)
qed

text \<open>
  Of data that is there, a message is recognised exactly by its first octet, so that nothing is
  taken for two messages; without data the answer is no.
\<close>

lemma message_recognised:
  assumes "valid_data d" and "data_length d \<noteq> 0"
  shows "krb5_is m (Some d) = Inr (hd (contents d) \<in> set (tag_octets m))"
proof -
  have "0 < unat (data_length d)" using assms(2) by (simp add: unat_gt_0)
  moreover obtain bs where bs: "data_bytes d = Some bs" "unat (data_length d) \<le> length bs"
    using assms by (auto simp: valid_data_def)
  ultimately obtain b r where "bs = b # r" by (cases bs) auto
  moreover have "hd (take (unat (data_length d)) (b # r)) = b"
    using \<open>0 < unat (data_length d)\<close> by (cases "unat (data_length d)") auto
  ultimately show ?thesis
    using assms(2) bs by (simp add: krb5_is_def krb5int_is_app_tag_def memory_def contents_def octet_of_tag [simplified])
qed

lemma message_unrecognised:
  "krb5_is m None = Inr False" "data_length d = 0 \<Longrightarrow> krb5_is m (Some d) = Inr False"
  by (simp_all add: krb5_is_def krb5int_is_app_tag_def)

lemma tags_apart: "m \<noteq> m' \<Longrightarrow> set (tag_octets m) \<inter> set (tag_octets m') = {}"
  by (cases m; cases m') (simp_all add: tag_octets_def)

lemma is_message:
  "krb5_is m dat = Inr True \<Longrightarrow> \<exists>d b r. dat = Some d \<and> data_bytes d = Some (b # r) \<and> b \<in> set (tag_octets m)"
  by (auto simp: krb5_is_def krb5int_is_app_tag_def memory_def octet_of_tag [simplified]
      split: option.splits sum.splits list.splits if_splits)

lemma one_message: "krb5_is m dat = Inr True \<Longrightarrow> krb5_is m' dat = Inr True \<Longrightarrow> m = m'"
  using tags_apart [of m m'] by (fastforce dest!: is_message)

end
