(* ===== verification/K5_Platform.thy ===== *)
theory K5_Platform
  imports Cpp_String K5_Octets
begin

text \<open>
  What the Kerberos headers adapt to the platform they are compiled for (auth/kinit_client/k5-platform.h):
  the byte order found from the macros of the system and of the compiler, the swap of 16 bits,
  initialisers run at load time, the lookups in the password database, and \<open>vsnprintf\<close> for a system
  without it. What the system's headers define and its functions return are parameters.
\<close>

unbundle bit_operations_syntax

section \<open>The byte order\<close>

text \<open>
  The macros the preprocessor looks at: those of the system's header with their values, the same
  with an underscore, those with two, and the architectures the header knows by name.
\<close>

record order_macros =
  m_BIG_ENDIAN :: "int option"
  m_LITTLE_ENDIAN :: "int option"
  m_BYTE_ORDER :: "int option"
  m1_BIG_ENDIAN :: "int option"
  m1_LITTLE_ENDIAN :: "int option"
  m1_BYTE_ORDER :: "int option"
  m2_BIG_ENDIAN :: bool
  m2_LITTLE_ENDIAN :: bool
  le_architecture :: bool
  be_architecture :: bool

text \<open>A macro in an \<open>#if\<close> that is not defined is 0.\<close>

definition cpp_value :: "int option \<Rightarrow> int" where
  "cpp_value m = (case m of None \<Rightarrow> 0 | Some v \<Rightarrow> v)"

text \<open>Whether \<open>K5_BE\<close> and whether \<open>K5_LE\<close> is defined after the tests of the macros.\<close>

definition order_from_macros :: "order_macros \<Rightarrow> bool \<times> bool" where
  "order_from_macros m =
     (if m_BIG_ENDIAN m \<noteq> None \<and> m_LITTLE_ENDIAN m \<noteq> None then
        (cpp_value (m_BYTE_ORDER m) = cpp_value (m_BIG_ENDIAN m),
         cpp_value (m_BYTE_ORDER m) = cpp_value (m_LITTLE_ENDIAN m))
      else if m_BIG_ENDIAN m \<noteq> None then (True, False)
      else if m_LITTLE_ENDIAN m \<noteq> None then (False, True)
      else if m1_BIG_ENDIAN m \<noteq> None \<and> m1_LITTLE_ENDIAN m \<noteq> None then
        (cpp_value (m1_BYTE_ORDER m) = cpp_value (m1_BIG_ENDIAN m),
         cpp_value (m1_BYTE_ORDER m) = cpp_value (m1_LITTLE_ENDIAN m))
      else if m1_BIG_ENDIAN m \<noteq> None then (True, False)
      else if m1_LITTLE_ENDIAN m \<noteq> None then (False, True)
      else if m2_BIG_ENDIAN m \<and> \<not> m2_LITTLE_ENDIAN m then (True, False)
      else if m2_LITTLE_ENDIAN m \<and> \<not> m2_BIG_ENDIAN m then (False, True)
      else (False, False))"

text \<open>The order that is found, if any; \<open>None\<close> on the outside is the \<open>#error\<close>.\<close>

definition detect_order :: "order_macros \<Rightarrow> byte_order option option" where
  "detect_order m =
     (let (be, le) = order_from_macros m;
          (be, le) = (if \<not> be \<and> \<not> le then (be_architecture m, le_architecture m) else (be, le))
      in if be \<and> le then None
         else Some (if be then Some K5_BE else if le then Some K5_LE else None))"

text \<open>The build of a host, as far as the order is concerned.\<close>

definition build_for :: "byte_order \<Rightarrow> order_macros \<Rightarrow> bool \<Rightarrow> k5_build" where
  "build_for host m gnu = \<lparr>host_order = host, order_known = (detect_order m = Some (Some host)), gnu_c = gnu\<rparr>"

section \<open>Swapping 16 bits\<close>

definition k5_swap16 :: "32 word \<Rightarrow> 32 word" where
  "k5_swap16 x = (let x = x AND 0xffff in drop_bit 8 x OR push_bit 8 (x AND 0xff))"

section \<open>Initialisers at load time\<close>

record load_init =
  init_result :: int
  did_run_flag :: nat

definition load_init_start :: load_init where
  "load_init_start = \<lparr>init_result = 0, did_run_flag = 2\<rparr>"

text \<open>The function the loader runs, as a constructor or by the linker's option.\<close>

definition load_aux :: "int \<Rightarrow> (load_init, unit) M" where
  "load_aux NAME = thenM (modM (\<lambda>s. s\<lparr>init_result := NAME\<rparr>)) (modM (\<lambda>s. s\<lparr>did_run_flag := 3\<rparr>))"

definition CALL_INIT_FUNCTION :: "(load_init, int) M" where
  "CALL_INIT_FUNCTION =
     bindM (getM did_run_flag) (\<lambda>ran. if ran = 3 then getM init_result else raise Abort)"

definition INITIALIZER_RAN_constructor :: "load_init \<Rightarrow> bool" where
  "INITIALIZER_RAN_constructor s \<longleftrightarrow> did_run_flag s = 3 \<and> init_result s = 0"

definition INITIALIZER_RAN_linker :: "load_init \<Rightarrow> bool" where
  "INITIALIZER_RAN_linker s \<longleftrightarrow> init_result s = 0"

section \<open>The password database\<close>

text \<open>
  The interfaces the configuration can find: \<open>getpwnam_r\<close> with five arguments (its code and what it
  stores in \<open>OUT\<close>), with four and an \<open>int\<close>, with four and a pointer, or only \<open>getpwnam\<close>.
\<close>

datatype 'p getpw = Posix int "'p option" | Draft_int int | Draft_pointer "'p option" | Plain "'p option"

text \<open>The value, and what is in \<open>OUT\<close> in the end.\<close>

definition k5_getpwnam_r :: "'p getpw \<Rightarrow> 'p \<Rightarrow> int \<times> 'p option" where
  "k5_getpwnam_r call REC =
     (case call of
        Posix code OUT \<Rightarrow> (if code = 0 then (if OUT = None then -1 else 0) else -1, OUT)
      | Draft_int code \<Rightarrow> if code = 0 then (0, Some REC) else (-1, None)
      | Draft_pointer p \<Rightarrow> (if p = None then -1 else 0, p)
      | Plain p \<Rightarrow> (if p = None then -1 else 0, p))"

definition k5_getpwuid_r :: "'p getpw \<Rightarrow> 'p \<Rightarrow> int \<times> 'p option" where
  "k5_getpwuid_r call REC =
     (case call of
        Posix code OUT \<Rightarrow> (if code = 0 then (if OUT = None then -1 else 0) else -1, OUT)
      | Draft_int code \<Rightarrow> if code = 0 then (0, Some REC) else (-1, None)
      | Draft_pointer p \<Rightarrow> (if p = None then -1 else 0, p)
      | Plain p \<Rightarrow> (if p = None then -1 else 0, p))"

section \<open>Formatted text\<close>

text \<open>
  \<open>_vsnprintf\<close> of Windows: the first \<open>size\<close> characters of the text with its terminator, and so no
  terminator when there is no room for it.
\<close>

definition windows_vsnprintf :: "string \<Rightarrow> string \<Rightarrow> nat \<Rightarrow> fault + string" where
  "windows_vsnprintf output str sz =
     (let n = min sz (length output + 1) in
      if length str < n then Inl (Undef BufferOverflow)
      else Inr (take n (output @ [NUL]) @ drop n str))"

text \<open>The header's \<open>vsnprintf\<close>: the length of the text, and the buffer.\<close>

definition vsnprintf :: "string \<Rightarrow> string \<Rightarrow> nat \<Rightarrow> fault + int \<times> string" where
  "vsnprintf output str sz =
     (if 0 < sz then
        (case windows_vsnprintf output str sz of
           Inl e \<Rightarrow> Inl e
         | Inr str' \<Rightarrow>
             if length str' < sz then Inl (Undef BufferOverflow)
             else Inr (int (length output), str'[sz - 1 := NUL]))
      else Inr (int (length output), str))"

text \<open>\<open>result\<close> is an \<open>int\<close>, \<open>size\<close> a \<open>size_t\<close>.\<close>

definition SNPRINTF_OVERFLOW :: "32 word \<Rightarrow> 64 word \<Rightarrow> bool" where
  "SNPRINTF_OVERFLOW result sz \<longleftrightarrow> sz \<le> ucast result"

section \<open>What is found\<close>

text \<open>
  A system whose header defines the two orders by different numbers, and \<open>BYTE_ORDER\<close> as one of
  them, is recognised, whatever else is defined; one with a single macro is taken at its word.
\<close>

lemma system_order_found:
  assumes "m_BIG_ENDIAN m = Some b" and "m_LITTLE_ENDIAN m = Some l" and "b \<noteq> l"
    and "m_BYTE_ORDER m = Some (case host of K5_BE \<Rightarrow> b | K5_LE \<Rightarrow> l)"
  shows "detect_order m = Some (Some host)"
  using assms by (cases host) (simp_all add: detect_order_def order_from_macros_def cpp_value_def)

lemma packed_build:
  assumes "m_BIG_ENDIAN m = Some b" and "m_LITTLE_ENDIAN m = Some l" and "b \<noteq> l"
    and "m_BYTE_ORDER m = Some (case host of K5_BE \<Rightarrow> b | K5_LE \<Rightarrow> l)"
  shows "packed_access (build_for host m True)"
  using system_order_found [OF assms] by (simp add: build_for_def packed_access_def)

text \<open>
  The compilation is refused only when the orders have one number, or the header knows the
  architecture under both lists.
\<close>

lemma order_refused:
  assumes "detect_order m = None"
  shows "(\<exists>x. m_BIG_ENDIAN m = Some x \<and> m_LITTLE_ENDIAN m = Some x) \<or>
    (\<exists>x. m1_BIG_ENDIAN m = Some x \<and> m1_LITTLE_ENDIAN m = Some x) \<or> (le_architecture m \<and> be_architecture m)"
  using assms by (auto simp: detect_order_def order_from_macros_def cpp_value_def split: if_splits)

text \<open>An undefined \<open>BYTE_ORDER\<close> compares as 0, so two orders numbered otherwise leave it to the architecture.\<close>

lemma order_left_to_architecture:
  assumes "m_BIG_ENDIAN m = Some b" and "m_LITTLE_ENDIAN m = Some l" and "b \<noteq> 0" and "l \<noteq> 0"
    and "m_BYTE_ORDER m = None" and "\<not> (be_architecture m \<and> le_architecture m)"
  shows "detect_order m =
    Some (if be_architecture m then Some K5_BE else if le_architecture m then Some K5_LE else None)"
  using assms by (auto simp: detect_order_def order_from_macros_def cpp_value_def)

lemma swap16_octets: "to_le 2 (k5_swap16 x) = rev (to_le 2 x)"
proof -
  have m: "(0xff :: 32 word) = mask 8" "(0xffff :: 32 word) = mask 16" by (simp_all add: mask_eq_exp_minus_1)
  have "ucast (k5_swap16 x) = (ucast (drop_bit 8 x) :: byte)"
    by (rule bit_word_eqI) (auto simp: k5_swap16_def Let_def m bit_simps)
  moreover have "ucast (drop_bit 8 (k5_swap16 x)) = (ucast x :: byte)"
    by (rule bit_word_eqI) (auto simp: k5_swap16_def Let_def m bit_simps)
  ultimately show ?thesis by (simp add: to_le_2)
qed

lemma swap16_twice: "k5_swap16 (k5_swap16 x) = x AND 0xffff"
proof -
  have m: "(0xff :: 32 word) = mask 8" "(0xffff :: 32 word) = mask 16" by (simp_all add: mask_eq_exp_minus_1)
  show ?thesis
  proof (rule bit_word_eqI)
    fix n assume "n < LENGTH(32)"
    then show "bit (k5_swap16 (k5_swap16 x)) n \<longleftrightarrow> bit (x AND 0xffff) n"
      by (cases "n < 8") (auto simp: k5_swap16_def Let_def m bit_simps)
  qed
qed

section \<open>Before and after loading\<close>

text \<open>
  Once the loader has run the initialiser its result is what every call returns, and both tests
  for the finaliser agree with it.
\<close>

lemma load_time_init:
  "\<exists>s. load_aux e load_init_start = (Inr (), s) \<and> CALL_INIT_FUNCTION s = (Inr e, s) \<and>
     (INITIALIZER_RAN_constructor s \<longleftrightarrow> e = 0) \<and> (INITIALIZER_RAN_linker s \<longleftrightarrow> e = 0)"
  by (simp add: load_aux_def CALL_INIT_FUNCTION_def INITIALIZER_RAN_constructor_def INITIALIZER_RAN_linker_def
      thenM_def)

text \<open>
  Before that a call aborts, and only the variant for constructors knows that nothing has run: with
  the linker's option the test says that the initialiser ran, and the finaliser would release what
  was never set up.
\<close>

lemma linker_init_claims_to_have_run:
  "fst (CALL_INIT_FUNCTION load_init_start) = Inl Abort \<and> \<not> INITIALIZER_RAN_constructor load_init_start \<and>
   INITIALIZER_RAN_linker load_init_start"
  by (simp add: CALL_INIT_FUNCTION_def INITIALIZER_RAN_constructor_def INITIALIZER_RAN_linker_def load_init_start_def)

section \<open>Lookups\<close>

text \<open>Whatever interface the system has: 0 is returned only with an entry, and -1 without one if the system clears it.\<close>

lemma getpw_result:
  "k5_getpwnam_r call REC = (r, out) \<Longrightarrow>
     (r = 0 \<or> r = -1) \<and> (r = 0 \<longrightarrow> out \<noteq> None) \<and> (r = -1 \<longrightarrow> out = None \<or> (\<exists>c p. call = Posix c p \<and> c \<noteq> 0))"
  by (cases call) (auto simp: k5_getpwnam_r_def split: if_splits)

lemma getpwuid_same: "k5_getpwuid_r call REC = k5_getpwnam_r call REC"
  by (simp add: k5_getpwuid_r_def k5_getpwnam_r_def)

section \<open>Truncated text\<close>

text \<open>
  In a buffer of \<open>size\<close> bytes the header's \<open>vsnprintf\<close> leaves as much of the text as fits before
  a terminator, and returns the length of all of it, as the standard has it.
\<close>

lemma vsnprintf_standard:
  assumes "NUL \<notin> set output" and "sz \<le> length str"
  shows "\<exists>str'. vsnprintf output str sz = Inr (int (length output), str') \<and> length str' = length str \<and>
    (0 < sz \<longrightarrow> c_str str' = take (sz - 1) output) \<and> drop sz str' = drop sz str"
proof (cases "0 < sz")
  case True
  let ?n = "min sz (length output + 1)"
  let ?s = "take ?n (output @ [NUL]) @ drop ?n str"
  have l: "length ?s = length str" using assms(2) by auto
  have v: "vsnprintf output str sz = Inr (int (length output), ?s[sz - 1 := NUL])"
    using True assms(2) l by (simp add: vsnprintf_def windows_vsnprintf_def Let_def)
  have "c_str (?s[sz - 1 := NUL]) = take (sz - 1) output"
  proof (cases "sz \<le> length output")
    case True
    then have s: "?s = take sz output @ drop sz str" by simp
    obtain k where k: "sz = Suc k" using \<open>0 < sz\<close> by (cases sz) auto
    have "?s[sz - 1 := NUL] = (take k output @ [output ! k] @ drop sz str)[k := NUL]"
      using True k by (simp add: s take_Suc_conv_app_nth)
    also have "\<dots> = take (sz - 1) output @ NUL # drop sz str"
      using True k by (simp add: list_update_append)
    finally have "?s[sz - 1 := NUL] = take (sz - 1) output @ NUL # drop sz str" .
    moreover have "NUL \<notin> set (take (sz - 1) output)" using assms(1) by (meson in_set_takeD)
    ultimately show ?thesis by (simp add: c_str_def takeWhile_append)
  next
    case False
    then have s: "?s = output @ NUL # drop (length output + 1) str" by simp
    have "c_str (?s[sz - 1 := NUL]) = output"
    proof -
      have "\<exists>r. ?s[sz - 1 := NUL] = output @ NUL # r"
        using False by (cases "sz - 1 = length output") (auto simp: s list_update_append split: nat.splits)
      then show ?thesis using assms(1) by (auto simp: c_str_def takeWhile_append)
    qed
    with False show ?thesis by simp
  qed
  moreover have "drop sz (?s[sz - 1 := NUL]) = drop sz str"
  proof -
    have "drop sz (?s[sz - 1 := NUL]) = drop sz ?s" using True by (intro drop_update_cancel) simp
    also have "\<dots> = drop (sz - ?n) (drop ?n str)"
    proof -
      have "length (take ?n (output @ [NUL])) = ?n" by simp
      moreover have "drop sz (take ?n (output @ [NUL])) = []" by simp
      ultimately show ?thesis unfolding drop_append by (simp only: append_Nil)
    qed
    also have "\<dots> = drop sz str" unfolding drop_drop by (simp add: min_def)
    finally show ?thesis .
  qed
  moreover have "length (?s[sz - 1 := NUL]) = length str" using l by (simp only: length_list_update)
  ultimately show ?thesis using v by (intro exI [of _ "?s[sz - 1 := NUL]"]) (simp only: simp_thms)
qed (simp add: vsnprintf_def)

text \<open>The test on the result tells exactly when text was lost, and that of an old system's -1.\<close>

lemma snprintf_overflow_exact:
  assumes "length output < 2 ^ 31"
  shows "SNPRINTF_OVERFLOW (word_of_int (int (length output))) sz \<longleftrightarrow> unat sz \<le> length output"
    and "unat sz < 2 ^ 32 \<Longrightarrow> SNPRINTF_OVERFLOW (- 1) sz"
proof -
  have "unat (ucast (word_of_int (int (length output)) :: 32 word) :: 64 word) = length output"
    using assms by (simp add: unsigned_ucast_eq unat_of_nat take_bit_nat_eq_self)
  then show "SNPRINTF_OVERFLOW (word_of_int (int (length output))) sz \<longleftrightarrow> unat sz \<le> length output"
    by (simp add: SNPRINTF_OVERFLOW_def word_le_nat_alt)
  have "unat (ucast (- 1 :: 32 word) :: 64 word) = 2 ^ 32 - 1"
    by (simp add: unsigned_ucast_eq unsigned_minus_1_eq_mask mask_eq_exp_minus_1 take_bit_nat_eq_self)
  then show "unat sz < 2 ^ 32 \<Longrightarrow> SNPRINTF_OVERFLOW (- 1) sz"
    by (simp add: SNPRINTF_OVERFLOW_def word_le_nat_alt)
qed

end
