(* ===== verification/K5_Sockets.thy ===== *)
theory K5_Sockets
  imports Cpp_String K5_Octets
begin

text \<open>
  The socket layer of the Kerberos headers (auth/kinit_client/port-sockets.h): the translation between
  the errors of Winsock and of POSIX, scatter buffers, the wrappers of \<open>connect\<close> and \<open>sendmsg\<close>, and the
  replacement for \<open>inet_ntop\<close>. The system calls are parameters.
\<close>

section \<open>Errors\<close>

text \<open>The codes the switches name; every other number of either side is one of the last constructor.\<close>

datatype posix_error = No_error | EINPROGRESS | EWOULDBLOCK | ECONNRESET | ECONNABORTED | ECONNREFUSED
  | EHOSTUNREACH | ETIMEDOUT | EAFNOSUPPORT | EINVAL | ENOSPC | Other_errno int

datatype wsa_error = WSA_none | WSAEINPROGRESS | WSAEWOULDBLOCK | WSAECONNRESET | WSAECONNABORTED
  | WSAECONNREFUSED | WSAEHOSTUNREACH | WSAETIMEDOUT | WSAEAFNOSUPPORT | WSAEINVAL | Other_wsa int

text \<open>The state is the last error of the thread, \<open>WSASetLastError\<close> and \<open>WSAGetLastError\<close> write and read it.\<close>

definition TranslatedWSASetLastError :: "posix_error \<Rightarrow> (wsa_error, unit) M" where
  "TranslatedWSASetLastError posix_error =
     modM (\<lambda>_. case posix_error of
         No_error \<Rightarrow> WSA_none
       | EINPROGRESS \<Rightarrow> WSAEINPROGRESS
       | EWOULDBLOCK \<Rightarrow> WSAEWOULDBLOCK
       | ECONNRESET \<Rightarrow> WSAECONNRESET
       | ECONNABORTED \<Rightarrow> WSAECONNABORTED
       | ECONNREFUSED \<Rightarrow> WSAECONNREFUSED
       | EHOSTUNREACH \<Rightarrow> WSAEHOSTUNREACH
       | ETIMEDOUT \<Rightarrow> WSAETIMEDOUT
       | EAFNOSUPPORT \<Rightarrow> WSAEAFNOSUPPORT
       | EINVAL \<Rightarrow> WSAEINVAL
       | _ \<Rightarrow> WSAEINVAL)"

definition TranslatedWSAGetLastError :: "(wsa_error, posix_error) M" where
  "TranslatedWSAGetLastError =
     bindM (getM (\<lambda>last_error. last_error)) (\<lambda>err.
       ret (case err of
         WSA_none \<Rightarrow> No_error
       | WSAEINPROGRESS \<Rightarrow> EINPROGRESS
       | WSAEWOULDBLOCK \<Rightarrow> EWOULDBLOCK
       | WSAECONNRESET \<Rightarrow> ECONNRESET
       | WSAECONNABORTED \<Rightarrow> ECONNABORTED
       | WSAECONNREFUSED \<Rightarrow> ECONNREFUSED
       | WSAEHOSTUNREACH \<Rightarrow> EHOSTUNREACH
       | WSAETIMEDOUT \<Rightarrow> ETIMEDOUT
       | WSAEAFNOSUPPORT \<Rightarrow> EAFNOSUPPORT
       | WSAEINVAL \<Rightarrow> EINVAL
       | _ \<Rightarrow> EINVAL))"

section \<open>Scatter buffers\<close>

text \<open>Where the buffer starts in its memory, and how many bytes it has left.\<close>

record sg_buf =
  iov_base :: nat
  iov_len :: nat

definition SG_SET :: "nat \<Rightarrow> nat \<Rightarrow> (sg_buf, unit) M" where
  "SG_SET B L = modM (\<lambda>_. \<lparr>iov_base = B, iov_len = L\<rparr>)"

definition SG_LEN :: "sg_buf \<Rightarrow> nat" where "SG_LEN SG = iov_len SG + 0"

definition SG_BUF :: "sg_buf \<Rightarrow> nat" where "SG_BUF SG = iov_base SG + 0"

definition SG_ADVANCE :: "nat \<Rightarrow> (sg_buf, unit) M" where
  "SG_ADVANCE N =
     bindM (getM iov_len) (\<lambda>len.
       if len < N then raise Abort
       else modM (\<lambda>SG. \<lparr>iov_base = iov_base SG + N, iov_len = iov_len SG - N\<rparr>))"

section \<open>Connecting and sending\<close>

text \<open>\<open>sigpipe\<close>: the build has \<open>SO_NOSIGPIPE\<close>.\<close>

definition socket_connect :: "bool \<Rightarrow> ('s, int) M \<Rightarrow> ('s, int) M \<Rightarrow> ('s, int) M" where
  "socket_connect sigpipe connect setsockopt =
     bindM connect (\<lambda>st.
       if st = -1 then ret st
       else if sigpipe then bindM setsockopt (\<lambda>st. ret (if st \<noteq> 0 then -1 else st))
       else ret st)"

record msghdr =
  msg_name :: "nat option"
  msg_namelen :: nat
  msg_iov :: "sg_buf list"
  msg_iovlen :: nat
  msg_control :: "nat option"
  msg_controllen :: nat
  msg_flags :: int

text \<open>The flag is that of the build, if it has \<open>MSG_NOSIGNAL\<close>. The number sent is an \<open>ssize_t\<close>.\<close>

definition socket_sendmsg ::
    "int option \<Rightarrow> ('fd \<Rightarrow> msghdr \<Rightarrow> int \<Rightarrow> ('s, 64 word) M) \<Rightarrow> 'fd \<Rightarrow> sg_buf list \<Rightarrow> nat \<Rightarrow> ('s, 64 word) M" where
  "socket_sendmsg MSG_NOSIGNAL sendmsg fd iov iovcnt =
     (let flags = (case MSG_NOSIGNAL of None \<Rightarrow> 0 | Some f \<Rightarrow> f);
          msg = \<lparr>msg_name = None, msg_namelen = 0, msg_iov = iov, msg_iovlen = iovcnt, msg_control = None,
                 msg_controllen = 0, msg_flags = 0\<rparr>
      in sendmsg fd msg flags)"

text \<open>The result passes through the \<open>int\<close> the caller declares with \<open>SOCKET_WRITEV_TEMP\<close>.\<close>

definition SOCKET_WRITEV ::
    "int option \<Rightarrow> ('fd \<Rightarrow> msghdr \<Rightarrow> int \<Rightarrow> ('s, 64 word) M) \<Rightarrow> 'fd \<Rightarrow> sg_buf list \<Rightarrow> nat \<Rightarrow> ('s, 32 word) M" where
  "SOCKET_WRITEV MSG_NOSIGNAL sendmsg FD SG LEN =
     bindM (socket_sendmsg MSG_NOSIGNAL sendmsg FD SG LEN) (\<lambda>n. ret (ucast n))"

text \<open>With Winsock: the code of \<open>WSASend\<close> and the number of bytes it has stored.\<close>

definition SOCKET_WRITEV_windows :: "('s, int \<times> 32 word) M \<Rightarrow> ('s, 64 word) M" where
  "SOCKET_WRITEV_windows WSASend =
     bindM WSASend (\<lambda>(code, TMP). ret (if code \<noteq> 0 then -1 else ucast TMP))"

section \<open>Addresses as text\<close>

datatype address_family = AF_INET | Other_family int

text \<open>\<open>sprintf( DST, "%d.%d.%d.%d", .. )\<close> of four octets, which are read from the address.\<close>

definition dotted :: "byte list \<Rightarrow> string" where
  "dotted src = join CHR ''.'' (map (\<lambda>i. to_string (uint ((ucast (src ! i) :: 32 word) AND 0xff))) [0..<4])"

text \<open>The state is \<open>errno\<close>. The value is what is written to \<open>DST\<close> and returned, nothing for \<open>NULL\<close>.\<close>

definition inet_ntop :: "address_family \<Rightarrow> byte list \<Rightarrow> nat \<Rightarrow> (posix_error, string option) M" where
  "inet_ntop AF SRC CNT =
     (if AF = AF_INET then
        if CNT < 16 then thenM (modM (\<lambda>_. ENOSPC)) (ret None)
        else if length SRC < 4 then raise (Undef OutOfBounds)
        else ret (Some (dotted SRC))
      else thenM (modM (\<lambda>_. EAFNOSUPPORT)) (ret None))"

section \<open>Errors there and back\<close>

text \<open>
  An error that is set is read back, and one without a counterpart reads back as \<open>EINVAL\<close>; the error
  of an operation survives being set again. Nothing but success is read as success.
\<close>

lemma set_get_error:
  "bindM (TranslatedWSASetLastError e) (\<lambda>_. TranslatedWSAGetLastError) w =
     (Inr (if e = ENOSPC \<or> (\<exists>n. e = Other_errno n) then EINVAL else e),
      snd (TranslatedWSASetLastError e w))"
  by (cases e) (simp_all add: TranslatedWSASetLastError_def TranslatedWSAGetLastError_def)

lemma get_set_error:
  "bindM TranslatedWSAGetLastError TranslatedWSASetLastError w =
     (Inr (), case w of Other_wsa n \<Rightarrow> WSAEINVAL | _ \<Rightarrow> w)"
  by (cases w) (simp_all add: TranslatedWSASetLastError_def TranslatedWSAGetLastError_def)

lemma get_no_error: "fst (TranslatedWSAGetLastError w) = Inr No_error \<longleftrightarrow> w = WSA_none"
  by (cases w) (simp_all add: TranslatedWSAGetLastError_def)

section \<open>What a buffer still has to send\<close>

definition sg_octets :: "byte list \<Rightarrow> sg_buf \<Rightarrow> byte list" where
  "sg_octets mem SG = take (SG_LEN SG) (drop (SG_BUF SG) mem)"

lemma sg_set_octets: "B + L \<le> length mem \<Longrightarrow>
    \<exists>SG. SG_SET B L SG0 = (Inr (), SG) \<and> sg_octets mem SG = take L (drop B mem) \<and> SG_LEN SG = L"
  by (simp add: SG_SET_def sg_octets_def SG_LEN_def SG_BUF_def)

text \<open>Advancing takes exactly the first bytes off, and more than there are ends the process.\<close>

lemma sg_advance_octets:
  "SG_ADVANCE n SG = (r, SG') \<Longrightarrow>
     (if n \<le> SG_LEN SG then r = Inr () \<and> sg_octets mem SG' = drop n (sg_octets mem SG) \<and> SG_LEN SG' = SG_LEN SG - n
      else r = Inl Abort \<and> SG' = SG)"
  by (auto simp: SG_ADVANCE_def sg_octets_def SG_LEN_def SG_BUF_def drop_take add.commute split: if_splits)

text \<open>Partial writes add up: in however many pieces a buffer is sent, it ends at the same place.\<close>

lemma sg_advance_pieces:
  "sum_list ns \<le> SG_LEN SG \<Longrightarrow> forM SG_ADVANCE ns SG = SG_ADVANCE (sum_list ns) SG"
proof (induction ns arbitrary: SG)
  case (Cons n ns)
  let ?SG = "\<lparr>iov_base = iov_base SG + n, iov_len = iov_len SG - n\<rparr>"
  have "SG_ADVANCE n SG = (Inr (), ?SG)" using Cons.prems by (simp add: SG_ADVANCE_def SG_LEN_def)
  then show ?case using Cons.IH [of ?SG] Cons.prems by (simp add: SG_ADVANCE_def SG_LEN_def)
qed (simp add: SG_ADVANCE_def)

section \<open>Results of the wrappers\<close>

text \<open>\<open>connect\<close> as it is documented: 0 or -1. A socket is connected only with the signal switched off.\<close>

lemma socket_connect_zero:
  assumes "connect s = (Inr c, s1)" and "c \<in> {0, -1}" and "setsockopt s1 = (Inr o1, s2)"
  shows "socket_connect sigpipe connect setsockopt s =
    (Inr (if c = 0 \<and> (sigpipe \<longrightarrow> o1 = 0) then 0 else -1), if c = 0 \<and> sigpipe then s2 else s1)"
  using assms by (auto simp: socket_connect_def)

lemma writev_exact:
  assumes "sendmsg FD \<lparr>msg_name = None, msg_namelen = 0, msg_iov = SG, msg_iovlen = LEN, msg_control = None,
      msg_controllen = 0, msg_flags = 0\<rparr> (case sig of None \<Rightarrow> 0 | Some f \<Rightarrow> f) s = (Inr n, s')"
    and "- (2 ^ 31) \<le> sint n" and "sint n < 2 ^ 31"
  shows "\<exists>m. SOCKET_WRITEV sig sendmsg FD SG LEN s = (Inr m, s') \<and> sint m = sint n"
proof -
  have "sint (ucast n :: 32 word) = signed_take_bit 31 (sint n)"
    by transfer (simp add: signed_take_bit_take_bit signed_take_bit_signed_take_bit)
  also have "\<dots> = sint n" using assms(2,3) by (intro signed_take_bit_int_eq_self) auto
  finally show ?thesis using assms(1) by (simp add: SOCKET_WRITEV_def socket_sendmsg_def)
qed

section \<open>The text of an address\<close>

definition digits_value :: "string \<Rightarrow> nat" where
  "digits_value s = foldl (\<lambda>v c. v * 10 + (of_char c - 48)) 0 s"

lemma digits_value: "digits_value (nat_digits n) = n"
proof (induction n rule: nat_digits.induct)
  case (1 n)
  have "digits_value (nat_digits n) = (if n < 10 then n else digits_value (nat_digits (n div 10)) * 10 + n mod 10)"
    by (subst nat_digits.simps) (simp add: digits_value_def)
  with 1 show ?case by auto
qed

lemma length_nat_digits: "n < 256 \<Longrightarrow> 1 \<le> length (nat_digits n) \<and> length (nat_digits n) \<le> 3"
  by (subst (1 2) nat_digits.simps, subst (1 2) nat_digits.simps, subst (1 2) nat_digits.simps) auto

lemma digits_no_dot: "CHR ''.'' \<notin> set (nat_digits n)"
proof (induction n rule: nat_digits.induct)
  case (1 n)
  have "CHR ''.'' \<noteq> char_of (48 + m)" if "m < 10" for m :: nat
  proof
    assume "CHR ''.'' = char_of (48 + m)"
    then have "(of_char CHR ''.'' :: nat) = of_char (char_of (48 + m) :: char)" by (rule arg_cong)
    with that show False by simp
  qed
  then show ?case using 1 by (subst nat_digits.simps) auto
qed

lemma octet_masked: "uint ((ucast (b :: byte) :: 32 word) AND 0xff) = uint b"
proof -
  have "(0xff :: 32 word) = mask 8" by (simp add: mask_eq_exp_minus_1)
  then have "(ucast b :: 32 word) AND 0xff = take_bit 8 (ucast b)" by (simp add: take_bit_eq_mask)
  also have "uint \<dots> = uint b" by transfer (simp add: take_bit_take_bit)
  finally show ?thesis .
qed

text \<open>
  The text of an address fits the 16 bytes that are asked for, its terminator included, and the
  octets are read back from it; with less room, or for another family, only \<open>errno\<close> changes.
\<close>

lemma inet_ntop_text:
  assumes "length SRC = 4" and "16 \<le> CNT"
  shows "\<exists>s. inet_ntop AF_INET SRC CNT e = (Inr (Some s), e) \<and> length s + 1 \<le> CNT \<and>
    map digits_value (getlines CHR ''.'' s) = map unat SRC"
proof -
  let ?ts = "map (\<lambda>b. nat_digits (unat b)) SRC"
  obtain a b c d where src: "SRC = [a, b, c, d]" using octets_4 [OF assms(1)] by blast
  have "dotted SRC = join CHR ''.'' (map (\<lambda>i. to_string (uint (SRC ! i))) [0..<4])"
    unfolding dotted_def octet_masked ..
  also have "map (\<lambda>i. to_string (uint (SRC ! i))) [0..<4] = ?ts"
  proof -
    have "[0..<4] = [0, 1, 2, 3 :: nat]" by (simp add: upt_rec)
    moreover have "to_string (uint x) = nat_digits (unat x)" for x :: byte
      by (simp add: to_string_def not_less)
    ultimately show ?thesis by (simp add: src)
  qed
  finally have d: "dotted SRC = join CHR ''.'' ?ts" .
  have l: "1 \<le> length (nat_digits (unat x)) \<and> length (nat_digits (unat x)) \<le> 3" for x :: byte
    using unsigned_less [of x] by (intro length_nat_digits) (simp add: nat_less_iff)
  have ne: "nat_digits (unat x) \<noteq> []" for x :: byte using l [of x] by auto
  have "getlines CHR ''.'' (join CHR ''.'' ?ts) = ?ts"
    using ne digits_no_dot by (intro getlines_of_join) (auto simp: src)
  moreover have "length (join CHR ''.'' ?ts) \<le> 15"
    using l [of a] l [of b] l [of c] l [of d] by (simp add: src)
  ultimately show ?thesis using assms d by (auto simp: inet_ntop_def digits_value)
qed

lemma inet_ntop_refused:
  "CNT < 16 \<Longrightarrow> inet_ntop AF_INET SRC CNT e = (Inr None, ENOSPC)"
  "AF \<noteq> AF_INET \<Longrightarrow> inet_ntop AF SRC CNT e = (Inr None, EAFNOSUPPORT)"
  by (simp_all add: inet_ntop_def thenM_def)

lemma loopback_text: "inet_ntop AF_INET [127, 0, 0, 1] 16 No_error = (Inr (Some ''127.0.0.1''), No_error)"
  by code_simp

end
