(* ===== verification/K5_Trace.thy ===== *)
theory K5_Trace
  imports Prelude
begin

text \<open>
  The trace points of the Kerberos headers (auth/kinit_client/k5-trace.h): the macro \<open>TRACE\<close> and, for every
  trace point, its parameters after the context, its format and the arguments it passes on. The formatter \<open>krb5int_trace\<close> is
  declared in the header only; the table of specifiers is the one the header documents. Like
  \<open>printf\<close> it is not type-safe, and the header asks to check the formats carefully: here they are.
\<close>

section \<open>Trace points\<close>

text \<open>
  An argument is a parameter of the macro, one cast to a type, or a text chosen by a parameter or by a
  bit of it.
\<close>

datatype trace_arg = Param string | Int_of string | Long_of string | Size_of string
  | Choice string string string | Choice_bit string string string string

record trace_macro =
  macro_name :: string
  params :: "string list"
  fmt :: string
  passed :: "trace_arg list"

definition trace_point :: "string \<Rightarrow> string list \<Rightarrow> string \<Rightarrow> trace_arg list \<Rightarrow> trace_macro" where
  "trace_point name ps f xs = \<lparr>macro_name = name, params = ps, fmt = f, passed = xs\<rparr>"

text \<open>\<open>TRACE\<close>: nothing in a build without tracing, and, where the file knows the context, when nobody listens.\<close>

definition TRACE :: "bool \<Rightarrow> bool \<Rightarrow> ('s \<Rightarrow> bool) \<Rightarrow> ('s, unit) M \<Rightarrow> ('s, unit) M" where
  "TRACE disabled krb5_int_h trace_callback krb5int_trace =
     (if disabled then ret ()
      else if krb5_int_h then bindM (getM trace_callback) (\<lambda>cb. whenM cb krb5int_trace)
      else krb5int_trace)"

section \<open>The specifiers\<close>

text \<open>What \<open>va_arg\<close> reads: the types are those the header lists, with the integral ones as C passes them.\<close>

datatype c_class = C_int | C_long | C_size | C_string | C_pointer

definition specifiers :: "(string \<times> c_class list) list" where
  "specifiers = [
     (''int'', [C_int]), (''long'', [C_long]), (''str'', [C_string]), (''lenstr'', [C_size, C_string]),
     (''hexlenstr'', [C_size, C_string]), (''hashlenstr'', [C_size, C_string]), (''raddr'', [C_pointer]),
     (''data'', [C_pointer]), (''hexdata'', [C_pointer]), (''errno'', [C_int]), (''kerr'', [C_int]),
     (''keyblock'', [C_pointer]), (''key'', [C_pointer]), (''cksum'', [C_pointer]), (''princ'', [C_pointer]),
     (''ptype'', [C_int]), (''patype'', [C_int]), (''patypes'', [C_pointer]), (''etype'', [C_int]),
     (''etypes'', [C_pointer]), (''ccache'', [C_pointer]), (''keytab'', [C_pointer]), (''creds'', [C_pointer])]"

text \<open>The names between braces, the last one also when its brace is not closed.\<close>

fun directives :: "string \<Rightarrow> string option \<Rightarrow> string list" where
  "directives [] None = []"
| "directives [] (Some name) = [rev name]"
| "directives (c # s) None = (if c = CHR ''{'' then directives s (Some []) else directives s None)"
| "directives (c # s) (Some name) =
     (if c = CHR ''}'' then rev name # directives s None else directives s (Some (c # name)))"

text \<open>What the formatter reads, unless a specifier is not in the list.\<close>

definition reads :: "string \<Rightarrow> c_class list option" where
  "reads f = map_option concat (those (map (map_of specifiers) (directives f None)))"

fun fits :: "trace_arg \<Rightarrow> c_class \<Rightarrow> bool" where
  "fits (Param p) c \<longleftrightarrow> True"
| "fits (Int_of p) c \<longleftrightarrow> c = C_int"
| "fits (Long_of p) c \<longleftrightarrow> c = C_long"
| "fits (Size_of p) c \<longleftrightarrow> c = C_size"
| "fits (Choice p a b) c \<longleftrightarrow> c = C_string"
| "fits (Choice_bit p m a b) c \<longleftrightarrow> c = C_string"

definition format_ok :: "trace_macro \<Rightarrow> bool" where
  "format_ok m \<longleftrightarrow> (case reads (fmt m) of None \<Rightarrow> False | Some cs \<Rightarrow> list_all2 fits (passed m) cs)"

section \<open>The table\<close>

definition dquote :: string where "dquote = [CHR 0x22]"
definition apostrophe :: string where "apostrophe = [CHR 0x27]"

definition trace_cc :: "trace_macro list" where
  "trace_cc = [
     trace_point ''TRACE_CC_CACHE_MATCH'' [''princ'', ''ret'']
       ''Matching {princ} in collection with result: {kerr}''
       [Param ''princ'', Param ''ret''],
     trace_point ''TRACE_CC_DESTROY'' [''cache'']
       ''Destroying ccache {ccache}''
       [Param ''cache''],
     trace_point ''TRACE_CC_GEN_NEW'' [''cache'']
       ''Generating new unique ccache based on {ccache}''
       [Param ''cache''],
     trace_point ''TRACE_CC_GET_CONFIG'' [''cache'', ''princ'', ''key'', ''data'']
       ''Read config in {ccache} for {princ}: {str}: {data}''
       [Param ''cache'', Param ''princ'', Param ''key'', Param ''data''],
     trace_point ''TRACE_CC_INIT'' [''cache'', ''princ'']
       ''Initializing {ccache} with default princ {princ}''
       [Param ''cache'', Param ''princ''],
     trace_point ''TRACE_CC_MOVE'' [''src'', ''dst'']
       ''Moving ccache {ccache} to {ccache}''
       [Param ''src'', Param ''dst''],
     trace_point ''TRACE_CC_NEW_UNIQUE'' [''type'']
       ''Resolving unique ccache of type {str}''
       [Param ''type''],
     trace_point ''TRACE_CC_REMOVE'' [''cache'', ''creds'']
       ''Removing {creds} from {ccache}''
       [Param ''creds'', Param ''cache''],
     trace_point ''TRACE_CC_RETRIEVE'' [''cache'', ''creds'', ''ret'']
       ''Retrieving {creds} from {ccache} with result: {kerr}''
       [Param ''creds'', Param ''cache'', Param ''ret''],
     trace_point ''TRACE_CC_RETRIEVE_REF'' [''cache'', ''creds'', ''ret'']
       ''Retrying {creds} with result: {kerr}''
       [Param ''creds'', Param ''ret''],
     trace_point ''TRACE_CC_SET_CONFIG'' [''cache'', ''princ'', ''key'', ''data'']
       ''Storing config in {ccache} for {princ}: {str}: {data}''
       [Param ''cache'', Param ''princ'', Param ''key'', Param ''data''],
     trace_point ''TRACE_CC_STORE'' [''cache'', ''creds'']
       ''Storing {creds} in {ccache}''
       [Param ''creds'', Param ''cache''],
     trace_point ''TRACE_CC_STORE_TKT'' [''cache'', ''creds'']
       ''Also storing {creds} based on ticket''
       [Param ''creds'']]"

definition trace_ccselect :: "trace_macro list" where
  "trace_ccselect = [
     trace_point ''TRACE_CCSELECT_VTINIT_FAIL'' [''ret'']
       ''ccselect module failed to init vtable: {kerr}''
       [Param ''ret''],
     trace_point ''TRACE_CCSELECT_INIT_FAIL'' [''name'', ''ret'']
       ''ccselect module {str} failed to init: {kerr}''
       [Param ''name'', Param ''ret''],
     trace_point ''TRACE_CCSELECT_MODCHOICE'' [''name'', ''server'', ''cache'', ''princ'']
       ''ccselect module {str} chose cache {ccache} with client principal {princ} for server principal {princ}''
       [Param ''name'', Param ''cache'', Param ''princ'', Param ''server''],
     trace_point ''TRACE_CCSELECT_MODNOTFOUND'' [''name'', ''server'', ''princ'']
       ''ccselect module {str} chose client principal {princ} for server principal {princ} but found no cache''
       [Param ''name'', Param ''princ'', Param ''server''],
     trace_point ''TRACE_CCSELECT_MODFAIL'' [''name'', ''ret'', ''server'']
       ''ccselect module {str} yielded error {kerr} for server principal {princ}''
       [Param ''name'', Param ''ret'', Param ''server''],
     trace_point ''TRACE_CCSELECT_NOTFOUND'' [''server'']
       (''ccselect can'' @ apostrophe @ ''t find appropriate cache for server principal {princ}'')
       [Param ''server''],
     trace_point ''TRACE_CCSELECT_DEFAULT'' [''cache'', ''server'']
       ''ccselect choosing default cache {ccache} for server principal {princ}''
       [Param ''cache'', Param ''server'']]"

definition trace_dns :: "trace_macro list" where
  "trace_dns = [
     trace_point ''TRACE_DNS_SRV_ANS'' [''host'', ''port'', ''prio'', ''weight'']
       (''SRV answer: {int} {int} {int} '' @ dquote @ ''{str}'' @ dquote)
       [Param ''prio'', Param ''weight'', Param ''port'', Param ''host''],
     trace_point ''TRACE_DNS_SRV_NOTFOUND'' []
       ''No SRV records found''
       [],
     trace_point ''TRACE_DNS_SRV_SEND'' [''domain'']
       ''Sending DNS SRV query for {str}''
       [Param ''domain''],
     trace_point ''TRACE_DNS_URI_ANS'' [''uri'', ''prio'', ''weight'']
       (''URI answer: {int} {int} '' @ dquote @ ''{str}'' @ dquote)
       [Param ''prio'', Param ''weight'', Param ''uri''],
     trace_point ''TRACE_DNS_URI_NOTFOUND'' []
       ''No URI records found''
       [],
     trace_point ''TRACE_DNS_URI_SEND'' [''domain'']
       ''Sending DNS URI query for {str}''
       [Param ''domain'']]"

definition trace_fast :: "trace_macro list" where
  "trace_fast = [
     trace_point ''TRACE_FAST_ARMOR_CCACHE'' [''ccache_name'']
       ''FAST armor ccache: {str}''
       [Param ''ccache_name''],
     trace_point ''TRACE_FAST_ARMOR_CCACHE_KEY'' [''keyblock'']
       ''Armor ccache session key: {keyblock}''
       [Param ''keyblock''],
     trace_point ''TRACE_FAST_ARMOR_KEY'' [''keyblock'']
       ''FAST armor key: {keyblock}''
       [Param ''keyblock''],
     trace_point ''TRACE_FAST_CCACHE_CONFIG'' []
       ''Using FAST due to armor ccache negotiation result''
       [],
     trace_point ''TRACE_FAST_DECODE'' []
       ''Decoding FAST response''
       [],
     trace_point ''TRACE_FAST_ENCODE'' []
       ''Encoding request body and padata into FAST request''
       [],
     trace_point ''TRACE_FAST_NEGO'' [''avail'']
       ''FAST negotiation: {str}available''
       [Choice ''avail'' [] ''un''],
     trace_point ''TRACE_FAST_PADATA_UPGRADE'' []
       ''Upgrading to FAST due to presence of PA_FX_FAST in reply''
       [],
     trace_point ''TRACE_FAST_REPLY_KEY'' [''keyblock'']
       ''FAST reply key: {keyblock}''
       [Param ''keyblock''],
     trace_point ''TRACE_FAST_REQUIRED'' []
       ''Using FAST due to KRB5_FAST_REQUIRED flag''
       []]"

definition trace_gic :: "trace_macro list" where
  "trace_gic = [
     trace_point ''TRACE_GET_CREDS_FALLBACK'' [''hostname'']
       ''Falling back to canonicalized server hostname {str}''
       [Param ''hostname''],
     trace_point ''TRACE_GIC_PWD_CHANGED'' []
       ''Getting initial TGT with changed password''
       [],
     trace_point ''TRACE_GIC_PWD_CHANGEPW'' [''tries'']
       ''Attempting password change; {int} tries remaining''
       [Param ''tries''],
     trace_point ''TRACE_GIC_PWD_EXPIRED'' []
       ''Principal expired; getting changepw ticket''
       [],
     trace_point ''TRACE_GIC_PWD_PRIMARY'' []
       ''Retrying AS request with primary KDC''
       [],
     trace_point ''TRACE_GSS_CLIENT_KEYTAB_FAIL'' [''ret'']
       ''Unable to resolve default client keytab: {kerr}''
       [Param ''ret''],
     trace_point ''TRACE_ENCTYPE_LIST_UNKNOWN'' [''profvar'', ''name'']
       ''Unrecognized enctype name in {str}: {str}''
       [Param ''profvar'', Param ''name''],
     trace_point ''TRACE_HOSTREALM_VTINIT_FAIL'' [''ret'']
       ''hostrealm module failed to init vtable: {kerr}''
       [Param ''ret''],
     trace_point ''TRACE_HOSTREALM_INIT_FAIL'' [''name'', ''ret'']
       ''hostrealm module {str} failed to init: {kerr}''
       [Param ''name'', Param ''ret'']]"

definition trace_init_creds :: "trace_macro list" where
  "trace_init_creds = [
     trace_point ''TRACE_INIT_CREDS'' [''princ'']
       ''Getting initial credentials for {princ}''
       [Param ''princ''],
     trace_point ''TRACE_INIT_CREDS_AS_KEY_GAK'' [''keyblock'']
       ''AS key obtained from gak_fct: {keyblock}''
       [Param ''keyblock''],
     trace_point ''TRACE_INIT_CREDS_AS_KEY_PREAUTH'' [''keyblock'']
       ''AS key determined by preauth: {keyblock}''
       [Param ''keyblock''],
     trace_point ''TRACE_INIT_CREDS_DECRYPTED_REPLY'' [''keyblock'']
       ''Decrypted AS reply; session key is: {keyblock}''
       [Param ''keyblock''],
     trace_point ''TRACE_INIT_CREDS_ERROR_REPLY'' [''code'']
       ''Received error from KDC: {kerr}''
       [Param ''code''],
     trace_point ''TRACE_INIT_CREDS_GAK'' [''salt'', ''s2kparams'']
       (''Getting AS key, salt '' @ dquote @ ''{data}'' @ dquote @ '', params '' @ dquote @ ''{data}'' @ dquote)
       [Param ''salt'', Param ''s2kparams''],
     trace_point ''TRACE_INIT_CREDS_IDENTIFIED_REALM'' [''realm'']
       ''Identified realm of client principal as {data}''
       [Param ''realm''],
     trace_point ''TRACE_INIT_CREDS_KEYTAB_LOOKUP'' [''princ'', ''etypes'']
       ''Found entries for {princ} in keytab: {etypes}''
       [Param ''princ'', Param ''etypes''],
     trace_point ''TRACE_INIT_CREDS_KEYTAB_LOOKUP_FAILED'' [''code'']
       (''Couldn'' @ apostrophe @ ''t lookup etypes in keytab: {kerr}'')
       [Param ''code''],
     trace_point ''TRACE_INIT_CREDS_PREAUTH'' []
       ''Preauthenticating using KDC method data''
       [],
     trace_point ''TRACE_INIT_CREDS_PREAUTH_DECRYPT_FAIL'' [''code'']
       ''Decrypt with preauth AS key failed: {kerr}''
       [Param ''code''],
     trace_point ''TRACE_INIT_CREDS_PREAUTH_MORE'' [''patype'']
       ''Continuing preauth mech {patype}''
       [Param ''patype''],
     trace_point ''TRACE_INIT_CREDS_PREAUTH_NONE'' []
       ''Sending unauthenticated request''
       [],
     trace_point ''TRACE_INIT_CREDS_PREAUTH_OPTIMISTIC'' []
       ''Attempting optimistic preauth''
       [],
     trace_point ''TRACE_INIT_CREDS_PREAUTH_TRYAGAIN'' [''patype'', ''code'']
       ''Recovering from KDC error {int} using preauth mech {patype}''
       [Param ''patype'', Int_of ''code''],
     trace_point ''TRACE_INIT_CREDS_RESTART_FAST'' []
       ''Restarting to upgrade to FAST''
       [],
     trace_point ''TRACE_INIT_CREDS_RESTART_PREAUTH_FAILED'' []
       ''Restarting due to PREAUTH_FAILED from FAST negotiation''
       [],
     trace_point ''TRACE_INIT_CREDS_REFERRAL'' [''realm'']
       ''Following referral to realm {data}''
       [Param ''realm''],
     trace_point ''TRACE_INIT_CREDS_RETRY_TCP'' []
       ''Request or response is too big for UDP; retrying with TCP''
       [],
     trace_point ''TRACE_INIT_CREDS_SALT_PRINC'' [''salt'']
       ''Salt derived from principal: {data}''
       [Param ''salt''],
     trace_point ''TRACE_INIT_CREDS_SERVICE'' [''service'']
       ''Setting initial creds service to {str}''
       [Param ''service'']]"

definition trace_modules :: "trace_macro list" where
  "trace_modules = [
     trace_point ''TRACE_KADM5_AUTH_VTINIT_FAIL'' [''ret'']
       ''kadm5_auth module failed to init vtable: {kerr}''
       [Param ''ret''],
     trace_point ''TRACE_KADM5_AUTH_INIT_FAIL'' [''name'', ''ret'']
       ''kadm5_auth module {str} failed to init: {kerr}''
       [Param ''ret''],
     trace_point ''TRACE_KADM5_AUTH_INIT_SKIP'' [''name'']
       ''kadm5_auth module {str} declined to initialize''
       [Param ''name''],
     trace_point ''TRACE_KT_GET_ENTRY'' [''keytab'', ''princ'', ''vno'', ''enctype'', ''err'']
       ''Retrieving {princ} from {keytab} (vno {int}, enctype {etype}) with result: {kerr}''
       [Param ''princ'', Param ''keytab'', Int_of ''vno'', Param ''enctype'', Param ''err''],
     trace_point ''TRACE_LOCALAUTH_INIT_CONFLICT'' [''type'', ''oldname'', ''newname'']
       ''Ignoring localauth module {str} because it conflicts with an2ln type {str} from module {str}''
       [Param ''newname'', Param ''type'', Param ''oldname''],
     trace_point ''TRACE_LOCALAUTH_VTINIT_FAIL'' [''ret'']
       ''localauth module failed to init vtable: {kerr}''
       [Param ''ret''],
     trace_point ''TRACE_LOCALAUTH_INIT_FAIL'' [''name'', ''ret'']
       ''localauth module {str} failed to init: {kerr}''
       [Param ''name'', Param ''ret'']]"

definition trace_ap :: "trace_macro list" where
  "trace_ap = [
     trace_point ''TRACE_MK_REP'' [''ctime'', ''cusec'', ''subkey'', ''seqnum'']
       ''Creating AP-REP, time {long}.{int}, subkey {keyblock}, seqnum {int}''
       [Long_of ''ctime'', Int_of ''cusec'', Param ''subkey'', Int_of ''seqnum''],
     trace_point ''TRACE_MK_REQ'' [''creds'', ''seqnum'', ''subkey'', ''sesskeyblock'']
       ''Creating authenticator for {creds}, seqnum {int}, subkey {key}, session key {keyblock}''
       [Param ''creds'', Int_of ''seqnum'', Param ''subkey'', Param ''sesskeyblock''],
     trace_point ''TRACE_MK_REQ_ETYPES'' [''etypes'']
       ''Negotiating for enctypes in authenticator: {etypes}''
       [Param ''etypes''],
     trace_point ''TRACE_MSPAC_VERIFY_FAIL'' [''err'']
       ''PAC checksum verification failed: {kerr}''
       [Param ''err''],
     trace_point ''TRACE_MSPAC_DISCARD_UNVERF'' []
       ''Filtering out unverified MS PAC''
       [],
     trace_point ''TRACE_NEGOEX_INCOMING'' [''seqnum'', ''typestr'', ''info'']
       ''NegoEx received [{int}]{str}: {str}''
       [Int_of ''seqnum'', Param ''typestr'', Param ''info''],
     trace_point ''TRACE_NEGOEX_OUTGOING'' [''seqnum'', ''typestr'', ''info'']
       ''NegoEx sending [{int}]{str}: {str}''
       [Int_of ''seqnum'', Param ''typestr'', Param ''info''],
     trace_point ''TRACE_PLUGIN_LOAD_FAIL'' [''modname'', ''err'']
       ''Error loading plugin module {str}: {kerr}''
       [Param ''modname'', Param ''err''],
     trace_point ''TRACE_PLUGIN_LOOKUP_FAIL'' [''modname'', ''err'']
       ''Error initializing module {str}: {kerr}''
       [Param ''modname'', Param ''err'']]"

definition trace_preauth :: "trace_macro list" where
  "trace_preauth = [
     trace_point ''TRACE_PREAUTH_CONFLICT'' [''name1'', ''name2'', ''patype'']
       ''Preauth module {str} conflicts with module {str} for pa type {patype}''
       [Param ''name1'', Param ''name2'', Param ''patype''],
     trace_point ''TRACE_PREAUTH_COOKIE'' [''len'', ''data'']
       ''Received cookie: {lenstr}''
       [Size_of ''len'', Param ''data''],
     trace_point ''TRACE_PREAUTH_ENC_TS_KEY_GAK'' [''keyblock'']
       ''AS key obtained for encrypted timestamp: {keyblock}''
       [Param ''keyblock''],
     trace_point ''TRACE_PREAUTH_ENC_TS'' [''sec'', ''usec'', ''plain'', ''enc'']
       ''Encrypted timestamp (for {long}.{int}): plain {hexdata}, encrypted {hexdata}''
       [Long_of ''sec'', Int_of ''usec'', Param ''plain'', Param ''enc''],
     trace_point ''TRACE_PREAUTH_ENC_TS_DISABLED'' []
       ''Ignoring encrypted timestamp because it is disabled''
       [],
     trace_point ''TRACE_PREAUTH_ETYPE_INFO'' [''etype'', ''salt'', ''s2kparams'']
       (''Selected etype info: etype {etype}, salt '' @ dquote @ ''{data}'' @ dquote @ '', params '' @ dquote @ ''{data}'' @ dquote)
       [Param ''etype'', Param ''salt'', Param ''s2kparams''],
     trace_point ''TRACE_PREAUTH_INFO_FAIL'' [''patype'', ''code'']
       ''Preauth builtin info function failure, type={patype}: {kerr}''
       [Param ''patype'', Param ''code''],
     trace_point ''TRACE_PREAUTH_INPUT'' [''padata'']
       ''Processing preauth types: {patypes}''
       [Param ''padata''],
     trace_point ''TRACE_PREAUTH_OUTPUT'' [''padata'']
       ''Produced preauth for next request: {patypes}''
       [Param ''padata''],
     trace_point ''TRACE_PREAUTH_PROCESS'' [''name'', ''patype'', ''real'', ''code'']
       ''Preauth module {str} ({int}) ({str}) returned: {kerr}''
       [Param ''name'', Int_of ''patype'', Choice ''real'' ''real'' ''info'', Param ''code''],
     trace_point ''TRACE_PREAUTH_SAM_KEY_GAK'' [''keyblock'']
       ''AS key obtained for SAM: {keyblock}''
       [Param ''keyblock''],
     trace_point ''TRACE_PREAUTH_SALT'' [''salt'', ''patype'']
       (''Received salt '' @ dquote @ ''{data}'' @ dquote @ '' via padata type {patype}'')
       [Param ''salt'', Param ''patype''],
     trace_point ''TRACE_PREAUTH_SKIP'' [''name'', ''patype'']
       ''Skipping previously used preauth module {str} ({int})''
       [Param ''name'', Int_of ''patype''],
     trace_point ''TRACE_PREAUTH_TRYAGAIN_INPUT'' [''patype'', ''padata'']
       ''Preauth tryagain input types ({int}): {patypes}''
       [Param ''patype'', Param ''padata''],
     trace_point ''TRACE_PREAUTH_TRYAGAIN'' [''name'', ''patype'', ''code'']
       ''Preauth module {str} ({int}) tryagain returned: {kerr}''
       [Param ''name'', Int_of ''patype'', Param ''code''],
     trace_point ''TRACE_PREAUTH_TRYAGAIN_OUTPUT'' [''padata'']
       ''Followup preauth for next request: {patypes}''
       [Param ''padata''],
     trace_point ''TRACE_PREAUTH_WRONG_CONTEXT'' []
       ''Wrong context passed to krb5_init_creds_free(); leaking modreq objects''
       [],
     trace_point ''TRACE_PROFILE_ERR'' [''subsection'', ''section'', ''retval'']
       ''Bad value of {str} from [{str}] in conf file: {kerr}''
       [Param ''subsection'', Param ''section'', Param ''retval'']]"

definition trace_rd :: "trace_macro list" where
  "trace_rd = [
     trace_point ''TRACE_RD_REP'' [''ctime'', ''cusec'', ''subkey'', ''seqnum'']
       ''Read AP-REP, time {long}.{int}, subkey {keyblock}, seqnum {int}''
       [Long_of ''ctime'', Int_of ''cusec'', Param ''subkey'', Int_of ''seqnum''],
     trace_point ''TRACE_RD_REP_DCE'' [''ctime'', ''cusec'', ''seqnum'']
       ''Read DCE-style AP-REP, time {long}.{int}, seqnum {int}''
       [Long_of ''ctime'', Int_of ''cusec'', Int_of ''seqnum''],
     trace_point ''TRACE_RD_REQ_DECRYPT_ANY'' [''princ'', ''keyblock'']
       ''Decrypted AP-REQ with server principal {princ}: {keyblock}''
       [Param ''princ'', Param ''keyblock''],
     trace_point ''TRACE_RD_REQ_DECRYPT_SPECIFIC'' [''princ'', ''keyblock'']
       ''Decrypted AP-REQ with specified server principal {princ}: {keyblock}''
       [Param ''princ'', Param ''keyblock''],
     trace_point ''TRACE_RD_REQ_DECRYPT_FAIL'' [''err'']
       ''Failed to decrypt AP-REQ ticket: {kerr}''
       [Param ''err''],
     trace_point ''TRACE_RD_REQ_NEGOTIATED_ETYPE'' [''etype'']
       ''Negotiated enctype based on authenticator: {etype}''
       [Param ''etype''],
     trace_point ''TRACE_RD_REQ_SUBKEY'' [''keyblock'']
       ''Authenticator contains subkey: {keyblock}''
       [Param ''keyblock''],
     trace_point ''TRACE_RD_REQ_TICKET'' [''client'', ''server'', ''keyblock'']
       ''AP-REQ ticket: {princ} -> {princ}, session key {keyblock}''
       [Param ''client'', Param ''server'', Param ''keyblock'']]"

definition trace_sendto_kdc :: "trace_macro list" where
  "trace_sendto_kdc = [
     trace_point ''TRACE_SENDTO_KDC_ERROR_SET_MESSAGE'' [''raddr'', ''err'']
       ''Error preparing message to send to {raddr}: {errno}''
       [Param ''raddr'', Param ''err''],
     trace_point ''TRACE_SENDTO_KDC'' [''len'', ''rlm'', ''primary'', ''tcp'']
       ''Sending request ({int} bytes) to {data}{str}{str}''
       [Param ''len'', Param ''rlm'', Choice ''primary'' '' (primary)'' [], Choice ''tcp'' '' (tcp only)'' []],
     trace_point ''TRACE_SENDTO_KDC_K5TLS_LOAD_ERROR'' [''ret'']
       ''Error loading k5tls module: {kerr}''
       [Param ''ret''],
     trace_point ''TRACE_SENDTO_KDC_PRIMARY'' [''primary'']
       ''Response was{str} from primary KDC''
       [Choice ''primary'' [] '' not''],
     trace_point ''TRACE_SENDTO_KDC_RESOLVING'' [''hostname'']
       ''Resolving hostname {str}''
       [Param ''hostname''],
     trace_point ''TRACE_SENDTO_KDC_RESPONSE'' [''len'', ''raddr'']
       ''Received answer ({int} bytes) from {raddr}''
       [Param ''len'', Param ''raddr''],
     trace_point ''TRACE_SENDTO_KDC_HTTPS_ERROR_CONNECT'' [''raddr'']
       ''HTTPS error connecting to {raddr}''
       [Param ''raddr''],
     trace_point ''TRACE_SENDTO_KDC_HTTPS_ERROR_RECV'' [''raddr'']
       ''HTTPS error receiving from {raddr}''
       [Param ''raddr''],
     trace_point ''TRACE_SENDTO_KDC_HTTPS_ERROR_SEND'' [''raddr'']
       ''HTTPS error sending to {raddr}''
       [Param ''raddr''],
     trace_point ''TRACE_SENDTO_KDC_HTTPS_SEND'' [''raddr'']
       ''Sending HTTPS request to {raddr}''
       [Param ''raddr''],
     trace_point ''TRACE_SENDTO_KDC_HTTPS_ERROR'' [''errs'']
       ''HTTPS error: {str}''
       [Param ''errs''],
     trace_point ''TRACE_SENDTO_KDC_TCP_CONNECT'' [''raddr'']
       ''Initiating TCP connection to {raddr}''
       [Param ''raddr''],
     trace_point ''TRACE_SENDTO_KDC_TCP_DISCONNECT'' [''raddr'']
       ''Terminating TCP connection to {raddr}''
       [Param ''raddr''],
     trace_point ''TRACE_SENDTO_KDC_TCP_ERROR_CONNECT'' [''raddr'', ''err'']
       ''TCP error connecting to {raddr}: {errno}''
       [Param ''raddr'', Param ''err''],
     trace_point ''TRACE_SENDTO_KDC_TCP_ERROR_RECV'' [''raddr'', ''err'']
       ''TCP error receiving from {raddr}: {errno}''
       [Param ''raddr'', Param ''err''],
     trace_point ''TRACE_SENDTO_KDC_TCP_ERROR_RECV_LEN'' [''raddr'', ''err'']
       ''TCP error receiving from {raddr}: {errno}''
       [Param ''raddr'', Param ''err''],
     trace_point ''TRACE_SENDTO_KDC_TCP_ERROR_SEND'' [''raddr'', ''err'']
       ''TCP error sending to {raddr}: {errno}''
       [Param ''raddr'', Param ''err''],
     trace_point ''TRACE_SENDTO_KDC_TCP_SEND'' [''raddr'']
       ''Sending TCP request to {raddr}''
       [Param ''raddr''],
     trace_point ''TRACE_SENDTO_KDC_UDP_ERROR_RECV'' [''raddr'', ''err'']
       ''UDP error receiving from {raddr}: {errno}''
       [Param ''raddr'', Param ''err''],
     trace_point ''TRACE_SENDTO_KDC_UDP_ERROR_SEND_INITIAL'' [''raddr'', ''err'']
       ''UDP error sending to {raddr}: {errno}''
       [Param ''raddr'', Param ''err''],
     trace_point ''TRACE_SENDTO_KDC_UDP_ERROR_SEND_RETRY'' [''raddr'', ''err'']
       ''UDP error sending to {raddr}: {errno}''
       [Param ''raddr'', Param ''err''],
     trace_point ''TRACE_SENDTO_KDC_UDP_SEND_INITIAL'' [''raddr'']
       ''Sending initial UDP request to {raddr}''
       [Param ''raddr''],
     trace_point ''TRACE_SENDTO_KDC_UDP_SEND_RETRY'' [''raddr'']
       ''Sending retry UDP request to {raddr}''
       [Param ''raddr'']]"

definition trace_tgs :: "trace_macro list" where
  "trace_tgs = [
     trace_point ''TRACE_SEND_TGS_ETYPES'' [''etypes'']
       ''etypes requested in TGS request: {etypes}''
       [Param ''etypes''],
     trace_point ''TRACE_SEND_TGS_SUBKEY'' [''keyblock'']
       ''Generated subkey for TGS request: {keyblock}''
       [Param ''keyblock''],
     trace_point ''TRACE_TGS_REPLY'' [''client'', ''server'', ''keyblock'']
       ''TGS reply is for {princ} -> {princ} with session key {keyblock}''
       [Param ''client'', Param ''server'', Param ''keyblock''],
     trace_point ''TRACE_TGS_REPLY_DECODE_SESSION'' [''keyblock'']
       (''TGS reply didn'' @ apostrophe @ ''t decode with subkey; trying session key ({keyblock)}'')
       [Param ''keyblock''],
     trace_point ''TRACE_TLS_ERROR'' [''errs'']
       ''TLS error: {str}''
       [Param ''errs''],
     trace_point ''TRACE_TLS_NO_REMOTE_CERTIFICATE'' []
       ''TLS server certificate not received''
       [],
     trace_point ''TRACE_TLS_CERT_ERROR'' [''depth'', ''namelen'', ''name'', ''err'', ''errs'']
       ''TLS certificate error at {int} ({lenstr}): {int} ({str})''
       [Param ''depth'', Param ''namelen'', Param ''name'', Param ''err'', Param ''errs''],
     trace_point ''TRACE_TLS_SERVER_NAME_MISMATCH'' [''hostname'']
       (''TLS certificate name mismatch: server certificate is not for '' @ dquote @ ''{str}'' @ dquote)
       [Param ''hostname''],
     trace_point ''TRACE_TLS_SERVER_NAME_MATCH'' [''hostname'']
       (''TLS certificate name matched '' @ dquote @ ''{str}'' @ dquote)
       [Param ''hostname'']]"

definition trace_tkt_creds :: "trace_macro list" where
  "trace_tkt_creds = [
     trace_point ''TRACE_TKT_CREDS'' [''creds'', ''cache'']
       ''Getting credentials {creds} using ccache {ccache}''
       [Param ''creds'', Param ''cache''],
     trace_point ''TRACE_TKT_CREDS_ADVANCE'' [''realm'']
       ''Received TGT for {data}; advancing current realm''
       [Param ''realm''],
     trace_point ''TRACE_TKT_CREDS_CACHED_INTERMEDIATE_TGT'' [''tgt'']
       ''Found cached TGT for intermediate realm: {creds}''
       [Param ''tgt''],
     trace_point ''TRACE_TKT_CREDS_CACHED_SERVICE_TGT'' [''tgt'']
       ''Found cached TGT for service realm: {creds}''
       [Param ''tgt''],
     trace_point ''TRACE_TKT_CREDS_CLOSER_REALM'' [''realm'']
       ''Trying next closer realm in path: {data}''
       [Param ''realm''],
     trace_point ''TRACE_TKT_CREDS_COMPLETE'' [''princ'']
       ''Received creds for desired service {princ}''
       [Param ''princ''],
     trace_point ''TRACE_TKT_CREDS_FALLBACK'' [''realm'']
       ''Local realm referral failed; trying fallback realm {data}''
       [Param ''realm''],
     trace_point ''TRACE_TKT_CREDS_LOCAL_TGT'' [''tgt'']
       ''Starting with TGT for client realm: {creds}''
       [Param ''tgt''],
     trace_point ''TRACE_TKT_CREDS_NON_TGT'' [''princ'']
       ''Received non-TGT referral response ({princ}); trying again without referrals''
       [Param ''princ''],
     trace_point ''TRACE_TKT_CREDS_OFFPATH'' [''realm'']
       ''Received TGT for offpath realm {data}''
       [Param ''realm''],
     trace_point ''TRACE_TKT_CREDS_REFERRAL'' [''princ'']
       ''Following referral TGT {princ}''
       [Param ''princ''],
     trace_point ''TRACE_TKT_CREDS_REFERRAL_REALM'' [''princ'']
       ''Server has referral realm; starting with {princ}''
       [Param ''princ''],
     trace_point ''TRACE_TKT_CREDS_RESPONSE_CODE'' [''code'']
       ''TGS request result: {kerr}''
       [Param ''code''],
     trace_point ''TRACE_TKT_CREDS_RETRY_TCP'' []
       ''Request or response is too big for UDP; retrying with TCP''
       [],
     trace_point ''TRACE_TKT_CREDS_SAME_REALM_TGT'' [''realm'']
       ''Received TGT referral back to same realm ({data}); trying again without referrals''
       [Param ''realm''],
     trace_point ''TRACE_TKT_CREDS_SERVICE_REQ'' [''princ'', ''referral'']
       ''Requesting tickets for {princ}, referrals {str}''
       [Param ''princ'', Choice ''referral'' ''on'' ''off''],
     trace_point ''TRACE_TKT_CREDS_TARGET_TGT'' [''princ'']
       ''Received TGT for service realm: {princ}''
       [Param ''princ''],
     trace_point ''TRACE_TKT_CREDS_TARGET_TGT_OFFPATH'' [''princ'']
       ''Received TGT for service realm: {princ}''
       [Param ''princ''],
     trace_point ''TRACE_TKT_CREDS_TGT_REQ'' [''next'', ''cur'']
       ''Requesting TGT {princ} using TGT {princ}''
       [Param ''next'', Param ''cur''],
     trace_point ''TRACE_TKT_CREDS_WRONG_ENCTYPE'' []
       ''Retrying TGS request with desired service ticket enctypes''
       []]"

definition trace_others :: "trace_macro list" where
  "trace_others = [
     trace_point ''TRACE_TXT_LOOKUP_NOTFOUND'' [''host'']
       ''TXT record {str} not found''
       [Param ''host''],
     trace_point ''TRACE_TXT_LOOKUP_SUCCESS'' [''host'', ''realm'']
       ''TXT record {str} found: {str}''
       [Param ''host'', Param ''realm''],
     trace_point ''TRACE_CHECK_REPLY_SERVER_DIFFERS'' [''request'', ''reply'']
       ''Reply server {princ} differs from requested {princ}''
       [Param ''reply'', Param ''request''],
     trace_point ''TRACE_GET_CRED_VIA_TKT_EXT'' [''request'', ''reply'', ''kdcoptions'']
       ''Get cred via TGT {princ} after requesting {princ} (canonicalize {str})''
       [Param ''reply'', Param ''request'', Choice_bit ''kdcoptions'' ''KDC_OPT_CANONICALIZE'' ''on'' ''off''],
     trace_point ''TRACE_GET_CRED_VIA_TKT_EXT_RETURN'' [''ret'']
       ''Got cred; {kerr}''
       [Param ''ret''],
     trace_point ''TRACE_KDCPOLICY_VTINIT_FAIL'' [''ret'']
       ''KDC policy module failed to init vtable: {kerr}''
       [Param ''ret''],
     trace_point ''TRACE_KDCPOLICY_INIT_SKIP'' [''name'']
       ''kadm5_auth module {str} declined to initialize''
       [Param ''name'']]"

definition trace_macros :: "trace_macro list" where
  "trace_macros = trace_cc @ trace_ccselect @ trace_dns @ trace_fast @ trace_gic @ trace_init_creds @ trace_modules @ trace_ap @ trace_preauth @ trace_rd @ trace_sendto_kdc @ trace_tgs @ trace_tkt_creds @ trace_others"

section \<open>The formats checked\<close>

lemma trace_cc_formats: "list_all format_ok trace_cc"
  by code_simp

lemma trace_ccselect_formats: "list_all format_ok trace_ccselect"
  by code_simp

lemma trace_dns_formats: "list_all format_ok trace_dns"
  by code_simp

lemma trace_fast_formats: "list_all format_ok trace_fast"
  by code_simp

lemma trace_gic_formats: "list_all format_ok trace_gic"
  by code_simp

lemma trace_init_creds_formats: "list_all format_ok trace_init_creds"
  by code_simp

lemma trace_modules_formats: "list_all (\<lambda>m. format_ok m \<longleftrightarrow> macro_name m \<noteq> ''TRACE_KADM5_AUTH_INIT_FAIL'') trace_modules"
  by code_simp

lemma trace_ap_formats: "list_all format_ok trace_ap"
  by code_simp

lemma trace_preauth_formats: "list_all format_ok trace_preauth"
  by code_simp

lemma trace_rd_formats: "list_all format_ok trace_rd"
  by code_simp

lemma trace_sendto_kdc_formats: "list_all format_ok trace_sendto_kdc"
  by code_simp

lemma trace_tgs_formats: "list_all (\<lambda>m. format_ok m \<longleftrightarrow> macro_name m \<noteq> ''TRACE_TGS_REPLY_DECODE_SESSION'') trace_tgs"
  by code_simp

lemma trace_tkt_creds_formats: "list_all format_ok trace_tkt_creds"
  by code_simp

lemma trace_others_formats: "list_all format_ok trace_others"
  by code_simp

text \<open>
  Of all the trace points, two have a format that does not fit what they pass: every other one
  passes exactly what its specifiers read, in number and, as far as the macro tells, in type.
\<close>

lemmas table_formats = trace_cc_formats trace_ccselect_formats trace_dns_formats trace_fast_formats trace_gic_formats
  trace_init_creds_formats trace_ap_formats trace_preauth_formats trace_rd_formats trace_sendto_kdc_formats
  trace_tkt_creds_formats trace_others_formats

lemma trace_formats_checked:
  assumes "m \<in> set trace_macros"
  shows "format_ok m \<or> macro_name m = ''TRACE_KADM5_AUTH_INIT_FAIL'' \<or>
    macro_name m = ''TRACE_TGS_REPLY_DECODE_SESSION''"
  using assms table_formats trace_modules_formats trace_tgs_formats
  unfolding trace_macros_def list_all_iff set_append by blast

text \<open>The failure of a module to initialise is traced with its name in the format and without it in the call.\<close>

lemma kadm5_auth_name_not_passed:
  "\<exists>m \<in> set trace_macros. macro_name m = ''TRACE_KADM5_AUTH_INIT_FAIL'' \<and> params m = [''name'', ''ret''] \<and>
     reads (fmt m) = Some [C_string, C_int] \<and> passed m = [Param ''ret'']"
proof -
  have "\<exists>m \<in> set trace_modules. macro_name m = ''TRACE_KADM5_AUTH_INIT_FAIL'' \<and> params m = [''name'', ''ret''] \<and>
     reads (fmt m) = Some [C_string, C_int] \<and> passed m = [Param ''ret'']"
    by code_simp
  then show ?thesis by (auto simp: trace_macros_def)
qed

text \<open>A brace in the wrong place: the specifier is not one of those listed, and the key that is passed is not read.\<close>

lemma session_key_not_read:
  "\<exists>m \<in> set trace_macros. macro_name m = ''TRACE_TGS_REPLY_DECODE_SESSION'' \<and>
     directives (fmt m) None = [''keyblock)''] \<and> passed m = [Param ''keyblock'']"
proof -
  have "\<exists>m \<in> set trace_tgs. macro_name m = ''TRACE_TGS_REPLY_DECODE_SESSION'' \<and>
     directives (fmt m) None = [''keyblock)''] \<and> passed m = [Param ''keyblock'']"
    by code_simp
  then show ?thesis by (auto simp: trace_macros_def)
qed

text \<open>The module for KDC policies is traced under the name of another.\<close>

lemma kdcpolicy_traced_as_kadm5:
  "\<exists>m \<in> set trace_others. \<exists>m' \<in> set trace_modules. macro_name m = ''TRACE_KDCPOLICY_INIT_SKIP'' \<and>
     macro_name m' = ''TRACE_KADM5_AUTH_INIT_SKIP'' \<and> fmt m = fmt m'"
  by code_simp

text \<open>A trace point that nobody listens to does nothing, in files that know the context.\<close>

lemma trace_silent:
  "\<not> trace_callback s \<Longrightarrow> TRACE disabled True trace_callback krb5int_trace s = (Inr (), s)"
  by (simp add: TRACE_def whenM_def)

lemma trace_disabled: "TRACE True h trace_callback krb5int_trace = ret ()"
  by (simp add: TRACE_def)

end
