(* ===== verification/K5_Config.thy ===== *)
theory K5_Config
  imports Prelude
begin

text \<open>
  The result of the Kerberos library's configuration that the sources are compiled with
  (auth/kinit_client/autoconf.h), and which of the variants in k5-platform.h, k5-thread.h and port-sockets.h the
  preprocessor chooses with it. What the compiler predefines is a parameter.
\<close>

section \<open>The configuration\<close>

text \<open>A line that sets_macro a macro, and one that says that it is not defined, in the order of the file.\<close>

datatype config_line = Defined string string | Not_defined string

definition quotation :: string where "quotation = [CHR 0x22]"

definition config_1 :: "config_line list" where
  "config_1 = [
     Not_defined ''AESNI'', Not_defined ''BROKEN_STREAMS_SOCKETS'', Not_defined ''CAN_COPY_VA_LIST'',
     Not_defined ''CONFIG_SMALL'', Defined ''CONSTRUCTOR_ATTR_WORKS'' ''1'', Not_defined ''CRYPTO_OPENSSL'',
     Defined ''DEFCCNAME'' (quotation @ ''FILE:/tmp/krb5cc_%{uid}'' @ quotation),
     Defined ''DEFCKTNAME'' (quotation @ ''FILE:/usr/local/var/krb5/user/%{euid}/client.keytab'' @ quotation),
     Defined ''DEFKTNAME'' (quotation @ ''FILE:/etc/krb5.keytab'' @ quotation),
     Defined ''DELAY_INITIALIZER'' ''1'', Defined ''DESTRUCTOR_ATTR_WORKS'' ''1'',
     Defined ''DISABLE_PKINIT'' ''1'', Not_defined ''ENABLE_LDAP'', Defined ''ENABLE_NLS'' ''1'',
     Defined ''ENABLE_THREADS'' ''1'', Defined ''ENDRPCENT_TYPE'' ''void'', Defined ''GETGROUPS_T'' ''gid_t'',
     Defined ''GETHOSTBYNAME_R_RETURNS_INT'' ''1'', Defined ''GETPEERNAME_ARG3_TYPE'' ''GETSOCKNAME_ARG3_TYPE'',
     Not_defined ''GETPWNAM_R_4_ARGS'', Defined ''GETPWNAM_R_RETURNS_INT'' ''1'',
     Not_defined ''GETPWUID_R_4_ARGS'', Defined ''GETSERVBYNAME_R_RETURNS_INT'' ''1'',
     Defined ''GETSOCKNAME_ARG3_TYPE'' ''socklen_t'', Not_defined ''GMTIME_R_RETURNS_INT'',
     Defined ''HAS_VA_COPY'' ''1'', Defined ''HAVE_ACCESS'' ''1'', Defined ''HAVE_ALLOCA_H'' ''1'',
     Defined ''HAVE_ARPA_INET_H'' ''1'', Not_defined ''HAVE_BSWAP16'', Not_defined ''HAVE_BSWAP64'',
     Defined ''HAVE_BSWAP_16'' ''1'', Defined ''HAVE_BSWAP_64'' ''1'', Defined ''HAVE_BT_RSEQ'' ''1'',
     Defined ''HAVE_BYTESWAP_H'' ''1'', Defined ''HAVE_CHMOD'' ''1'', Not_defined ''HAVE_CMOCKA'',
     Not_defined ''HAVE_COMPILE'', Defined ''HAVE_COM_ERR_INTL'' ''1'', Defined ''HAVE_CPUID_H'' ''1'',
     Defined ''HAVE_DAEMON'' ''1'', Defined ''HAVE_DECL_STRERROR_R'' ''1'', Defined ''HAVE_DIRENT_H'' ''1'',
     Defined ''HAVE_DLFCN_H'' ''1'', Defined ''HAVE_DN_SKIPNAME'' ''1'', Defined ''HAVE_ENDIAN_H'' ''1'',
     Defined ''HAVE_ERRNO_H'' ''1'', Not_defined ''HAVE_EVP_PKEY_GET_BN_PARAM'']"

definition config_2 :: "config_line list" where
  "config_2 = [
     Defined ''HAVE_EXPLICIT_BZERO'' ''1'', Not_defined ''HAVE_EXPLICIT_MEMSET'', Defined ''HAVE_FCHMOD'' ''1'',
     Defined ''HAVE_FCNTL_H'' ''1'', Defined ''HAVE_FLOCK'' ''1'', Defined ''HAVE_FNMATCH'' ''1'',
     Defined ''HAVE_FNMATCH_H'' ''1'', Defined ''HAVE_GETADDRINFO'' ''1'', Defined ''HAVE_GETCWD'' ''1'',
     Defined ''HAVE_GETENV'' ''1'', Defined ''HAVE_GETEUID'' ''1'', Defined ''HAVE_GETHOSTBYNAME_R'' ''1'',
     Defined ''HAVE_GETNAMEINFO'' ''1'', Defined ''HAVE_GETOPT'' ''1'', Defined ''HAVE_GETOPT_LONG'' ''1'',
     Defined ''HAVE_GETPWNAM_R'' ''1'', Defined ''HAVE_GETPWUID_R'' ''1'', Defined ''HAVE_GETRESGID'' ''1'',
     Defined ''HAVE_GETRESUID'' ''1'', Defined ''HAVE_GETSERVBYNAME_R'' ''1'',
     Defined ''HAVE_GETTIMEOFDAY'' ''1'', Defined ''HAVE_GETUSERSHELL'' ''1'', Defined ''HAVE_GMTIME_R'' ''1'',
     Defined ''HAVE_IFADDRS_H'' ''1'', Defined ''HAVE_INET_NTOP'' ''1'', Defined ''HAVE_INET_PTON'' ''1'',
     Defined ''HAVE_INT16_T'' ''1'', Defined ''HAVE_INT32_T'' ''1'', Defined ''HAVE_INT8_T'' ''1'',
     Defined ''HAVE_INTTYPES_H'' ''1'', Not_defined ''HAVE_KEYUTILS_H'', Not_defined ''HAVE_LBER_H'',
     Not_defined ''HAVE_LDAP_H'', Not_defined ''HAVE_LIBCRYPTO'', Not_defined ''HAVE_LIBEDIT'',
     Not_defined ''HAVE_LIBNSL'', Defined ''HAVE_LIBRESOLV'' ''1'', Not_defined ''HAVE_LIBSOCKET'',
     Defined ''HAVE_LIBUTIL'' ''1'', Defined ''HAVE_LIMITS_H'' ''1'', Defined ''HAVE_LOCALTIME_R'' ''1'',
     Not_defined ''HAVE_MACHINE_BYTE_ORDER_H'', Not_defined ''HAVE_MACHINE_ENDIAN_H'',
     Defined ''HAVE_MEMORY_H'' ''1'', Defined ''HAVE_MKSTEMP'' ''1'', Not_defined ''HAVE_NDIR_H'',
     Defined ''HAVE_NETDB_H'' ''1'', Defined ''HAVE_NETDB_H_H_ERRNO'' ''1'',
     Defined ''HAVE_NETINET_IN_H'' ''1'', Defined ''HAVE_NS_INITPARSE'' ''1'']"

definition config_3 :: "config_line list" where
  "config_3 = [
     Defined ''HAVE_NS_NAME_UNCOMPRESS'' ''1'', Defined ''HAVE_PATHS_H'' ''1'',
     Not_defined ''HAVE_PERSISTENT_KEYRING'', Defined ''HAVE_POLL_H'' ''1'',
     Defined ''HAVE_PRAGMA_WEAK_REF'' ''1'', Defined ''HAVE_PTHREAD'' ''1'',
     Defined ''HAVE_PTHREAD_ONCE'' ''1'', Defined ''HAVE_PTHREAD_PRIO_INHERIT'' ''1'',
     Defined ''HAVE_PTHREAD_RWLOCK_INIT'' ''1'', Defined ''HAVE_PTHREAD_RWLOCK_INIT_IN_THREAD_LIB'' ''1'',
     Defined ''HAVE_PWD_H'' ''1'', Not_defined ''HAVE_READLINE'', Defined ''HAVE_REGCOMP'' ''1'',
     Defined ''HAVE_REGEXEC'' ''1'', Not_defined ''HAVE_REGEXPR_H'', Defined ''HAVE_REGEX_H'' ''1'',
     Defined ''HAVE_RES_NCLOSE'' ''1'', Not_defined ''HAVE_RES_NDESTROY'', Defined ''HAVE_RES_NINIT'' ''1'',
     Defined ''HAVE_RES_NSEARCH'' ''1'', Defined ''HAVE_RES_SEARCH'' ''1'', Defined ''HAVE_RE_COMP'' ''1'',
     Defined ''HAVE_RE_EXEC'' ''1'', Not_defined ''HAVE_SASL_SASL_H'', Not_defined ''HAVE_SA_LEN'',
     Defined ''HAVE_SECURE_GETENV'' ''1'', Defined ''HAVE_SETEGID'' ''1'', Defined ''HAVE_SETENV'' ''1'',
     Defined ''HAVE_SETEUID'' ''1'', Not_defined ''HAVE_SETLUID'', Defined ''HAVE_SETREGID'' ''1'',
     Defined ''HAVE_SETRESGID'' ''1'', Defined ''HAVE_SETRESUID'' ''1'', Defined ''HAVE_SETREUID'' ''1'',
     Defined ''HAVE_SETSID'' ''1'', Defined ''HAVE_SETVBUF'' ''1'', Defined ''HAVE_SOCKLEN_T'' ''1'',
     Defined ''HAVE_SRAND'' ''1'', Defined ''HAVE_SRAND48'' ''1'', Defined ''HAVE_SRANDOM'' ''1'',
     Defined ''HAVE_SSIZE_T'' ''1'', Defined ''HAVE_STAT'' ''1'', Defined ''HAVE_STDDEF_H'' ''1'',
     Defined ''HAVE_STDINT_H'' ''1'', Defined ''HAVE_STDLIB_H'' ''1'', Not_defined ''HAVE_STEP'',
     Defined ''HAVE_STRCHR'' ''1'', Defined ''HAVE_STRDUP'' ''1'', Defined ''HAVE_STRERROR'' ''1'',
     Defined ''HAVE_STRERROR_R'' ''1'']"

definition config_4 :: "config_line list" where
  "config_4 = [
     Defined ''HAVE_STRINGS_H'' ''1'', Defined ''HAVE_STRING_H'' ''1'', Not_defined ''HAVE_STRLCPY'',
     Defined ''HAVE_STRPTIME'' ''1'', Defined ''HAVE_STRUCT_CMSGHDR'' ''1'',
     Not_defined ''HAVE_STRUCT_IF_LADDRCONF'', Defined ''HAVE_STRUCT_IN6_PKTINFO'' ''1'',
     Defined ''HAVE_STRUCT_IN_PKTINFO'' ''1'', Not_defined ''HAVE_STRUCT_LIFCONF'',
     Not_defined ''HAVE_STRUCT_RT_MSGHDR'', Defined ''HAVE_STRUCT_SOCKADDR_STORAGE'' ''1'',
     Not_defined ''HAVE_STRUCT_STAT_ST_MTIMENSEC'', Not_defined ''HAVE_STRUCT_STAT_ST_MTIMESPEC_TV_NSEC'',
     Defined ''HAVE_STRUCT_STAT_ST_MTIM_TV_NSEC'' ''1'', Not_defined ''HAVE_SYS_BSWAP_H'',
     Not_defined ''HAVE_SYS_DIR_H'', Not_defined ''HAVE_SYS_ERRLIST'', Defined ''HAVE_SYS_FILE_H'' ''1'',
     Not_defined ''HAVE_SYS_FILIO_H'', Not_defined ''HAVE_SYS_NDIR_H'', Defined ''HAVE_SYS_PARAM_H'' ''1'',
     Defined ''HAVE_SYS_SELECT_H'' ''1'', Defined ''HAVE_SYS_SOCKET_H'' ''1'',
     Not_defined ''HAVE_SYS_SOCKIO_H'', Defined ''HAVE_SYS_STAT_H'' ''1'', Defined ''HAVE_SYS_TIME_H'' ''1'',
     Defined ''HAVE_SYS_TYPES_H'' ''1'', Defined ''HAVE_SYS_UIO_H'' ''1'', Defined ''HAVE_TIMEGM'' ''1'',
     Defined ''HAVE_TIME_H'' ''1'', Defined ''HAVE_UNISTD_H'' ''1'', Defined ''HAVE_UNSETENV'' ''1'',
     Defined ''HAVE_U_CHAR'' ''1'', Defined ''HAVE_U_INT'' ''1'', Defined ''HAVE_U_INT16_T'' ''1'',
     Defined ''HAVE_U_INT32_T'' ''1'', Defined ''HAVE_U_INT8_T'' ''1'', Defined ''HAVE_U_LONG'' ''1'',
     Defined ''HAVE_VASPRINTF'' ''1'', Defined ''HAVE_VSNPRINTF'' ''1'', Defined ''HAVE_VSPRINTF'' ''1'',
     Defined ''HAVE___INT128_T'' ''1'', Defined ''HAVE___UINT128_T'' ''1'', Not_defined ''HDR_HAS_PERROR'',
     Not_defined ''INET6'', Not_defined ''KRB5_ATHENA_COMPAT'', Defined ''KRB5_DNS_LOOKUP'' ''1'',
     Not_defined ''KRB5_DNS_LOOKUP_REALM'', Not_defined ''KRBCONF_VAGUE_ERRORS'']"

definition config_5 :: "config_line list" where
  "config_5 = [
     Not_defined ''NEED_DAEMON_PROTO'', Not_defined ''NEED_INSIXADDR_ANY'',
     Not_defined ''NEED_SS_EXECUTE_COMMAND_PROTO'', Not_defined ''NEED_STRPTIME_PROTO'',
     Not_defined ''NEED_SWAB_PROTO'', Not_defined ''NEED_SYS_ERRLIST'', Not_defined ''NEED_VASPRINTF_PROTO'',
     Not_defined ''NOCACHE'', Not_defined ''NO_WEAK_PTHREADS'',
     Defined ''PACKAGE_BUGREPORT'' (quotation @ ''krb5-bugs@mit.edu'' @ quotation),
     Defined ''PACKAGE_NAME'' (quotation @ ''Kerberos 5'' @ quotation),
     Defined ''PACKAGE_STRING'' (quotation @ ''Kerberos 5 1.21-prerelease'' @ quotation),
     Defined ''PACKAGE_TARNAME'' (quotation @ ''krb5'' @ quotation),
     Defined ''PACKAGE_URL'' (quotation @ quotation),
     Defined ''PACKAGE_VERSION'' (quotation @ ''1.21-prerelease'' @ quotation),
     Defined ''PKCS11_MODNAME'' (quotation @ ''opensc-pkcs11.so'' @ quotation), Not_defined ''POSIX_SETJMP'',
     Defined ''POSIX_SIGNALS'' ''1'', Defined ''POSIX_TERMIOS'' ''1'', Not_defined ''PTHREAD_CREATE_JOINABLE'',
     Defined ''SETRPCENT_TYPE'' ''void'', Defined ''SIZEOF_SIZE_T'' ''8'', Defined ''SIZEOF_TIME_T'' ''8'',
     Not_defined ''SPAKE_OPENSSL'', Not_defined ''STATIC_PLUGINS'', Defined ''STDC_HEADERS'' ''1'',
     Defined ''STRERROR_R_CHAR_P'' ''1'', Not_defined ''SYS_ERRLIST_DECLARED'', Defined ''TLS_IMPL_NONE'' ''1'',
     Not_defined ''TLS_IMPL_OPENSSL'', Not_defined ''USE_CCAPI_MACOS'', Defined ''USE_DIRENT_H'' ''1'',
     Defined ''USE_DLOPEN'' ''1'', Not_defined ''USE_KEYRING_CCACHE'', Not_defined ''USE_LINKER_FINI_OPTION'',
     Not_defined ''USE_LINKER_INIT_OPTION'', Defined ''USE_SIGPROCMASK'' ''1'', Defined ''WAIT_USES_INT'' ''1'',
     Defined ''_GNU_SOURCE'' ''1'', Defined ''__STDC_WANT_LIB_EXT1__'' ''1'', Not_defined ''const'',
     Not_defined ''gid_t'', Not_defined ''inline'', Not_defined ''mode_t'', Not_defined ''off_t'',
     Not_defined ''time_t'', Not_defined ''uid_t'']"

definition config_file :: "config_line list" where
  "config_file = config_1 @ config_2 @ config_3 @ config_4 @ config_5"

text \<open>The value of a macro after the file, and whether it is defined.\<close>

fun line_macros :: "config_line \<Rightarrow> (string \<times> string) list" where
  "line_macros (Defined n v) = [(n, v)]"
| "line_macros (Not_defined n) = []"

definition macro_value :: "config_line list \<Rightarrow> string \<Rightarrow> string option" where
  "macro_value ls = map_of (rev (concat (map line_macros ls)))"

text \<open>Defined by the compiler or by the configuration.\<close>

definition compiled_with :: "string set \<Rightarrow> string \<Rightarrow> bool" where
  "compiled_with compiler n \<longleftrightarrow> n \<in> compiler \<or> macro_value config_file n \<noteq> None"

section \<open>The choices\<close>

text \<open>How initialisers and finalisers run; the last of each is an \<open>#error\<close>.\<close>

datatype init_variant = Delayed | Load_constructor | Load_linker | No_initialiser

definition choose_init :: "(string \<Rightarrow> bool) \<Rightarrow> init_variant" where
  "choose_init P =
     (if P ''DELAY_INITIALIZER'' then Delayed
      else if P ''__GNUC__'' \<and> \<not> P ''_WIN32'' \<and> P ''CONSTRUCTOR_ATTR_WORKS'' then Load_constructor
      else if P ''USE_LINKER_INIT_OPTION'' \<or> P ''_WIN32'' then Load_linker
      else No_initialiser)"

datatype fini_variant = Hpux_fini | Linker_fini | Never_run | Destructor | No_finaliser

definition choose_fini :: "(string \<Rightarrow> bool) \<Rightarrow> fini_variant" where
  "choose_fini P =
     (if P ''USE_LINKER_FINI_OPTION'' \<or> P ''_WIN32'' then (if P ''__hpux'' then Hpux_fini else Linker_fini)
      else if \<not> P ''SHARED'' then Never_run
      else if P ''__GNUC__'' \<and> P ''DESTRUCTOR_ATTR_WORKS'' then Destructor
      else No_finaliser)"

text \<open>
  Whether the finaliser runs when the library is loaded and when it is unloaded; HP-UX calls the
  function for both, with a flag.
\<close>

definition finaliser_runs :: "fini_variant \<Rightarrow> bool \<Rightarrow> bool" where
  "finaliser_runs v loading =
     (case v of
        Hpux_fini \<Rightarrow> \<not> loading
      | Linker_fini \<Rightarrow> \<not> loading
      | Never_run \<Rightarrow> False
      | Destructor \<Rightarrow> \<not> loading
      | No_finaliser \<Rightarrow> False)"

text \<open>The headers swaps come from, and whether there is one of 64 bits.\<close>

datatype swap_variant = Byteswap_h bool | Mac_swap | Bswap_h bool | No_swap

definition choose_swap :: "(string \<Rightarrow> bool) \<Rightarrow> bool \<Rightarrow> swap_variant" where
  "choose_swap P long_64 =
     (if P ''HAVE_BYTESWAP_H'' \<and> P ''HAVE_BSWAP_16'' then Byteswap_h (P ''HAVE_BSWAP_64'')
      else if P ''TARGET_OS_MAC'' then Mac_swap
      else if P ''HAVE_SYS_BSWAP_H'' then Bswap_h long_64
      else No_swap)"

datatype passwd_variant = Five_arguments | Four_int | Four_pointer | Not_reentrant

definition choose_getpwnam :: "(string \<Rightarrow> bool) \<Rightarrow> passwd_variant" where
  "choose_getpwnam P =
     (if P ''HAVE_GETPWNAM_R'' then
        if \<not> P ''GETPWNAM_R_4_ARGS'' then Five_arguments
        else if P ''GETPWNAM_R_RETURNS_INT'' then Four_int else Four_pointer
      else Not_reentrant)"

definition choose_getpwuid :: "(string \<Rightarrow> bool) \<Rightarrow> passwd_variant" where
  "choose_getpwuid P =
     (if P ''HAVE_GETPWUID_R'' then
        if \<not> P ''GETPWUID_R_4_ARGS'' then Five_arguments
        else if P ''GETPWNAM_R_RETURNS_INT'' then Four_int else Four_pointer
      else Not_reentrant)"

text \<open>Names of the C library that the library's own routines replace.\<close>

definition replaced_strings :: "(string \<Rightarrow> bool) \<Rightarrow> string list" where
  "replaced_strings P =
     (if P ''HAVE_STRLCPY'' then [] else [''strlcpy'', ''strlcat'']) @
     (if P ''HAVE_FNMATCH'' then [] else [''fnmatch''])"

definition replaced_system :: "(string \<Rightarrow> bool) \<Rightarrow> string list" where
  "replaced_system P =
     (if P ''_WIN32'' \<or> \<not> P ''HAVE_STRERROR_R'' \<or> P ''STRERROR_R_CHAR_P'' then [''strerror_r''] else []) @
     (if P ''HAVE_MKSTEMP'' then [] else [''mkstemp'']) @
     (if P ''HAVE_GETTIMEOFDAY'' then [] else [''gettimeofday''])"

definition replaced_options :: "(string \<Rightarrow> bool) \<Rightarrow> string list" where
  "replaced_options P =
     (if \<not> P ''HAVE_GETOPT'' \<or> \<not> P ''HAVE_UNISTD_H'' then [''opterr'', ''optind'', ''optopt'', ''optarg'', ''getopt''] else []) @
     (if P ''HAVE_GETOPT_LONG'' then [] else [''getopt_long'']) @
     (if P ''_WIN32'' then [''secure_getenv''] else if P ''HAVE_SECURE_GETENV'' then [] else [''secure_getenv''])"

text \<open>How memory is wiped.\<close>

datatype zap_variant = SecureZeroMemory | Memset_s | Explicit_bzero | Explicit_memset | Memset_asm | Krb5int_zap

definition choose_zap :: "(string \<Rightarrow> bool) \<Rightarrow> zap_variant" where
  "choose_zap P =
     (if P ''_WIN32'' then SecureZeroMemory
      else if P ''__STDC_LIB_EXT1__'' then Memset_s
      else if P ''HAVE_EXPLICIT_BZERO'' then Explicit_bzero
      else if P ''HAVE_EXPLICIT_MEMSET'' then Explicit_memset
      else if P ''__GNUC__'' \<or> P ''__clang__'' then Memset_asm
      else Krb5int_zap)"

text \<open>Mutexes and the once control; the library decides at run time in the second case.\<close>

datatype thread_variant = No_threads | Conditional_pthreads | Pthreads | Windows_threads | No_thread_system

definition choose_threads :: "(string \<Rightarrow> bool) \<Rightarrow> thread_variant" where
  "choose_threads P =
     (if \<not> P ''ENABLE_THREADS'' then No_threads
      else if P ''HAVE_PTHREAD'' then
        (if P ''HAVE_PRAGMA_WEAK_REF'' \<and> \<not> P ''NO_WEAK_PTHREADS'' then Conditional_pthreads else Pthreads)
      else if P ''_WIN32'' then Windows_threads
      else No_thread_system)"

section \<open>What is compiled\<close>

text \<open>A \<open>size_t\<close> and a \<open>time_t\<close> have eight octets, which is what \<open>K5_Data\<close> takes them for.\<close>

lemma config_values:
  "macro_value config_file ''SIZEOF_SIZE_T'' = Some ''8''" "macro_value config_file ''SIZEOF_TIME_T'' = Some ''8''"
  "macro_value config_file ''DEFCCNAME'' = Some (quotation @ ''FILE:/tmp/krb5cc_%{uid}'' @ quotation)"
  "macro_value config_file ''DEFKTNAME'' = Some (quotation @ ''FILE:/etc/krb5.keytab'' @ quotation)"
  by code_simp+

text \<open>The switches the choices look at: those the configuration sets, and those it leaves to the compiler.\<close>

definition switches_1 :: "string list" where
  "switches_1 = [
     ''DELAY_INITIALIZER'', ''HAVE_BYTESWAP_H'', ''HAVE_BSWAP_16'', ''HAVE_BSWAP_64'', ''ENABLE_THREADS'',
     ''HAVE_ENDIAN_H'']"

definition switches_2 :: "string list" where
  "switches_2 = [
     ''HAVE_GETPWNAM_R'', ''HAVE_GETPWUID_R'', ''HAVE_FNMATCH'', ''HAVE_MKSTEMP'', ''HAVE_GETTIMEOFDAY'',
     ''HAVE_GETOPT'', ''HAVE_GETOPT_LONG'', ''HAVE_EXPLICIT_BZERO'', ''HAVE_INET_NTOP'']"

definition switches_3 :: "string list" where
  "switches_3 = [
     ''HAVE_STRERROR_R'', ''HAVE_SECURE_GETENV'', ''HAVE_PTHREAD'', ''HAVE_PRAGMA_WEAK_REF'', ''HAVE_SOCKLEN_T'']"

definition switches_4 :: "string list" where
  "switches_4 = [
     ''HAVE_UNISTD_H'', ''HAVE_VSNPRINTF'', ''HAVE_VASPRINTF'', ''HAVE_STRUCT_SOCKADDR_STORAGE'']"

definition switches_5 :: "string list" where
  "switches_5 = [
     ''STRERROR_R_CHAR_P'']"

definition switches_on :: "string list" where
  "switches_on = switches_1 @ switches_2 @ switches_3 @ switches_4 @ switches_5"

definition switches_off :: "string list" where
  "switches_off = [''_WIN32'', ''USE_LINKER_FINI_OPTION'', ''GETPWNAM_R_4_ARGS'', ''GETPWUID_R_4_ARGS'', ''HAVE_STRLCPY'',
     ''__STDC_LIB_EXT1__'', ''NO_WEAK_PTHREADS'', ''SHARED'']"

fun sets_macro :: "string \<Rightarrow> config_line \<Rightarrow> bool" where
  "sets_macro n (Defined m v) \<longleftrightarrow> m = n"
| "sets_macro n (Not_defined m) \<longleftrightarrow> False"

lemma defined_1: "list_all (\<lambda>n. list_ex (sets_macro n) config_1) switches_1"
  by code_simp

lemma defined_2: "list_all (\<lambda>n. list_ex (sets_macro n) config_2) switches_2"
  by code_simp

lemma defined_3: "list_all (\<lambda>n. list_ex (sets_macro n) config_3) switches_3"
  by code_simp

lemma defined_4: "list_all (\<lambda>n. list_ex (sets_macro n) config_4) switches_4"
  by code_simp

lemma defined_5: "list_all (\<lambda>n. list_ex (sets_macro n) config_5) switches_5"
  by code_simp

lemma not_defined_1: "list_all (\<lambda>l. \<not> list_ex (\<lambda>n. sets_macro n l) switches_off) config_1"
  by code_simp

lemma not_defined_2: "list_all (\<lambda>l. \<not> list_ex (\<lambda>n. sets_macro n l) switches_off) config_2"
  by code_simp

lemma not_defined_3: "list_all (\<lambda>l. \<not> list_ex (\<lambda>n. sets_macro n l) switches_off) config_3"
  by code_simp

lemma not_defined_4: "list_all (\<lambda>l. \<not> list_ex (\<lambda>n. sets_macro n l) switches_off) config_4"
  by code_simp

lemma not_defined_5: "list_all (\<lambda>l. \<not> list_ex (\<lambda>n. sets_macro n l) switches_off) config_5"
  by code_simp

lemma macro_defined: "macro_value ls n \<noteq> None \<longleftrightarrow> list_ex (sets_macro n) ls"
proof -
  have "n \<in> fst ` set (line_macros l) \<longleftrightarrow> sets_macro n l" for l by (cases l) auto
  moreover have "n \<in> fst ` set (concat (map line_macros ls)) \<longleftrightarrow> (\<exists>l \<in> set ls. n \<in> fst ` set (line_macros l))"
    by force
  ultimately show ?thesis by (simp add: macro_value_def map_of_eq_None_iff list_ex_iff)
qed

lemma switches:
  "n \<in> set switches_on \<Longrightarrow> macro_value config_file n \<noteq> None"
  "n \<in> set switches_off \<Longrightarrow> macro_value config_file n = None"
proof -
  show "n \<in> set switches_on \<Longrightarrow> macro_value config_file n \<noteq> None"
    unfolding macro_defined config_file_def switches_on_def
    using defined_1 defined_2 defined_3 defined_4 defined_5 by (auto simp: list_all_iff)
  have "\<not> list_ex (sets_macro n) config_file" if "n \<in> set switches_off"
    using that not_defined_1 not_defined_2 not_defined_3 not_defined_4 not_defined_5
    unfolding config_file_def by (auto simp: list_all_iff list_ex_iff)
  then show "n \<in> set switches_off \<Longrightarrow> macro_value config_file n = None"
    using macro_defined [of config_file n] by blast
qed

lemma never_at_load: "\<not> finaliser_runs v True"
  by (cases v) (simp_all add: finaliser_runs_def)

text \<open>
  What a compiler that predefines none of the macros left open gets: initialisation on the first
  call and none at the end, swaps from \<open>byteswap.h\<close>, the reentrant lookups with five arguments,
  \<open>explicit_bzero\<close>, and mutexes that are those of pthreads only when the program has threads.
\<close>

lemmas all_switches = switches_1_def switches_2_def switches_3_def switches_4_def switches_5_def

lemma compiled_switches:
  assumes "C \<inter> set switches_off = {}"
  shows "n \<in> set switches_on \<Longrightarrow> compiled_with C n" and "n \<in> set switches_off \<Longrightarrow> \<not> compiled_with C n"
  using assms switches [of n] by (auto simp: compiled_with_def)

lemma variants_compiled:
  assumes "C \<inter> set switches_off = {}"
  shows "choose_init (compiled_with C) = Delayed" "choose_fini (compiled_with C) = Never_run"
    "choose_swap (compiled_with C) long_64 = Byteswap_h True"
    "choose_getpwnam (compiled_with C) = Five_arguments" "choose_getpwuid (compiled_with C) = Five_arguments"
    "replaced_strings (compiled_with C) = [''strlcpy'', ''strlcat'']"
    "replaced_system (compiled_with C) = [''strerror_r'']" "replaced_options (compiled_with C) = []"
    "choose_zap (compiled_with C) = Explicit_bzero" "choose_threads (compiled_with C) = Conditional_pthreads"
proof -
  note on = compiled_switches(1) [OF assms] and off = compiled_switches(2) [OF assms]
  show "choose_init (compiled_with C) = Delayed"
    using on [of "''DELAY_INITIALIZER''"] by (simp add: choose_init_def switches_on_def all_switches)
  show "choose_fini (compiled_with C) = Never_run"
    using off [of "''USE_LINKER_FINI_OPTION''"] off [of "''_WIN32''"] off [of "''SHARED''"]
    by (simp add: choose_fini_def switches_off_def)
  show "choose_swap (compiled_with C) long_64 = Byteswap_h True"
    using on [of "''HAVE_BYTESWAP_H''"] on [of "''HAVE_BSWAP_16''"] on [of "''HAVE_BSWAP_64''"]
    by (simp add: choose_swap_def switches_on_def all_switches)
  show "choose_getpwnam (compiled_with C) = Five_arguments"
    using on [of "''HAVE_GETPWNAM_R''"] off [of "''GETPWNAM_R_4_ARGS''"]
    by (simp add: choose_getpwnam_def switches_on_def all_switches switches_off_def)
  show "choose_getpwuid (compiled_with C) = Five_arguments"
    using on [of "''HAVE_GETPWUID_R''"] off [of "''GETPWUID_R_4_ARGS''"]
    by (simp add: choose_getpwuid_def switches_on_def all_switches switches_off_def)
  show "replaced_strings (compiled_with C) = [''strlcpy'', ''strlcat'']"
    using on [of "''HAVE_FNMATCH''"] off [of "''HAVE_STRLCPY''"]
    by (simp add: replaced_strings_def switches_on_def all_switches switches_off_def)
  show "replaced_system (compiled_with C) = [''strerror_r'']"
    using on [of "''STRERROR_R_CHAR_P''"] on [of "''HAVE_MKSTEMP''"] on [of "''HAVE_GETTIMEOFDAY''"]
    by (simp add: replaced_system_def switches_on_def all_switches)
  show "replaced_options (compiled_with C) = []"
    using on [of "''HAVE_GETOPT''"] on [of "''HAVE_UNISTD_H''"] on [of "''HAVE_GETOPT_LONG''"]
      on [of "''HAVE_SECURE_GETENV''"] off [of "''_WIN32''"]
    by (simp add: replaced_options_def switches_on_def all_switches switches_off_def)
  show "choose_zap (compiled_with C) = Explicit_bzero"
    using on [of "''HAVE_EXPLICIT_BZERO''"] off [of "''_WIN32''"] off [of "''__STDC_LIB_EXT1__''"]
    by (simp add: choose_zap_def switches_on_def all_switches switches_off_def)
  show "choose_threads (compiled_with C) = Conditional_pthreads"
    using on [of "''ENABLE_THREADS''"] on [of "''HAVE_PTHREAD''"] on [of "''HAVE_PRAGMA_WEAK_REF''"]
      off [of "''NO_WEAK_PTHREADS''"]
    by (simp add: choose_threads_def switches_on_def all_switches switches_off_def)
qed

end
